(* ===== verification/Prelude.thy ===== *)
theory Prelude
  imports Main "HOL-Library.Word"
begin

text \<open>
  Shared ground of the development: the machine types the Rust code uses, the parts of Rust's
  standard library the modelled code calls (saturating and checked arithmetic, decimal printing,
  string search and replacement, \<open>Vec::join\<close>, the ASCII character classes), and the effect type
  of the asynchronous functions. An \<open>async fn\<close> returning \<open>Result\<close> runs against a world \<open>'w\<close>
  (databases, RPC nodes, streams), may fail, and keeps the effects made before it failed; a
  task awaits its calls one after the other, so the model composes them with \<open>io_bind\<close>.
\<close>

section \<open>Machine types\<close>

type_synonym u64 = "64 word"
type_synonym u256 = "256 word"
type_synonym b256 = "256 word"

named_theorems rx_defs "small definitions of the model that proofs unfold together"
named_theorems io_simps "rules that evaluate the effect combinators"

section \<open>Rust arithmetic on fixed-width integers\<close>

definition saturating_sub :: "'a::len word \<Rightarrow> 'a word \<Rightarrow> 'a word" where
  "saturating_sub a b = (if b \<le> a then a - b else 0)"

definition saturating_add :: "'a::len word \<Rightarrow> 'a word \<Rightarrow> 'a word" where
  "saturating_add a b = (if unat a + unat b < 2 ^ LENGTH('a) then a + b else - 1)"

definition checked_sub :: "'a::len word \<Rightarrow> 'a word \<Rightarrow> 'a word option" where
  "checked_sub a b = (if b \<le> a then Some (a - b) else None)"

definition checked_add :: "'a::len word \<Rightarrow> 'a word \<Rightarrow> 'a word option" where
  "checked_add a b = (if unat a + unat b < 2 ^ LENGTH('a) then Some (a + b) else None)"

definition checked_mul :: "'a::len word \<Rightarrow> 'a word \<Rightarrow> 'a word option" where
  "checked_mul a b = (if unat a * unat b < 2 ^ LENGTH('a) then Some (a * b) else None)"

definition checked_div :: "'a::len word \<Rightarrow> 'a word \<Rightarrow> 'a word option" where
  "checked_div a b = (if b = 0 then None else Some (a div b))"

lemma unat_saturating_sub [simp]: "unat (saturating_sub a b) = unat a - unat b"
  by (auto simp: saturating_sub_def unat_sub word_le_nat_alt)

lemma checked_sub_unat: "checked_sub a b = Some c \<longleftrightarrow> unat b \<le> unat a \<and> unat c = unat a - unat b"
  by (auto simp: checked_sub_def unat_sub word_le_nat_alt word_unat_eq_iff split: if_splits)

lemma checked_sub_None: "checked_sub a b = None \<longleftrightarrow> unat a < unat b"
  by (auto simp: checked_sub_def word_le_nat_alt)

lemma checked_add_unat: "checked_add a b = Some c \<longleftrightarrow> unat c = unat a + unat b"
  by (auto simp: checked_add_def unat_word_ariths word_unat_eq_iff) (metis unsigned_less)

lemma checked_mul_unat: "checked_mul a b = Some c \<longleftrightarrow> unat c = unat a * unat b"
  by (auto simp: checked_mul_def unat_word_ariths word_unat_eq_iff) (metis unsigned_less)

lemma checked_div_unat: "checked_div a b = Some c \<longleftrightarrow> b \<noteq> 0 \<and> unat c = unat a div unat b"
  by (auto simp: checked_div_def unat_div word_unat_eq_iff)

lemma word_succ_unat: "(x::'a::len word) < y \<Longrightarrow> unat (x + 1) = Suc (unat x)"
proof -
  assume "x < y"
  then have "Suc (unat x) < 2 ^ LENGTH('a)"
    by (metis Suc_lessI Suc_less_eq less_trans_Suc not_less_eq unsigned_less word_less_nat_alt)
  then show ?thesis by (simp add: unat_word_ariths)
qed

section \<open>Strings\<close>

text \<open>
  A Rust \<open>String\<close> is its UTF-8 bytes, which are the characters of an Isabelle \<open>string\<close>; \<open>len\<close> is
  therefore \<open>length\<close>. The modelled code only looks at ASCII characters.
\<close>

definition digit_char :: "nat \<Rightarrow> char" where
  "digit_char d = char_of (48 + d)"

fun show_nat :: "nat \<Rightarrow> string" where
  "show_nat n = (if n < 10 then [digit_char n] else show_nat (n div 10) @ [digit_char (n mod 10)])"

declare show_nat.simps [simp del]

definition show_word :: "'a::len word \<Rightarrow> string" where
  "show_word w = show_nat (unat w)"

definition digit_value :: "char \<Rightarrow> nat" where
  "digit_value c = of_char c - 48"

definition read_nat :: "string \<Rightarrow> nat" where
  "read_nat s = foldl (\<lambda>a c. 10 * a + digit_value c) 0 s"

definition starts_with :: "string \<Rightarrow> string \<Rightarrow> bool" where
  "starts_with p s = (take (length p) s = p)"

definition strip_prefix :: "string \<Rightarrow> string \<Rightarrow> string option" where
  "strip_prefix p s = (if starts_with p s then Some (drop (length p) s) else None)"

fun str_contains :: "string \<Rightarrow> string \<Rightarrow> bool" where
  "str_contains p [] = (p = [])"
| "str_contains p (c # cs) = (starts_with p (c # cs) \<or> str_contains p cs)"

definition replace_char :: "char \<Rightarrow> string \<Rightarrow> string \<Rightarrow> string" where
  "replace_char c r s = concat (map (\<lambda>x. if x = c then r else [x]) s)"

definition split_once :: "char \<Rightarrow> string \<Rightarrow> (string \<times> string) option" where
  "split_once d s =
     (case dropWhile (\<lambda>c. c \<noteq> d) s of
        [] \<Rightarrow> None
      | _ # rest \<Rightarrow> Some (takeWhile (\<lambda>c. c \<noteq> d) s, rest))"

fun join :: "string \<Rightarrow> string list \<Rightarrow> string" where
  "join sep [] = []"
| "join sep [x] = x"
| "join sep (x # y # xs) = x @ sep @ join sep (y # xs)"

definition squoted :: "string \<Rightarrow> string" where
  "squoted s = [CHR 0x27] @ s @ [CHR 0x27]"

fun enumerate_from :: "nat \<Rightarrow> 'a list \<Rightarrow> (nat \<times> 'a) list" where
  "enumerate_from i [] = []"
| "enumerate_from i (x # xs) = (i, x) # enumerate_from (Suc i) xs"

definition u64_range :: "u64 \<Rightarrow> u64 \<Rightarrow> u64 list" where
  "u64_range a b = map of_nat [unat a..<unat b]"

definition u64_range_incl :: "u64 \<Rightarrow> u64 \<Rightarrow> u64 list" where
  "u64_range_incl a b = map of_nat [unat a..<Suc (unat b)]"

definition char_in :: "nat \<Rightarrow> nat \<Rightarrow> char \<Rightarrow> bool" where
  "char_in lo hi c = (lo \<le> (of_char c :: nat) \<and> (of_char c :: nat) \<le> hi)"

definition is_ascii_digit :: "char \<Rightarrow> bool" where
  "is_ascii_digit c = char_in 48 57 c"

definition is_ascii_alphabetic :: "char \<Rightarrow> bool" where
  "is_ascii_alphabetic c = (char_in 65 90 c \<or> char_in 97 122 c)"

definition is_ascii_alphanumeric :: "char \<Rightarrow> bool" where
  "is_ascii_alphanumeric c = (is_ascii_alphabetic c \<or> is_ascii_digit c)"

definition is_ascii_hexdigit :: "char \<Rightarrow> bool" where
  "is_ascii_hexdigit c = (is_ascii_digit c \<or> char_in 65 70 c \<or> char_in 97 102 c)"

definition to_ascii_uppercase :: "char \<Rightarrow> char" where
  "to_ascii_uppercase c = (if char_in 97 122 c then char_of ((of_char c :: nat) - 32) else c)"

definition to_ascii_lowercase :: "char \<Rightarrow> char" where
  "to_ascii_lowercase c = (if char_in 65 90 c then char_of ((of_char c :: nat) + 32) else c)"

lemma digit_value_digit_char [simp]: "d < 10 \<Longrightarrow> digit_value (digit_char d) = d"
  by (simp add: digit_value_def digit_char_def of_char_of)

lemma is_ascii_digit_digit_char [simp]: "d < 10 \<Longrightarrow> is_ascii_digit (digit_char d)"
  by (simp add: is_ascii_digit_def char_in_def digit_char_def of_char_of)

lemma read_nat_append [simp]: "read_nat (s @ [c]) = 10 * read_nat s + digit_value c"
  by (simp add: read_nat_def)

lemma read_nat_show_nat [simp]: "read_nat (show_nat n) = n"
proof (induction n rule: show_nat.induct)
  case (1 n)
  then show ?case
    by (cases "n < 10") (simp_all add: show_nat.simps [of n] read_nat_def [of "[_]"])
qed

lemma show_nat_inject [simp]: "show_nat m = show_nat n \<longleftrightarrow> m = n"
  by (metis read_nat_show_nat)

lemma show_word_inject [simp]: "show_word v = show_word w \<longleftrightarrow> v = w"
  by (simp add: show_word_def word_unat_eq_iff)

lemma show_nat_digits: "c \<in> set (show_nat n) \<Longrightarrow> is_ascii_digit c"
proof (induction n rule: show_nat.induct)
  case (1 n)
  then show ?case
    by (cases "n < 10") (auto simp: show_nat.simps [of n])
qed

lemma show_nat_not_Nil [simp]: "show_nat n \<noteq> []"
  by (subst show_nat.simps) simp

lemma str_contains_iff: "str_contains p s \<longleftrightarrow> (\<exists>us vs. s = us @ p @ vs)"
proof (induction s)
  case Nil
  then show ?case by simp
next
  case (Cons c s)
  have "starts_with p (c # s) \<longleftrightarrow> (\<exists>vs. c # s = p @ vs)"
    by (metis append_eq_conv_conj append_take_drop_id starts_with_def)
  with Cons show ?case
    by (auto simp: Cons_eq_append_conv)
qed

lemma str_contains_single [simp]: "str_contains [c] s \<longleftrightarrow> c \<in> set s"
  by (auto simp: str_contains_iff in_set_conv_decomp)

lemma str_contains_append:
  "str_contains p s \<Longrightarrow> str_contains p (us @ s)" "str_contains p s \<Longrightarrow> str_contains p (s @ vs)"
  by (auto simp: str_contains_iff) (metis append.assoc)+

lemma str_contains_self [simp]: "str_contains s s"
  by (metis append_Nil append_Nil2 str_contains_iff)

lemma unat_of_nat_le: "k \<le> unat (b :: 'a::len word) \<Longrightarrow> unat (of_nat k :: 'a word) = k"
  by (metis le_unat_uoi)

lemma set_u64_range: "set (u64_range a b) = {n. a \<le> n \<and> n < b}"
proof -
  have "n \<in> set (u64_range a b)" if "a \<le> n" "n < b" for n
    using that by (auto simp: u64_range_def word_le_nat_alt word_less_nat_alt
        intro!: image_eqI [of _ _ "unat n"])
  moreover have "a \<le> n \<and> n < b" if "n \<in> set (u64_range a b)" for n
  proof -
    from that obtain k where "n = of_nat k" "unat a \<le> k" "k < unat b"
      by (auto simp: u64_range_def)
    moreover from this have "unat n = k" by (simp add: unat_of_nat_le [of k b])
    ultimately show ?thesis by (simp add: word_le_nat_alt word_less_nat_alt)
  qed
  ultimately show ?thesis by blast
qed

lemma sorted_u64_range: "sorted_wrt (<) (u64_range a b)"
  by (auto simp: u64_range_def sorted_wrt_map sorted_wrt_upt word_less_nat_alt unat_of_nat_le [of _ b]
      intro!: sorted_wrt_mono_rel [OF _ sorted_wrt_upt])

lemma set_u64_range_incl: "set (u64_range_incl a b) = {n. a \<le> n \<and> n \<le> b}"
proof -
  have "n \<in> set (u64_range_incl a b)" if "a \<le> n" "n \<le> b" for n
    using that by (auto simp: u64_range_incl_def word_le_nat_alt simp del: upt_Suc
        intro!: image_eqI [of _ _ "unat n"])
  moreover have "a \<le> n \<and> n \<le> b" if "n \<in> set (u64_range_incl a b)" for n
    using that by (auto simp: u64_range_incl_def word_le_nat_alt unat_of_nat_le less_Suc_eq_le
        simp del: upt_Suc)
  ultimately show ?thesis by blast
qed

lemma remdups_adj_sorted_strict: "sorted xs \<Longrightarrow> sorted_wrt (<) (remdups_adj xs)"
  for xs :: "'a::linorder list"
proof (induction xs rule: remdups_adj.induct)
  case (3 x y xs)
  show ?case
  proof (cases "x = y")
    case False
    with 3 have "x < y" and le: "\<And>z. z \<in> set (y # xs) \<Longrightarrow> y \<le> z" by auto
    then have "x < z" if "z \<in> set (remdups_adj (y # xs))" for z
      using that by (metis order_less_le_trans remdups_adj_set)
    with 3 False show ?thesis by simp
  qed (use 3 in simp)
qed simp_all

lemma replace_char_Nil [simp]: "replace_char c r [] = []"
  by (simp add: replace_char_def)

lemma replace_char_Cons [simp]:
  "replace_char c r (x # s) = (if x = c then r else [x]) @ replace_char c r s"
  by (simp add: replace_char_def)

lemma replace_char_absent: "c \<notin> set s \<Longrightarrow> replace_char c r s = s"
  by (induction s) auto

section \<open>Sequential effects\<close>

type_synonym ('w, 'e, 'a) io = "'w \<Rightarrow> ('e + 'a) \<times> 'w"

definition io_ret :: "'a \<Rightarrow> ('w, 'e, 'a) io" where
  "io_ret x = (\<lambda>w. (Inr x, w))"

definition io_fail :: "'e \<Rightarrow> ('w, 'e, 'a) io" where
  "io_fail e = (\<lambda>w. (Inl e, w))"

definition io_bind :: "('w, 'e, 'a) io \<Rightarrow> ('a \<Rightarrow> ('w, 'e, 'b) io) \<Rightarrow> ('w, 'e, 'b) io" where
  "io_bind m f = (\<lambda>w. case m w of (Inl e, w') \<Rightarrow> (Inl e, w') | (Inr x, w') \<Rightarrow> f x w')"

definition io_then :: "('w, 'e, 'a) io \<Rightarrow> ('w, 'e, 'b) io \<Rightarrow> ('w, 'e, 'b) io" where
  "io_then m n = io_bind m (\<lambda>_. n)"

definition io_map_err :: "('d \<Rightarrow> 'e) \<Rightarrow> ('w, 'd, 'a) io \<Rightarrow> ('w, 'e, 'a) io" where
  "io_map_err f m = (\<lambda>w. case m w of (Inl d, w') \<Rightarrow> (Inl (f d), w') | (Inr x, w') \<Rightarrow> (Inr x, w'))"

definition io_lift :: "'e + 'a \<Rightarrow> ('w, 'e, 'a) io" where
  "io_lift r = (\<lambda>w. (r, w))"

definition io_ignore :: "('w, 'd, 'a) io \<Rightarrow> ('w, 'e, unit) io" where
  "io_ignore m = (\<lambda>w. (Inr (), snd (m w)))"

fun io_for :: "('a \<Rightarrow> ('w, 'e, unit) io) \<Rightarrow> 'a list \<Rightarrow> ('w, 'e, unit) io" where
  "io_for f [] = io_ret ()"
| "io_for f (x # xs) = io_then (f x) (io_for f xs)"

fun io_fold :: "('a \<Rightarrow> 's \<Rightarrow> ('w, 'e, 's) io) \<Rightarrow> 'a list \<Rightarrow> 's \<Rightarrow> ('w, 'e, 's) io" where
  "io_fold f [] s = io_ret s"
| "io_fold f (x # xs) s = io_bind (f x s) (io_fold f xs)"

definition io_opt :: "'a option \<Rightarrow> ('a \<Rightarrow> ('w, 'e, unit) io) \<Rightarrow> ('w, 'e, unit) io" where
  "io_opt x f = (case x of None \<Rightarrow> io_ret () | Some y \<Rightarrow> f y)"

lemma io_ret_app [simp]: "io_ret x w = (Inr x, w)"
  by (simp add: io_ret_def)

lemma io_fail_app [simp]: "io_fail e w = (Inl e, w)"
  by (simp add: io_fail_def)

lemma io_lift_app [simp]: "io_lift r w = (r, w)"
  by (simp add: io_lift_def)

lemma io_ignore_app [simp]: "io_ignore m w = (Inr (), snd (m w))"
  by (simp add: io_ignore_def)

lemma io_bind_ret [simp]: "io_bind (io_ret x) f = f x"
  by (simp add: io_bind_def io_ret_def)

lemma io_then_ret [simp]: "io_then (io_ret x) n = n"
  by (simp add: io_then_def)

lemma io_bind_Inr [io_simps]: "m w = (Inr x, w') \<Longrightarrow> io_bind m f w = f x w'"
  by (simp add: io_bind_def)

lemma io_bind_Inl [io_simps]: "m w = (Inl e, w') \<Longrightarrow> io_bind m f w = (Inl e, w')"
  by (simp add: io_bind_def)

lemma io_then_Inr [io_simps]: "m w = (Inr x, w') \<Longrightarrow> io_then m n w = n w'"
  by (simp add: io_then_def io_bind_def)

lemma io_then_Inl [io_simps]: "m w = (Inl e, w') \<Longrightarrow> io_then m n w = (Inl e, w')"
  by (simp add: io_then_def io_bind_def)

lemma io_bind_eq_Inr:
  "io_bind m f w = (Inr y, w'') \<longleftrightarrow> (\<exists>x w'. m w = (Inr x, w') \<and> f x w' = (Inr y, w''))"
  by (auto simp: io_bind_def split: prod.splits sum.splits)

lemma io_then_eq_Inr:
  "io_then m n w = (Inr y, w'') \<longleftrightarrow> (\<exists>x w'. m w = (Inr x, w') \<and> n w' = (Inr y, w''))"
  by (simp add: io_then_def io_bind_eq_Inr)

lemma io_map_err_eq_Inr: "io_map_err f m w = (Inr x, w') \<longleftrightarrow> m w = (Inr x, w')"
  by (auto simp: io_map_err_def split: prod.splits sum.splits)

lemma io_map_err_app [simp]:
  "m w = (Inr x, w') \<Longrightarrow> io_map_err f m w = (Inr x, w')"
  "m w = (Inl d, w') \<Longrightarrow> io_map_err f m w = (Inl (f d), w')"
  by (simp_all add: io_map_err_def)

text \<open>An invariant of the world that every call keeps is kept by their composition.\<close>

definition io_keeps :: "('w \<Rightarrow> bool) \<Rightarrow> ('w, 'e, 'a) io \<Rightarrow> bool" where
  "io_keeps P m = (\<forall>w. P w \<longrightarrow> P (snd (m w)))"

lemma io_keepsD: "io_keeps P m \<Longrightarrow> P w \<Longrightarrow> m w = (r, w') \<Longrightarrow> P w'"
  by (metis io_keeps_def snd_conv)

lemma io_keeps_ret [intro!]: "io_keeps P (io_ret x)"
  and io_keeps_fail [intro!]: "io_keeps P (io_fail e)"
  and io_keeps_lift [intro!]: "io_keeps P (io_lift r)"
  by (simp_all add: io_keeps_def)

lemma io_keeps_bind [intro]: "io_keeps P m \<Longrightarrow> (\<And>x. io_keeps P (f x)) \<Longrightarrow> io_keeps P (io_bind m f)"
  by (fastforce simp: io_keeps_def io_bind_def split: prod.splits sum.splits)

lemma io_keeps_then [intro]: "io_keeps P m \<Longrightarrow> io_keeps P n \<Longrightarrow> io_keeps P (io_then m n)"
  unfolding io_then_def by blast

lemma io_keeps_map_err [intro]: "io_keeps P m \<Longrightarrow> io_keeps P (io_map_err f m)"
  by (fastforce simp: io_keeps_def io_map_err_def split: prod.splits sum.splits)

lemma io_keeps_ignore [intro]: "io_keeps P m \<Longrightarrow> io_keeps P (io_ignore m)"
  by (simp add: io_keeps_def)

lemma io_keeps_for [intro]: "(\<And>x. x \<in> set xs \<Longrightarrow> io_keeps P (f x)) \<Longrightarrow> io_keeps P (io_for f xs)"
  by (induction xs) auto

lemma io_keeps_fold [intro]:
  "(\<And>x s. x \<in> set xs \<Longrightarrow> io_keeps P (f x s)) \<Longrightarrow> io_keeps P (io_fold f xs s)"
  by (induction xs arbitrary: s) auto

lemma io_keeps_opt [intro]: "(\<And>x. y = Some x \<Longrightarrow> io_keeps P (f x)) \<Longrightarrow> io_keeps P (io_opt y f)"
  by (cases y) (auto simp: io_opt_def)

text \<open>Every value a call returns satisfies \<open>Q\<close>.\<close>

definition io_ensures :: "('a \<Rightarrow> bool) \<Rightarrow> ('w, 'e, 'a) io \<Rightarrow> bool" where
  "io_ensures Q m = (\<forall>w x w'. m w = (Inr x, w') \<longrightarrow> Q x)"

lemma io_ensuresD: "io_ensures Q m \<Longrightarrow> m w = (Inr x, w') \<Longrightarrow> Q x"
  by (auto simp: io_ensures_def)

lemma io_ensures_ret [intro]: "Q x \<Longrightarrow> io_ensures Q (io_ret x)"
  and io_ensures_fail [intro]: "io_ensures Q (io_fail e)"
  by (simp_all add: io_ensures_def)

lemma io_ensures_bind: "io_ensures Q m \<Longrightarrow> (\<And>x. Q x \<Longrightarrow> io_ensures R (f x)) \<Longrightarrow> io_ensures R (io_bind m f)"
  unfolding io_ensures_def io_bind_eq_Inr by blast

lemma io_ensures_then: "io_ensures R n \<Longrightarrow> io_ensures R (io_then m n)"
  unfolding io_ensures_def io_then_eq_Inr by blast

lemma io_ensures_fold:
  "(\<And>x s. x \<in> set xs \<Longrightarrow> I s \<Longrightarrow> io_ensures I (f x s)) \<Longrightarrow> I s \<Longrightarrow> io_ensures I (io_fold f xs s)"
proof (induction xs arbitrary: s)
  case (Cons x xs)
  then show ?case by (auto intro!: io_ensures_bind [where Q = I])
qed auto

lemma io_keeps_bind_ensures:
  "io_keeps P m \<Longrightarrow> io_ensures Q m \<Longrightarrow> (\<And>x. Q x \<Longrightarrow> io_keeps P (f x)) \<Longrightarrow> io_keeps P (io_bind m f)"
  unfolding io_keeps_def io_ensures_def io_bind_def
  by (auto split: prod.splits sum.splits) (metis snd_conv)+

end
