(* ===== verification/Ordered_Map.thy ===== *)
theory Ordered_Map
  imports Prelude
begin

text \<open>
  \<open>std::collections::BTreeMap\<close>: a map whose keys are visited in ascending order. The model is an
  association list sorted strictly by key. \<open>ordered_map\<close> is the interface its users rely on, with
  the facts about bounded eviction (\<open>pop_first\<close> until the size fits) proved once from the laws.
\<close>

section \<open>The interface\<close>

locale ordered_map =
  fixes get :: "'m \<Rightarrow> 'k::linorder \<Rightarrow> 'v option"
    and insert_kv :: "'k \<Rightarrow> 'v \<Rightarrow> 'm \<Rightarrow> 'm"
    and retain :: "('k \<Rightarrow> bool) \<Rightarrow> 'm \<Rightarrow> 'm"
    and pop_first :: "'m \<Rightarrow> 'm"
    and keys :: "'m \<Rightarrow> 'k list"
    and invar :: "'m \<Rightarrow> bool"
  assumes get_insert: "invar m \<Longrightarrow> get (insert_kv k v m) = (get m)(k \<mapsto> v)"
    and get_retain: "invar m \<Longrightarrow> get (retain P m) k = (if P k then get m k else None)"
    and get_pop_first: "invar m \<Longrightarrow> keys m \<noteq> [] \<Longrightarrow> get (pop_first m) = (get m)(hd (keys m) := None)"
    and keys_dom: "invar m \<Longrightarrow> set (keys m) = dom (get m)"
    and keys_sorted: "invar m \<Longrightarrow> sorted_wrt (<) (keys m)"
    and invar_insert: "invar m \<Longrightarrow> invar (insert_kv k v m)"
    and invar_retain: "invar m \<Longrightarrow> invar (retain P m)"
    and invar_pop_first: "invar m \<Longrightarrow> keys m \<noteq> [] \<Longrightarrow> invar (pop_first m)"
begin

lemma hd_keys_least: "invar m \<Longrightarrow> keys m \<noteq> [] \<Longrightarrow> k \<in> dom (get m) \<Longrightarrow> hd (keys m) \<le> k"
proof -
  assume inv: "invar m" and ne: "keys m \<noteq> []" and k: "k \<in> dom (get m)"
  from inv k have "k \<in> set (keys m)" by (simp only: keys_dom)
  with keys_sorted [OF inv] ne show ?thesis by (cases "keys m") auto
qed

lemma length_keys: "invar m \<Longrightarrow> length (keys m) = card (dom (get m))"
  by (metis distinct_card keys_dom keys_sorted strict_sorted_iff)

lemma keys_Nil_iff: "invar m \<Longrightarrow> keys m = [] \<longleftrightarrow> dom (get m) = {}"
  by (metis keys_dom set_empty)

lemma keys_eq: "invar m \<Longrightarrow> keys m = sorted_list_of_set (dom (get m))"
  by (metis keys_dom keys_sorted sorted_list_of_set.idem_if_sorted_distinct strict_sorted_iff)

lemma last_keys_greatest: "invar m \<Longrightarrow> k \<in> dom (get m) \<Longrightarrow> k \<le> last (keys m)"
  by (metis keys_dom keys_sorted strict_sorted_imp_sorted sorted_wrt.simps(1) all_not_in_conv
      set_empty in_set_conv_nth last_conv_nth sorted_nth_mono length_pos_if_in_set
      One_nat_def diff_less less_Suc_eq_le Suc_pred zero_less_one)

end

section \<open>Association lists sorted by key\<close>

definition bt_get :: "('k \<times> 'v) list \<Rightarrow> 'k \<Rightarrow> 'v option" where
  "bt_get m k = map_of m k"

fun bt_insert :: "'k::linorder \<Rightarrow> 'v \<Rightarrow> ('k \<times> 'v) list \<Rightarrow> ('k \<times> 'v) list" where
  "bt_insert k v [] = [(k, v)]"
| "bt_insert k v ((j, u) # m) =
     (if k < j then (k, v) # (j, u) # m
      else if k = j then (k, v) # m
      else (j, u) # bt_insert k v m)"

definition bt_retain :: "('k \<Rightarrow> bool) \<Rightarrow> ('k \<times> 'v) list \<Rightarrow> ('k \<times> 'v) list" where
  "bt_retain P m = filter (\<lambda>(k, _). P k) m"

definition bt_pop_first :: "('k \<times> 'v) list \<Rightarrow> ('k \<times> 'v) list" where
  "bt_pop_first m = tl m"

definition bt_keys :: "('k \<times> 'v) list \<Rightarrow> 'k list" where
  "bt_keys m = map fst m"

definition bt_invar :: "('k::linorder \<times> 'v) list \<Rightarrow> bool" where
  "bt_invar m = sorted_wrt (<) (map fst m)"

lemma bt_invar_Nil [simp]: "bt_invar []"
  by (simp add: bt_invar_def)

lemma bt_get_Nil [simp]: "bt_get [] = Map.empty"
  by (simp add: bt_get_def fun_eq_iff)

lemma length_bt_keys [simp]: "length (bt_keys m) = length m"
  by (simp add: bt_keys_def)

lemma bt_keys_Nil [simp]: "bt_keys m = [] \<longleftrightarrow> m = []"
  by (simp add: bt_keys_def)

lemma bt_keys_empty [simp]: "bt_keys [] = []"
  by (simp add: bt_keys_def)

lemma set_bt_insert: "set (map fst (bt_insert k v m)) = insert k (set (map fst m))"
  by (induction k v m rule: bt_insert.induct) auto

lemma bt_invar_insert [simp]: "bt_invar m \<Longrightarrow> bt_invar (bt_insert k v m)"
proof (induction k v m rule: bt_insert.induct)
  case (2 k v j u m)
  then have "\<forall>x\<in>set (map fst (bt_insert k v m)). j < x" if "j < k"
    using that by (simp only: set_bt_insert) (auto simp: bt_invar_def)
  with 2 show ?case by (auto simp: bt_invar_def)
qed (simp add: bt_invar_def)

lemma bt_get_insert [simp]: "bt_invar m \<Longrightarrow> bt_get (bt_insert k v m) = (bt_get m)(k \<mapsto> v)"
proof (induction k v m rule: bt_insert.induct)
  case (2 k v j u m)
  then show ?case
    by (auto simp: bt_get_def bt_invar_def fun_eq_iff dest: map_of_SomeD)
qed (simp add: bt_get_def fun_eq_iff)

lemma bt_invar_retain [simp]: "bt_invar m \<Longrightarrow> bt_invar (bt_retain P m)"
  by (induction m) (auto simp: bt_invar_def bt_retain_def)

lemma bt_get_retain [simp]: "bt_get (bt_retain P m) k = (if P k then bt_get m k else None)"
  by (induction m) (auto simp: bt_get_def bt_retain_def)

lemma dom_bt_get: "dom (bt_get m) = set (bt_keys m)"
  by (simp add: bt_keys_def bt_get_def [abs_def] dom_map_of_conv_image_fst)

lemma sorted_drop_mem:
  fixes ks :: "'a::linorder list"
  assumes "sorted_wrt (<) ks" and "k \<in> set ks"
  shows "k \<in> set (drop (length ks - m) ks) \<longleftrightarrow> card {j \<in> set ks. k < j} < m"
proof -
  from assms(2) obtain i where i: "i < length ks" "ks ! i = k" by (auto simp: in_set_conv_nth)
  have mono: "ks ! a < ks ! b \<longleftrightarrow> a < b" if "a < length ks" "b < length ks" for a b
  proof -
    have less: "a < b \<Longrightarrow> ks ! a < ks ! b" "b < a \<Longrightarrow> ks ! b < ks ! a"
      using that assms(1) by (auto intro: sorted_wrt_nth_less)
    show ?thesis using less by (cases a b rule: linorder_cases) auto
  qed
  have "{j \<in> set ks. k < j} = (!) ks ` {Suc i..<length ks}"
    using i mono by (fastforce simp: in_set_conv_nth image_iff)
  moreover have "inj_on ((!) ks) {Suc i..<length ks}"
    using assms(1) by (auto intro!: inj_on_nth simp: strict_sorted_iff)
  ultimately have card: "card {j \<in> set ks. k < j} = length ks - Suc i"
    by (simp add: card_image)
  have "k \<in> set (drop d ks) \<longleftrightarrow> d \<le> i" for d
  proof
    assume "k \<in> set (drop d ks)"
    then obtain a where "a < length ks - d" "ks ! (d + a) = k"
      by (auto simp: in_set_conv_nth)
    moreover have "distinct ks" using assms(1) by (simp add: strict_sorted_iff)
    ultimately have "d + a = i" using i nth_eq_iff_index_eq [of ks "d + a" i] by simp
    then show "d \<le> i" by simp
  next
    assume "d \<le> i"
    then have "drop d ks ! (i - d) = k" "i - d < length (drop d ks)" using i by auto
    then show "k \<in> set (drop d ks)" by (metis nth_mem)
  qed
  then have "k \<in> set (drop (length ks - m) ks) \<longleftrightarrow> length ks - m \<le> i" .
  also have "\<dots> \<longleftrightarrow> length ks - Suc i < m" using i(1) by arith
  finally show ?thesis by (simp only: card)
qed

interpretation bt: ordered_map bt_get bt_insert bt_retain bt_pop_first bt_keys bt_invar
proof
  fix m :: "('a::linorder \<times> 'b) list"
  assume inv: "bt_invar m"
  show "set (bt_keys m) = dom (bt_get m)"
    by (rule dom_bt_get [symmetric])
  show "sorted_wrt (<) (bt_keys m)"
    using inv by (simp add: bt_keys_def bt_invar_def)
  assume "bt_keys m \<noteq> []"
  with inv show "bt_get (bt_pop_first m) = (bt_get m)(hd (bt_keys m) := None)"
    and "bt_invar (bt_pop_first m)"
    by (cases m; force simp: bt_keys_def bt_get_def bt_pop_first_def bt_invar_def fun_eq_iff
        map_of_eq_None_iff)+
qed simp_all

end
