(* ===== verification/Reorg_Window.thy ===== *)
theory Reorg_Window
  imports Ordered_Map
begin

text \<open>
  \<open>core/src/indexer/reorg/window.rs\<close>: the rolling window of recent block hashes the reorg detector
  compares new blocks against. A window maps a block number to the pair (block hash, parent hash)
  and holds at most \<open>max_window_size\<close> entries after every \<open>insert\<close>.
\<close>

section \<open>State and operations\<close>

record block_chain_window =
  entries :: "(u64 \<times> (b256 \<times> b256)) list"
  max_window_size :: nat

datatype parent_validation = Valid | Mismatch (pv_expected: b256) (pv_got: b256) | NoPreviousBlock

definition wnd_try_new :: "nat \<Rightarrow> string + block_chain_window" where
  "wnd_try_new n =
     (if 0 < n then Inr \<lparr>entries = [], max_window_size = n\<rparr> else Inl ''window_size must be > 0'')"

function prune_entries :: "nat \<Rightarrow> ('k \<times> 'v) list \<Rightarrow> ('k \<times> 'v) list" where
  "prune_entries n m = (if n < length m then prune_entries n (bt_pop_first m) else m)"
  by pat_completeness auto
termination
  by (relation "measure (\<lambda>(n, m). length m)") (auto simp: bt_pop_first_def)

declare prune_entries.simps [simp del]

definition wnd_prune :: "block_chain_window \<Rightarrow> block_chain_window" where
  "wnd_prune w = w\<lparr>entries := prune_entries (max_window_size w) (entries w)\<rparr>"

definition wnd_insert :: "block_chain_window \<Rightarrow> u64 \<Rightarrow> b256 \<Rightarrow> b256 \<Rightarrow> block_chain_window" where
  "wnd_insert w n h p = wnd_prune (w\<lparr>entries := bt_insert n (h, p) (entries w)\<rparr>)"

definition wnd_get :: "block_chain_window \<Rightarrow> u64 \<Rightarrow> (b256 \<times> b256) option" where
  "wnd_get w n = bt_get (entries w) n"

definition wnd_len :: "block_chain_window \<Rightarrow> nat" where
  "wnd_len w = length (entries w)"

definition wnd_is_empty :: "block_chain_window \<Rightarrow> bool" where
  "wnd_is_empty w = (entries w = [])"

definition wnd_validate_parent :: "block_chain_window \<Rightarrow> u64 \<Rightarrow> b256 \<Rightarrow> parent_validation" where
  "wnd_validate_parent w n parent =
     (case checked_sub n 1 of
        None \<Rightarrow> NoPreviousBlock
      | Some prev \<Rightarrow>
          (case bt_get (entries w) prev of
             None \<Rightarrow> NoPreviousBlock
           | Some (stored_hash, _) \<Rightarrow>
               if stored_hash = parent then Valid else Mismatch stored_hash parent))"

fun fork_scan :: "(u64 \<times> (b256 \<times> b256)) list \<Rightarrow> (u64 \<times> b256) list \<Rightarrow> u64 option" where
  "fork_scan m [] = None"
| "fork_scan m ((n, canonical_hash) # rest) =
     (case bt_get m n of
        Some (stored_hash, _) \<Rightarrow>
          if stored_hash = canonical_hash then Some n else fork_scan m rest
      | None \<Rightarrow> fork_scan m rest)"

definition wnd_find_fork_point :: "block_chain_window \<Rightarrow> (u64 \<times> b256) list \<Rightarrow> u64 option" where
  "wnd_find_fork_point w canonical = fork_scan (entries w) (rev canonical)"

fun insert_all :: "(u64 \<times> b256 \<times> b256) list \<Rightarrow> (u64 \<times> (b256 \<times> b256)) list \<Rightarrow> (u64 \<times> (b256 \<times> b256)) list" where
  "insert_all [] m = m"
| "insert_all ((n, h, p) # bs) m = insert_all bs (bt_insert n (h, p) m)"

definition wnd_update_range :: "block_chain_window \<Rightarrow> (u64 \<times> b256 \<times> b256) list \<Rightarrow> block_chain_window" where
  "wnd_update_range w blocks = w\<lparr>entries := insert_all blocks (entries w)\<rparr>"

definition wnd_remove_from :: "block_chain_window \<Rightarrow> u64 \<Rightarrow> block_chain_window" where
  "wnd_remove_from w from = w\<lparr>entries := bt_retain (\<lambda>n. n < from) (entries w)\<rparr>"

definition wnd_block_numbers_from :: "block_chain_window \<Rightarrow> u64 \<Rightarrow> u64 list" where
  "wnd_block_numbers_from w from = filter (\<lambda>n. from \<le> n) (bt_keys (entries w))"

definition wnd_block_numbers :: "block_chain_window \<Rightarrow> u64 list" where
  "wnd_block_numbers w = bt_keys (entries w)"

definition wnd_oldest_block :: "block_chain_window \<Rightarrow> u64 option" where
  "wnd_oldest_block w = (case bt_keys (entries w) of [] \<Rightarrow> None | n # _ \<Rightarrow> Some n)"

definition wnd_latest_block :: "block_chain_window \<Rightarrow> u64 option" where
  "wnd_latest_block w = (case rev (bt_keys (entries w)) of [] \<Rightarrow> None | n # _ \<Rightarrow> Some n)"

section \<open>Well-formed windows\<close>

definition wnd_sorted :: "block_chain_window \<Rightarrow> bool" where
  "wnd_sorted w = (bt_invar (entries w) \<and> 0 < max_window_size w)"

definition wnd_ok :: "block_chain_window \<Rightarrow> bool" where
  "wnd_ok w = (wnd_sorted w \<and> wnd_len w \<le> max_window_size w)"

lemma prune_entries_drop: "prune_entries n m = drop (length m - n) m"
proof (induction n m rule: prune_entries.induct)
  case (1 n m)
  show ?case
  proof (cases "n < length m")
    case True
    with 1 show ?thesis
      by (subst prune_entries.simps) (cases m, auto simp: bt_pop_first_def Suc_diff_le)
  qed (subst prune_entries.simps, simp)
qed

lemma bt_invar_drop: "bt_invar m \<Longrightarrow> bt_invar (drop k m)"
  by (metis append_take_drop_id bt_invar_def map_append sorted_wrt_append)

lemma bt_get_drop:
  assumes "bt_invar m"
  shows "bt_get (drop k m) j = (if j \<in> set (drop k (bt_keys m)) then bt_get m j else None)"
proof -
  have m: "m = take k m @ drop k m" by simp
  have inv: "sorted_wrt (<) (map fst (take k m) @ map fst (drop k m))"
    using assms by (metis append_take_drop_id bt_invar_def map_append)
  have "bt_get m j = (case bt_get (drop k m) j of None \<Rightarrow> bt_get (take k m) j | Some v \<Rightarrow> Some v)"
    if "j \<in> fst ` set (drop k m)"
  proof -
    from that inv have "j \<notin> fst ` set (take k m)"
      by (force simp: sorted_wrt_append)
    then have "map_of (take k m) j = None" by (simp add: map_of_eq_None_iff)
    moreover have "map_of m j = map_of (take k m @ drop k m) j" by simp
    ultimately show ?thesis
      by (simp only: bt_get_def map_of_append map_add_def) (simp split: option.split)
  qed
  moreover have "bt_get (drop k m) j = None \<longleftrightarrow> j \<notin> fst ` set (drop k m)"
    by (simp add: bt_get_def map_of_eq_None_iff)
  ultimately show ?thesis
    by (auto simp: bt_keys_def drop_map split: option.splits)
qed

lemma entries_insert:
  "entries (wnd_insert w n h p) =
     drop (length (bt_insert n (h, p) (entries w)) - max_window_size w) (bt_insert n (h, p) (entries w))"
  by (simp add: wnd_insert_def wnd_prune_def prune_entries_drop)

lemma max_window_size_ops [simp]:
  "max_window_size (wnd_insert w n h p) = max_window_size w"
  "max_window_size (wnd_update_range w bs) = max_window_size w"
  "max_window_size (wnd_remove_from w k) = max_window_size w"
  by (simp_all add: wnd_insert_def wnd_prune_def wnd_update_range_def wnd_remove_from_def)

lemma wnd_try_new_ok: "wnd_try_new n = Inr w \<Longrightarrow> wnd_ok w"
  by (auto simp: wnd_try_new_def wnd_ok_def wnd_sorted_def wnd_len_def split: if_splits)

lemma wnd_insert_ok: "wnd_sorted w \<Longrightarrow> wnd_ok (wnd_insert w n h p)"
  by (simp add: wnd_ok_def wnd_sorted_def wnd_len_def entries_insert bt_invar_drop)

lemma wnd_remove_from_sorted: "wnd_sorted w \<Longrightarrow> wnd_sorted (wnd_remove_from w k)"
  by (simp add: wnd_sorted_def wnd_remove_from_def)

lemma wnd_remove_from_ok: "wnd_ok w \<Longrightarrow> wnd_ok (wnd_remove_from w k)"
  using wnd_remove_from_sorted [of w k] order_trans [OF length_filter_le]
  by (auto simp: wnd_ok_def wnd_len_def wnd_remove_from_def bt_retain_def)

lemma insert_all_invar: "bt_invar m \<Longrightarrow> bt_invar (insert_all bs m)"
  by (induction bs m rule: insert_all.induct) auto

lemma wnd_update_range_sorted: "wnd_sorted w \<Longrightarrow> wnd_sorted (wnd_update_range w bs)"
  by (simp add: wnd_sorted_def wnd_update_range_def insert_all_invar)

lemma wnd_ok_sorted: "wnd_ok w \<Longrightarrow> wnd_sorted w"
  by (simp add: wnd_ok_def)

lemmas wnd_invariants [intro] =
  wnd_insert_ok wnd_remove_from_sorted wnd_remove_from_ok wnd_update_range_sorted wnd_ok_sorted

section \<open>What the operations compute\<close>

lemma wnd_get_remove_from: "wnd_get (wnd_remove_from w k) n = (if n < k then wnd_get w n else None)"
  by (simp add: wnd_get_def wnd_remove_from_def)

lemma wnd_get_update_range_other:
  "wnd_sorted w \<Longrightarrow> n \<notin> fst ` set bs \<Longrightarrow> wnd_get (wnd_update_range w bs) n = wnd_get w n"
proof -
  have "bt_invar m \<Longrightarrow> n \<notin> fst ` set bs \<Longrightarrow> bt_get (insert_all bs m) n = bt_get m n" for m
    by (induction bs m rule: insert_all.induct) auto
  then show "wnd_sorted w \<Longrightarrow> n \<notin> fst ` set bs \<Longrightarrow> ?thesis"
    by (simp add: wnd_get_def wnd_update_range_def wnd_sorted_def)
qed

lemma insert_all_get:
  "bt_invar m \<Longrightarrow> distinct (map fst bs) \<Longrightarrow> (n, h, p) \<in> set bs \<Longrightarrow>
     bt_get (insert_all bs m) n = Some (h, p)"
proof (induction bs m rule: insert_all.induct)
  case (2 n' h' p' bs m)
  have keep: "bt_invar m' \<Longrightarrow> n \<notin> fst ` set bs \<Longrightarrow> bt_get (insert_all bs m') n = bt_get m' n" for m'
    by (induction bs m' rule: insert_all.induct) auto
  show ?case
  proof (cases "(n, h, p) \<in> set bs")
    case True
    with 2 show ?thesis by simp
  next
    case False
    with 2 have "n' = n" "h' = h" "p' = p" "n \<notin> fst ` set bs" by auto
    with keep [of "bt_insert n (h, p) m"] 2(2) show ?thesis by simp
  qed
qed simp

lemma wnd_get_update_range:
  "wnd_sorted w \<Longrightarrow> distinct (map fst bs) \<Longrightarrow> (n, h, p) \<in> set bs \<Longrightarrow>
     wnd_get (wnd_update_range w bs) n = Some (h, p)"
  by (simp add: wnd_get_def wnd_update_range_def wnd_sorted_def insert_all_get)

lemma set_block_numbers: "set (wnd_block_numbers w) = dom (wnd_get w)"
  by (simp add: wnd_block_numbers_def wnd_get_def [abs_def] dom_bt_get)

lemma wnd_is_empty_iff: "wnd_is_empty w \<longleftrightarrow> wnd_block_numbers w = []"
  by (simp add: wnd_is_empty_def wnd_block_numbers_def bt_keys_def)

lemma wnd_latest_block_eq:
  "wnd_latest_block w = (if wnd_block_numbers w = [] then None else Some (last (wnd_block_numbers w)))"
  unfolding wnd_latest_block_def wnd_block_numbers_def
  by (cases "bt_keys (entries w)" rule: rev_cases) simp_all

lemma wnd_oldest_block_eq:
  "wnd_oldest_block w = (if wnd_block_numbers w = [] then None else Some (hd (wnd_block_numbers w)))"
  by (simp add: wnd_oldest_block_def wnd_block_numbers_def bt_keys_def split: list.splits)

lemma wnd_latest_greatest:
  "wnd_sorted w \<Longrightarrow> wnd_latest_block w = Some b \<Longrightarrow> wnd_get w b \<noteq> None \<and> (\<forall>n\<in>dom (wnd_get w). n \<le> b)"
proof -
  assume w: "wnd_sorted w" and b: "wnd_latest_block w = Some b"
  from w have inv: "bt_invar (entries w)" by (simp add: wnd_sorted_def)
  from b have ne: "wnd_block_numbers w \<noteq> []" and bl: "b = last (wnd_block_numbers w)"
    by (auto simp: wnd_latest_block_eq split: if_splits)
  then have "b \<in> dom (wnd_get w)" using set_block_numbers [of w] by (metis last_in_set)
  then show ?thesis
    using bt.last_keys_greatest [OF inv] bl
    by (auto simp: wnd_get_def [abs_def] wnd_block_numbers_def)
qed

lemma wnd_oldest_least:
  assumes "wnd_sorted w" and "wnd_oldest_block w = Some b"
  shows "wnd_get w b \<noteq> None \<and> (\<forall>n\<in>dom (wnd_get w). b \<le> n)"
proof -
  have ne: "wnd_block_numbers w \<noteq> []" and b: "b = hd (wnd_block_numbers w)"
    using assms(2) by (auto simp: wnd_oldest_block_eq split: if_splits)
  then have "b \<in> dom (wnd_get w)" by (simp flip: set_block_numbers)
  moreover have "\<forall>n\<in>dom (wnd_get w). b \<le> n"
    using assms(1) ne bt.hd_keys_least [of "entries w"]
    by (auto simp: b wnd_block_numbers_def wnd_sorted_def wnd_get_def [abs_def])
  ultimately show ?thesis by auto
qed

lemma wnd_insert_get_Some:
  "wnd_sorted w \<Longrightarrow> wnd_get (wnd_insert w n h p) k = Some v \<Longrightarrow>
     (if k = n then v = (h, p) else wnd_get w k = Some v)"
  by (auto simp: wnd_sorted_def wnd_get_def entries_insert bt_get_drop split: if_splits)

lemma wnd_get_insert:
  assumes "wnd_sorted w"
  shows "wnd_get (wnd_insert w n h p) k =
      (if card {j \<in> insert n (dom (wnd_get w)). k < j} < max_window_size w
       then ((wnd_get w)(n \<mapsto> (h, p))) k else None)"
proof -
  let ?m = "bt_insert n (h, p) (entries w)"
  have inv: "bt_invar (entries w)" "bt_invar ?m" using assms by (simp_all add: wnd_sorted_def)
  have upd: "bt_get ?m = (wnd_get w)(n \<mapsto> (h, p))"
    using inv by (simp add: wnd_get_def [abs_def])
  have keys: "set (bt_keys ?m) = insert n (dom (wnd_get w))"
    using dom_bt_get [of ?m] upd by simp
  have sorted: "sorted_wrt (<) (bt_keys ?m)" using inv(2) by (rule bt.keys_sorted)
  have drop: "wnd_get (wnd_insert w n h p) k =
      (if k \<in> set (drop (length ?m - max_window_size w) (bt_keys ?m)) then bt_get ?m k else None)"
    by (simp add: wnd_get_def entries_insert bt_get_drop [OF inv(2)])
  show ?thesis
  proof (cases "k \<in> set (bt_keys ?m)")
    case True
    from sorted_drop_mem [OF sorted True, of "max_window_size w"]
    show ?thesis by (simp add: drop upd [symmetric] keys [symmetric])
  next
    case False
    then have "bt_get ?m k = None" using dom_bt_get [of ?m] by auto
    then show ?thesis by (simp add: drop upd [symmetric])
  qed
qed

lemma wnd_get_insert_same:
  assumes "wnd_ok w" and "wnd_get w n \<noteq> None"
  shows "wnd_get (wnd_insert w n h p) n = Some (h, p)"
proof -
  have sorted: "wnd_sorted w" using assms(1) by (rule wnd_ok_sorted)
  have size: "card (dom (wnd_get w)) \<le> max_window_size w"
    using assms(1) sorted bt.length_keys [of "entries w"] unfolding wnd_get_def [abs_def]
    by (simp add: wnd_ok_def wnd_sorted_def wnd_len_def)
  have "{j \<in> insert n (dom (wnd_get w)). n < j} \<subset> dom (wnd_get w)"
    using assms(2) by auto
  moreover have "finite (dom (wnd_get w))" by (simp flip: set_block_numbers)
  ultimately have "card {j \<in> insert n (dom (wnd_get w)). n < j} < card (dom (wnd_get w))"
    by (rule psubset_card_mono [rotated])
  with size wnd_get_insert [OF sorted] show ?thesis by simp
qed

section \<open>Properties\<close>

text \<open>C36: Inserting a block into a window whose entries are sorted leaves a well-formed window, and
  the result holds exactly the newest \<open>max_window_size\<close> of the old blocks and the new one: a block
  number is looked up as in the updated map when fewer than \<open>max_window_size\<close> known blocks are
  above it, and is gone otherwise.\<close>

theorem wnd_insert_keeps_newest:
  assumes "wnd_sorted w"
  shows "wnd_ok (wnd_insert w n h p) \<and>
    wnd_get (wnd_insert w n h p) k =
      (if card {j \<in> insert n (dom (wnd_get w)). k < j} < max_window_size w
       then ((wnd_get w)(n \<mapsto> (h, p))) k else None)"
  using assms by (auto intro: wnd_insert_ok simp: wnd_get_insert)

definition sample_window :: block_chain_window where
  "sample_window = \<lparr>entries = [(10, (100, 90)), (11, (110, 100))], max_window_size = 2\<rparr>"

theorem wnd_insert_keeps_newest_witness:
  "wnd_ok (wnd_insert sample_window 12 120 110) \<and>
   wnd_get (wnd_insert sample_window 12 120 110) 12 = Some (120, 110) \<and>
   wnd_get (wnd_insert sample_window 12 120 110) 10 = None"
proof -
  have "wnd_sorted sample_window"
    by (simp add: wnd_sorted_def sample_window_def bt_invar_def)
  from wnd_insert_keeps_newest [OF this, of 12 120 110]
  show ?thesis
    by (simp add: wnd_get_def wnd_insert_def wnd_prune_def sample_window_def prune_entries_drop bt_get_def)
qed

definition fork_match :: "block_chain_window \<Rightarrow> (u64 \<times> b256) list \<Rightarrow> u64 \<Rightarrow> bool" where
  "fork_match w canonical b = (\<exists>h p. (b, h) \<in> set canonical \<and> wnd_get w b = Some (h, p))"

lemma fork_scan_SomeD:
  "fork_scan m cs = Some b \<Longrightarrow>
     \<exists>us h vs p. cs = us @ (b, h) # vs \<and> bt_get m b = Some (h, p) \<and>
       (\<forall>(b', h')\<in>set us. \<forall>p'. bt_get m b' \<noteq> Some (h', p'))"
proof (induction m cs rule: fork_scan.induct)
  case (2 m n c rest)
  show ?case
  proof (cases "\<exists>p. bt_get m n = Some (c, p)")
    case True
    with 2(3) show ?thesis by (intro exI [of _ "[]"]) auto
  next
    case False
    then have skip: "fork_scan m ((n, c) # rest) = fork_scan m rest"
      by (auto split: option.splits prod.splits)
    have "\<exists>us h vs p. rest = us @ (b, h) # vs \<and> bt_get m b = Some (h, p) \<and>
       (\<forall>(b', h')\<in>set us. \<forall>p'. bt_get m b' \<noteq> Some (h', p'))"
      using 2 False skip by (cases "bt_get m n") auto
    then obtain us h vs p where "rest = us @ (b, h) # vs" "bt_get m b = Some (h, p)"
      "\<forall>(b', h')\<in>set us. \<forall>p'. bt_get m b' \<noteq> Some (h', p')" by blast
    with False show ?thesis by (intro exI [of _ "(n, c) # us"]) auto
  qed
qed simp

lemma fork_scan_None: "fork_scan m cs = None \<longleftrightarrow> (\<forall>(b, h)\<in>set cs. \<forall>p. bt_get m b \<noteq> Some (h, p))"
proof (induction m cs rule: fork_scan.induct)
  case (2 m n c rest)
  show ?case
  proof (cases "bt_get m n")
    case (Some hp)
    then show ?thesis using "2.IH"(2) [OF Some, of "fst hp" "snd hp"] by (cases hp) auto
  qed (use "2.IH"(1) in auto)
qed simp

lemma wnd_find_fork_point_None:
  "wnd_find_fork_point w canonical = None \<longleftrightarrow> (\<forall>b. \<not> fork_match w canonical b)"
  by (auto simp: wnd_find_fork_point_def fork_scan_None fork_match_def wnd_get_def)

lemma wnd_find_fork_point_Some:
  assumes "sorted_wrt (<) (map fst canonical)" and "wnd_find_fork_point w canonical = Some b"
  shows "fork_match w canonical b" and "fork_match w canonical b' \<Longrightarrow> b' \<le> b"
proof -
  from fork_scan_SomeD assms(2) obtain us h vs p
    where cs: "rev canonical = us @ (b, h) # vs" and b: "wnd_get w b = Some (h, p)"
      and us: "\<forall>(b', h')\<in>set us. \<forall>p'. wnd_get w b' \<noteq> Some (h', p')"
    unfolding wnd_find_fork_point_def wnd_get_def by blast
  have c: "canonical = rev vs @ (b, h) # rev us" using cs by (simp add: rev_swap)
  with b show "fork_match w canonical b" by (auto simp: fork_match_def)
  assume "fork_match w canonical b'"
  then obtain h' p' where "(b', h') \<in> set canonical" and b': "wnd_get w b' = Some (h', p')"
    by (auto simp: fork_match_def)
  moreover have "(b', h') \<notin> set us" using us b' by auto
  ultimately have "(b', h') \<in> set vs \<or> b' = b" using c by auto
  with assms(1) show "b' \<le> b" unfolding c by (auto simp: sorted_wrt_append intro: less_imp_le)
qed

text \<open>Against a canonical chain given in ascending order, the fork search returns the highest
  block number whose stored hash agrees with the canonical one, and returns nothing only when no
  stored hash agrees.\<close>

theorem fork_point_is_highest_match:
  assumes "sorted_wrt (<) (map fst canonical)"
  shows "(wnd_find_fork_point w canonical = Some b \<longleftrightarrow>
      fork_match w canonical b \<and> (\<forall>b'. fork_match w canonical b' \<longrightarrow> b' \<le> b)) \<and>
    (wnd_find_fork_point w canonical = None \<longleftrightarrow> (\<forall>b. \<not> fork_match w canonical b))"
proof
  show "wnd_find_fork_point w canonical = Some b \<longleftrightarrow>
      fork_match w canonical b \<and> (\<forall>b'. fork_match w canonical b' \<longrightarrow> b' \<le> b)"
  proof
    assume "wnd_find_fork_point w canonical = Some b"
    with wnd_find_fork_point_Some [OF assms]
    show "fork_match w canonical b \<and> (\<forall>b'. fork_match w canonical b' \<longrightarrow> b' \<le> b)" by blast
  next
    assume b: "fork_match w canonical b \<and> (\<forall>b'. fork_match w canonical b' \<longrightarrow> b' \<le> b)"
    then obtain c where c: "wnd_find_fork_point w canonical = Some c"
      using wnd_find_fork_point_None by (metis option.exhaust)
    with wnd_find_fork_point_Some [OF assms c] b have "c = b" by (meson antisym)
    with c show "wnd_find_fork_point w canonical = Some b" by simp
  qed
qed (rule wnd_find_fork_point_None)

theorem fork_point_is_highest_match_witness:
  "wnd_find_fork_point sample_window [(10, 100), (11, 999)] = Some 10 \<and>
   fork_match sample_window [(10, 100), (11, 999)] 10"
proof -
  have s: "sorted_wrt (<) (map fst [(10 :: u64, 100 :: b256), (11, 999)])" by simp
  have f: "wnd_find_fork_point sample_window [(10, 100), (11, 999)] = Some 10"
    by (simp add: wnd_find_fork_point_def sample_window_def bt_get_def)
  with fork_point_is_highest_match [OF s, of sample_window 10] show ?thesis by simp
qed

end
