(* ===== verification/Reorg_Sql.thy ===== *)
theory Reorg_Sql
  imports Prelude
begin

text \<open>
  The helpers of \<open>core/src/indexer/reorg/mod.rs\<close> and the manifest types they read
  (\<open>SetAction\<close>, \<open>ReorgSafeDistance\<close> of \<open>core/src/manifest/contract.rs\<close>): the checks that make user
  text safe to put into SQL, identifier quoting for the two databases
  (\<open>core/src/indexer/reorg/task.rs\<close>), the safe distance of a chain and of a network, and the
  translation of node notifications. An \<open>anyhow::Error\<close> is the list of its messages, the
  outermost context first.
\<close>

type_synonym anyhow = "string list"

section \<open>Text that may enter SQL\<close>

definition ensure :: "bool \<Rightarrow> string \<Rightarrow> anyhow + unit" where
  "ensure c msg = (if c then Inr () else Inl [msg])"

fun first_error :: "('e + unit) list \<Rightarrow> 'e + unit" where
  "first_error [] = Inr ()"
| "first_error (Inl e # rs) = Inl e"
| "first_error (Inr u # rs) = first_error rs"

definition identifier_start :: "char \<Rightarrow> bool" where
  "identifier_start c = (is_ascii_alphabetic c \<or> c = CHR ''_'')"

definition identifier_char :: "char \<Rightarrow> bool" where
  "identifier_char c = (is_ascii_alphanumeric c \<or> c = CHR ''_'')"

fun validate_sql_identifier :: "string \<Rightarrow> string \<Rightarrow> anyhow + unit" where
  "validate_sql_identifier [] kind = Inl [kind @ '' must not be empty'']"
| "validate_sql_identifier (first # rest) kind =
     first_error
       [ensure (identifier_start first)
          (kind @ '' '' @ [CHR 0x27] @ (first # rest) @ [CHR 0x27] @
           '' must start with a letter or underscore''),
        ensure (\<forall>b\<in>set (first # rest). identifier_char b)
          (kind @ '' '' @ [CHR 0x27] @ (first # rest) @ [CHR 0x27] @
           '' contains invalid characters (only alphanumeric and underscore allowed)'')]"

definition forbidden_patterns :: "string list" where
  "forbidden_patterns = [''--'', ''/*'', ''*/'', '';'', [CHR 0x27], [CHR 0x22]]"

definition forbidden_keywords :: "string list" where
  "forbidden_keywords =
     [''UNION'', ''DROP'', ''DELETE'', ''INSERT'', ''UPDATE'', ''ALTER'', ''EXEC'', ''SLEEP'']"

definition validate_sql_condition :: "string \<Rightarrow> anyhow + unit" where
  "validate_sql_condition condition =
     first_error
       (ensure (condition \<noteq> []) ''SQL condition must not be empty'' #
        map (\<lambda>p. ensure (\<not> str_contains p condition)
               (''SQL condition contains forbidden pattern '' @ [CHR 0x27] @ p @ [CHR 0x27] @ '': '' @ condition))
          forbidden_patterns @
        map (\<lambda>k. ensure (\<not> str_contains k (map to_ascii_uppercase condition))
               (''SQL condition contains forbidden keyword '' @ [CHR 0x27] @ k @ [CHR 0x27] @ '': '' @ condition))
          forbidden_keywords)"

definition sql_value_char :: "char \<Rightarrow> bool" where
  "sql_value_char c = (is_ascii_alphanumeric c \<or> c = CHR ''_'' \<or> c = CHR ''-'')"

definition validate_sql_value :: "string \<Rightarrow> string \<Rightarrow> anyhow + unit" where
  "validate_sql_value val kind =
     first_error
       [ensure (val \<noteq> []) (kind @ '' must not be empty''),
        ensure (\<forall>b\<in>set val. sql_value_char b)
          (kind @ '' '' @ [CHR 0x27] @ val @ [CHR 0x27] @
           '' contains invalid characters (only alphanumeric, underscore, and hyphen allowed)'')]"

definition quote_pg_ident :: "string \<Rightarrow> string" where
  "quote_pg_ident name = [CHR 0x22] @ replace_char (CHR 0x22) [CHR 0x22, CHR 0x22] name @ [CHR 0x22]"

definition quote_ch_ident :: "string \<Rightarrow> string" where
  "quote_ch_ident name = [CHR 0x60] @ replace_char (CHR 0x60) [CHR 0x5C, CHR 0x60] name @ [CHR 0x60]"

section \<open>Actions of derived columns\<close>

datatype set_action = Set_Act | Add | Subtract | Max_Act | Min_Act | Increment | Decrement

definition is_counter_action :: "set_action \<Rightarrow> bool" where
  "is_counter_action a = (a = Increment \<or> a = Decrement)"

fun action_reverse :: "set_action \<Rightarrow> set_action option" where
  "action_reverse Add = Some Subtract"
| "action_reverse Subtract = Some Add"
| "action_reverse Increment = Some Decrement"
| "action_reverse Decrement = Some Increment"
| "action_reverse Set_Act = None"
| "action_reverse Max_Act = None"
| "action_reverse Min_Act = None"

section \<open>Safe distances\<close>

datatype reorg_safe_distance = Enabled bool | Custom u64

definition reorg_safe_distance_for_chain :: "u64 \<Rightarrow> u64" where
  "reorg_safe_distance_for_chain chain_id =
     (if chain_id = 1 then 20
      else if chain_id = 137 then 200
      else if chain_id = 42161 then 24
      else if chain_id = 10 then 24
      else if chain_id = 8453 then 24
      else if chain_id = 56 then 24
      else if chain_id = 43114 then 12
      else if chain_id = 100 then 24
      else 64)"

fun rsd_resolve :: "reorg_safe_distance \<Rightarrow> u64 \<Rightarrow> u64 option" where
  "rsd_resolve (Enabled True) chain_id = Some (reorg_safe_distance_for_chain chain_id)"
| "rsd_resolve (Custom blocks) chain_id = Some blocks"
| "rsd_resolve (Enabled False) chain_id = None"

text \<open>The parts of the manifest the distance of a network depends on: for every contract of
  \<open>Manifest::all_contracts\<close> its networks and setting, the native-transfer section, and the names of
  the configured networks.\<close>

record contract_cfg =
  cc_networks :: "string list"
  cc_reorg_safe_distance :: "reorg_safe_distance option"

record native_transfers_cfg =
  nt_enabled :: bool
  nt_networks :: "string list option"
  nt_reorg_safe_distance :: "reorg_safe_distance option"

record manifest_cfg =
  mf_all_contracts :: "contract_cfg list"
  mf_native_transfers :: native_transfers_cfg
  mf_networks :: "string list"

definition resolve_or :: "u64 \<Rightarrow> u64 \<Rightarrow> reorg_safe_distance option \<Rightarrow> u64" where
  "resolve_or chain_default chain_id rsd =
     (case Option.bind rsd (\<lambda>r. rsd_resolve r chain_id) of None \<Rightarrow> chain_default | Some d \<Rightarrow> d)"

definition observed_distances :: "manifest_cfg \<Rightarrow> string \<Rightarrow> u64 \<Rightarrow> u64 list" where
  "observed_distances m network chain_id =
     (let chain_default = reorg_safe_distance_for_chain chain_id;
          nt = mf_native_transfers m;
          touches = (case nt_networks nt of
                       Some nets \<Rightarrow> network \<in> set nets
                     | None \<Rightarrow> network \<in> set (mf_networks m))
      in map (\<lambda>c. resolve_or chain_default chain_id (cc_reorg_safe_distance c))
           (filter (\<lambda>c. network \<in> set (cc_networks c)) (mf_all_contracts m)) @
         (if nt_enabled nt \<and> touches
          then [resolve_or chain_default chain_id (nt_reorg_safe_distance nt)] else []))"

definition finalized_buffer_distance_for_network :: "manifest_cfg \<Rightarrow> string \<Rightarrow> u64 \<Rightarrow> u64" where
  "finalized_buffer_distance_for_network m network chain_id =
     (case observed_distances m network chain_id of
        [] \<Rightarrow> reorg_safe_distance_for_chain chain_id
      | d # ds \<Rightarrow> fold max ds d)"

section \<open>Notifications of an embedded node\<close>

datatype chain_state_notification =
    Committed (from_block: u64) (to_block: u64) (tip_hash: b256)
  | Reorged (revert_from_block: u64) (revert_to_block: u64)
      (new_from_block: u64) (new_to_block: u64) (new_tip_hash: b256)
  | Reverted (from_block: u64) (to_block: u64)

record reorg_info =
  ri_fork_block :: u64
  ri_depth :: u64
  ri_affected_tx_hashes :: "b256 list"

fun handle_chain_notification :: "chain_state_notification \<Rightarrow> reorg_info option" where
  "handle_chain_notification (Reorged revert_from revert_to new_from new_to tip) =
     Some \<lparr>ri_fork_block = revert_from, ri_depth = saturating_sub revert_to revert_from + 1,
           ri_affected_tx_hashes = []\<rparr>"
| "handle_chain_notification (Reverted from to) =
     Some \<lparr>ri_fork_block = from, ri_depth = saturating_sub to from + 1, ri_affected_tx_hashes = []\<rparr>"
| "handle_chain_notification (Committed from to tip) = None"

section \<open>What the checks admit\<close>

lemma first_error_Inr: "first_error rs = Inr u \<longleftrightarrow> (\<forall>r\<in>set rs. \<exists>v. r = Inr v)"
  by (induction rs rule: first_error.induct) auto

lemma ensure_Inr [simp]: "ensure c msg = Inr u \<longleftrightarrow> c"
  by (simp add: ensure_def)

lemma validate_sql_identifier_Inr:
  "validate_sql_identifier name kind = Inr u \<longleftrightarrow>
     name \<noteq> [] \<and> identifier_start (hd name) \<and> (\<forall>c\<in>set name. identifier_char c)"
  by (cases name) (simp_all add: first_error_Inr)

lemma validate_sql_value_Inr:
  "validate_sql_value v kind = Inr u \<longleftrightarrow> v \<noteq> [] \<and> (\<forall>c\<in>set v. sql_value_char c)"
  by (auto simp: validate_sql_value_def first_error_Inr)

lemma validate_sql_condition_Inr:
  "validate_sql_condition s = Inr u \<longleftrightarrow>
     s \<noteq> [] \<and> (\<forall>p\<in>set forbidden_patterns. \<not> str_contains p s) \<and>
     (\<forall>k\<in>set forbidden_keywords. \<not> str_contains k (map to_ascii_uppercase s))"
  unfolding validate_sql_condition_def by (simp add: first_error_Inr ball_Un)

lemma special_not_identifier [simp]:
  "\<not> identifier_char (CHR 0x22)" "\<not> identifier_char (CHR 0x27)" "\<not> identifier_char (CHR 0x60)"
  "\<not> identifier_char (CHR 0x5C)" "\<not> identifier_char (CHR '';'')" "\<not> identifier_char (CHR ''-'')"
  "\<not> identifier_char (CHR '' '')" "\<not> identifier_char (CHR ''.'')"
  by (simp_all add: identifier_char_def is_ascii_alphanumeric_def is_ascii_alphabetic_def
      is_ascii_digit_def char_in_def)

lemma special_not_value [simp]:
  "\<not> sql_value_char (CHR 0x27)" "\<not> sql_value_char (CHR 0x5C)" "\<not> sql_value_char (CHR '';'')"
  "\<not> sql_value_char (CHR '' '')"
  by (simp_all add: sql_value_char_def is_ascii_alphanumeric_def is_ascii_alphabetic_def
      is_ascii_digit_def char_in_def)

section \<open>Reading quoted identifiers back\<close>

text \<open>How the databases read a quoted identifier at the start of a statement's text. PostgreSQL
  ends it at the first double quote that is not doubled. ClickHouse ends it at the first backtick
  that is not escaped by a backslash, and a backslash escapes the character after it (here: itself
  and the backtick).\<close>

fun read_pg_body :: "string \<Rightarrow> (string \<times> string) option" where
  "read_pg_body [] = None"
| "read_pg_body (c # s) =
     (if c \<noteq> CHR 0x22 then map_option (apfst (Cons c)) (read_pg_body s)
      else case s of
             d # s' \<Rightarrow> if d = CHR 0x22 then map_option (apfst (Cons c)) (read_pg_body s') else Some ([], s)
           | [] \<Rightarrow> Some ([], []))"

fun read_pg_ident :: "string \<Rightarrow> (string \<times> string) option" where
  "read_pg_ident [] = None"
| "read_pg_ident (c # s) = (if c = CHR 0x22 then read_pg_body s else None)"

fun read_ch_body :: "string \<Rightarrow> (string \<times> string) option" where
  "read_ch_body [] = None"
| "read_ch_body (c # s) =
     (if c = CHR 0x60 then Some ([], s)
      else if c = CHR 0x5C then
        (case s of [] \<Rightarrow> None | d # s' \<Rightarrow> map_option (apfst (Cons d)) (read_ch_body s'))
      else map_option (apfst (Cons c)) (read_ch_body s))"

fun read_ch_ident :: "string \<Rightarrow> (string \<times> string) option" where
  "read_ch_ident [] = None"
| "read_ch_ident (c # s) = (if c = CHR 0x60 then read_ch_body s else None)"

lemma read_pg_body_quoted:
  "rest = [] \<or> hd rest \<noteq> CHR 0x22 \<Longrightarrow>
   read_pg_body (replace_char (CHR 0x22) [CHR 0x22, CHR 0x22] name @ CHR 0x22 # rest) = Some (name, rest)"
  by (induction name) (auto split: list.splits)

text \<open>Quoting an identifier for PostgreSQL is injective and safe: whatever the name holds, and
  whatever text follows (unless it starts with another double quote), the database reads exactly
  the name back and continues right after the closing quote.\<close>

theorem quote_pg_ident_roundtrip:
  assumes "rest = [] \<or> hd rest \<noteq> CHR 0x22"
  shows "read_pg_ident (quote_pg_ident name @ rest) = Some (name, rest)"
  using read_pg_body_quoted [OF assms] by (simp add: quote_pg_ident_def)

theorem quote_pg_ident_roundtrip_witness:
  "read_pg_ident (quote_pg_ident [CHR ''a'', CHR 0x22] @ '' = 1'') = Some ([CHR ''a'', CHR 0x22], '' = 1'')"
  by (rule quote_pg_ident_roundtrip) simp

lemma read_ch_body_quoted:
  "CHR 0x5C \<notin> set name \<Longrightarrow>
   read_ch_body (replace_char (CHR 0x60) [CHR 0x5C, CHR 0x60] name @ CHR 0x60 # rest) = Some (name, rest)"
  by (induction name) auto

text \<open>Quoting for ClickHouse is safe exactly for names without a backslash: a name the identifier
  check accepts is always read back, but the name consisting of one backslash is not, because the
  quoting escapes backticks only and the backslash then swallows the closing quote.\<close>

theorem quote_ch_ident_needs_validation:
  "(validate_sql_identifier name kind = Inr () \<longrightarrow>
      read_ch_ident (quote_ch_ident name @ rest) = Some (name, rest)) \<and>
   read_ch_ident (quote_ch_ident [CHR 0x5C] @ '' = 1'') = None"
proof
  show "validate_sql_identifier name kind = Inr () \<longrightarrow>
      read_ch_ident (quote_ch_ident name @ rest) = Some (name, rest)"
  proof
    assume "validate_sql_identifier name kind = Inr ()"
    then have "CHR 0x5C \<notin> set name"
      by (auto simp: validate_sql_identifier_Inr)
    from read_ch_body_quoted [OF this] show "read_ch_ident (quote_ch_ident name @ rest) = Some (name, rest)"
      by (simp add: quote_ch_ident_def)
  qed
  show "read_ch_ident (quote_ch_ident [CHR 0x5C] @ '' = 1'') = None"
    by (simp add: quote_ch_ident_def)
qed

theorem quote_ch_ident_needs_validation_witness:
  "validate_sql_identifier ''to'' ''column'' = Inr () \<and>
   read_ch_ident (quote_ch_ident ''to'' @ '' = 1'') = Some (''to'', '' = 1'')"
proof -
  have v: "validate_sql_identifier ''to'' ''column'' = Inr ()"
    by (simp add: first_error_Inr identifier_start_def identifier_char_def is_ascii_alphanumeric_def
        is_ascii_alphabetic_def char_in_def ensure_def)
  with quote_ch_ident_needs_validation [of "''to''" "''column''" "'' = 1''"] show ?thesis by blast
qed

text \<open>A condition that passes the check holds no quote of either kind, no statement separator and
  no comment marker anywhere, so it cannot leave the parentheses it is interpolated into as a
  literal, a comment or a second statement; and no spelling (upper or lower case) of the eight
  forbidden keywords occurs in it.\<close>

theorem validated_condition_is_inert:
  assumes "validate_sql_condition s = Inr ()"
  shows "CHR 0x27 \<notin> set s \<and> CHR 0x22 \<notin> set s \<and> CHR '';'' \<notin> set s \<and>
    (\<nexists>us vs. s = us @ ''--'' @ vs) \<and> (\<nexists>us vs. s = us @ ''/*'' @ vs) \<and>
    (\<forall>us mid vs. s = us @ mid @ vs \<longrightarrow> map to_ascii_uppercase mid \<notin> set forbidden_keywords)"
proof -
  from assms have pats: "\<forall>p\<in>set forbidden_patterns. \<not> str_contains p s"
    and keys: "\<forall>k\<in>set forbidden_keywords. \<not> str_contains k (map to_ascii_uppercase s)"
    unfolding validate_sql_condition_Inr by blast+
  have "map to_ascii_uppercase mid \<notin> set forbidden_keywords" if "s = us @ mid @ vs" for us mid vs
  proof
    assume k: "map to_ascii_uppercase mid \<in> set forbidden_keywords"
    have "str_contains (map to_ascii_uppercase mid) (map to_ascii_uppercase s)"
      unfolding that str_contains_iff by auto
    with keys k show False by blast
  qed
  with pats show ?thesis
    by (simp add: forbidden_patterns_def str_contains_iff [of "''--''"] str_contains_iff [of "''/*''"])
qed

theorem validated_condition_is_inert_witness:
  "validate_sql_condition ''value > 10'' = Inr () \<and> CHR 0x27 \<notin> set ''value > 10''"
proof -
  have v: "validate_sql_condition ''value > 10'' = Inr ()"
    by code_simp
  with validated_condition_is_inert [OF v] show ?thesis by blast
qed

section \<open>Safe distance of a network\<close>

lemma fold_max_Max: "fold max ds d = Max (set (d # ds))"
  by (simp only: Max.set_eq_fold)

text \<open>The finalized-delivery buffer of a network holds a block at least as long as every source that
  touches the network asks for, exactly as long as one of them asks for, and the chain default when
  none does; a source with no setting (or with \<open>false\<close>) asks for the chain default.\<close>

theorem finalized_distance_is_maximum:
  "(observed_distances m network chain_id = [] \<longrightarrow>
      finalized_buffer_distance_for_network m network chain_id = reorg_safe_distance_for_chain chain_id) \<and>
   (observed_distances m network chain_id \<noteq> [] \<longrightarrow>
      finalized_buffer_distance_for_network m network chain_id \<in> set (observed_distances m network chain_id)) \<and>
   (\<forall>c\<in>set (mf_all_contracts m). network \<in> set (cc_networks c) \<longrightarrow>
      (case cc_reorg_safe_distance c of
         Some (Custom d) \<Rightarrow> d
       | _ \<Rightarrow> reorg_safe_distance_for_chain chain_id)
      \<le> finalized_buffer_distance_for_network m network chain_id)"
proof (cases "observed_distances m network chain_id")
  case Nil
  then have "filter (\<lambda>c. network \<in> set (cc_networks c)) (mf_all_contracts m) = []"
    by (simp add: observed_distances_def Let_def)
  then show ?thesis
    using Nil by (simp add: finalized_buffer_distance_for_network_def filter_empty_conv)
next
  case (Cons d ds)
  let ?F = "finalized_buffer_distance_for_network m network chain_id"
  have F: "?F = Max (set (observed_distances m network chain_id))"
    unfolding finalized_buffer_distance_for_network_def Cons list.case fold_max_Max ..
  have ge: "x \<le> ?F" if "x \<in> set (observed_distances m network chain_id)" for x
    using that by (simp add: F)
  have "(case cc_reorg_safe_distance c of Some (Custom d) \<Rightarrow> d
           | _ \<Rightarrow> reorg_safe_distance_for_chain chain_id) \<le> ?F"
    if "c \<in> set (mf_all_contracts m)" "network \<in> set (cc_networks c)" for c
  proof -
    have eq: "resolve_or (reorg_safe_distance_for_chain chain_id) chain_id (cc_reorg_safe_distance c) =
        (case cc_reorg_safe_distance c of Some (Custom d) \<Rightarrow> d
           | _ \<Rightarrow> reorg_safe_distance_for_chain chain_id)"
      by (auto simp: resolve_or_def split: option.splits reorg_safe_distance.splits
          elim: rsd_resolve.elims)
    have "resolve_or (reorg_safe_distance_for_chain chain_id) chain_id (cc_reorg_safe_distance c)
        \<in> set (observed_distances m network chain_id)"
      using that by (auto simp: observed_distances_def Let_def)
    from ge [OF this] show ?thesis unfolding eq .
  qed
  moreover have "?F \<in> set (observed_distances m network chain_id)"
    unfolding F using Cons by (intro Max_in) auto
  ultimately show ?thesis using Cons by (intro conjI) (simp, blast, blast)
qed

definition sample_manifest :: manifest_cfg where
  "sample_manifest =
     \<lparr>mf_all_contracts =
        [\<lparr>cc_networks = [''ethereum''], cc_reorg_safe_distance = Some (Custom 2)\<rparr>,
         \<lparr>cc_networks = [''ethereum''], cc_reorg_safe_distance = None\<rparr>],
      mf_native_transfers = \<lparr>nt_enabled = False, nt_networks = None, nt_reorg_safe_distance = None\<rparr>,
      mf_networks = [''ethereum'']\<rparr>"

theorem finalized_distance_is_maximum_witness:
  "observed_distances sample_manifest ''ethereum'' 1 = [2, 20] \<and>
   finalized_buffer_distance_for_network sample_manifest ''ethereum'' 1 \<in> {2, 20}"
proof -
  have o: "observed_distances sample_manifest ''ethereum'' 1 = [2, 20]"
    by (simp add: observed_distances_def sample_manifest_def resolve_or_def
        reorg_safe_distance_for_chain_def)
  with finalized_distance_is_maximum [of sample_manifest "''ethereum''" 1] show ?thesis by simp
qed

end
