(* ===== verification/Reorg_Task.thy ===== *)
theory Reorg_Task
  imports Reorg_Window Reorg_Sql "HOL-Library.Char_ord" "HOL-Library.List_Lexorder"
begin

text \<open>
  \<open>core/src/indexer/reorg/task.rs\<close> with the two rollback routines it calls
  (\<open>PostgresClient::reorg_rollback_transaction\<close> in \<open>core/src/database/postgres/client.rs\<close>,
  \<open>ClickhouseClient::reorg_rollback\<close> in \<open>core/src/database/clickhouse/client.rs\<close>). The SQL texts are
  built as the code builds them. The databases and the RPC node are parameters: a client is a
  record of the calls the code makes on the driver, each an effect on an arbitrary world \<open>'w\<close>.
\<close>

section \<open>Data\<close>

record event_table_info =
  et_schema :: string
  et_table_name :: string
  et_full_name :: string
  et_checkpoint_table :: string
  et_indexer_name :: string
  et_contract_name :: string
  et_event_name :: string

record affected_table =
  at_schema :: string
  at_table_name :: string
  at_rows_deleted :: u64
  at_indexer_name :: string
  at_contract_name :: string
  at_event_name :: string

record derived_column_rollback =
  dcr_derived_column :: string
  dcr_event_column :: string
  dcr_action :: set_action

record derived_table_rollback_op =
  op_event_table :: string
  op_where_columns :: "(string \<times> string) list"
  op_columns :: "derived_column_rollback list"
  op_condition :: "string option"

record derived_column_journal =
  dcj_derived_column :: string
  dcj_action :: set_action
  dcj_where_columns :: "string list"

record derived_table_info =
  dt_full_table_name :: string
  dt_cross_chain :: bool
  dt_rollback_ops :: "derived_table_rollback_op list"
  dt_journal_columns :: "derived_column_journal list"

record reorg_task =
  rt_network :: string
  rt_fork_point :: u64
  rt_detection_point :: u64
  rt_event_tables :: "event_table_info list"
  rt_derived_tables :: "derived_table_info list"
  rt_canonical_blocks :: "(u64 \<times> b256 \<times> b256) list"

record reorg_task_result =
  rr_events_deleted :: u64
  rr_affected_tx_hashes :: "string list"
  rr_affected_tables :: "affected_table list"

datatype snapshot_backend = Postgres | Clickhouse

record reversal_set_op =
  rs_derived_column :: string
  rs_op_symbol :: string
  rs_agg_alias :: string

record reversal_snapshot =
  sn_backend :: snapshot_backend
  sn_temp_table :: string
  sn_derived_table :: string
  sn_cross_chain :: bool
  sn_network :: string
  sn_where_columns :: "(string \<times> string) list"
  sn_set_ops :: "reversal_set_op list"

section \<open>The databases and the node, as the code calls them\<close>

datatype sql_param = P_Text string | P_I64 u64 | P_Decimal u64

record 'w pg_client =
  pg_batch_execute :: "string \<Rightarrow> ('w, string, unit) io"
  pg_begin :: "('w, string, unit) io"
  pg_tx_query_hashes :: "string \<Rightarrow> sql_param list \<Rightarrow> ('w, string, string list) io"
  pg_tx_execute :: "string \<Rightarrow> sql_param list \<Rightarrow> ('w, string, nat) io"
  pg_commit :: "('w, string, unit) io"
  pg_drop_transaction :: "'w \<Rightarrow> 'w"

record 'w ch_client =
  ch_execute :: "string \<Rightarrow> ('w, string, unit) io"
  ch_query_detail_keys :: "string \<Rightarrow> ('w, string, string list) io"
  ch_query_count_hashes :: "string \<Rightarrow> ('w, string, u64 \<times> string list) io"

record rpc_block =
  rb_number :: u64
  rb_hash :: b256
  rb_parent_hash :: b256

type_synonym 'w chain_provider = "u64 list \<Rightarrow> ('w, string, rpc_block list) io"

definition with_context :: "string \<Rightarrow> ('w, string, 'a) io \<Rightarrow> ('w, anyhow, 'a) io" where
  "with_context c m = io_map_err (\<lambda>e. [c, e]) m"

section \<open>Checked constructors\<close>

fun sum_then :: "'e + unit \<Rightarrow> 'e + 'a \<Rightarrow> 'e + 'a" where
  "sum_then (Inl e) r = Inl e"
| "sum_then (Inr u) r = r"

definition event_table_try_new ::
  "string \<Rightarrow> string \<Rightarrow> string \<Rightarrow> string \<Rightarrow> string \<Rightarrow> string \<Rightarrow> anyhow + event_table_info" where
  "event_table_try_new schema table_name checkpoint_table indexer contract event =
     sum_then (validate_sql_identifier schema ''event table schema'')
       (sum_then (validate_sql_identifier table_name ''event table name'')
         (sum_then (validate_sql_identifier checkpoint_table ''checkpoint table name'')
           (Inr \<lparr>et_schema = schema, et_table_name = table_name,
                 et_full_name = schema @ ''.'' @ table_name,
                 et_checkpoint_table = checkpoint_table, et_indexer_name = indexer,
                 et_contract_name = contract, et_event_name = event\<rparr>)))"

definition derived_column_rollback_try_new ::
  "string \<Rightarrow> string \<Rightarrow> set_action \<Rightarrow> anyhow + derived_column_rollback" where
  "derived_column_rollback_try_new derived event action =
     sum_then (validate_sql_identifier derived ''derived column'')
       (sum_then (validate_sql_identifier event ''event column'')
         (Inr \<lparr>dcr_derived_column = derived, dcr_event_column = event, dcr_action = action\<rparr>))"

definition validate_table_path :: "string \<Rightarrow> string \<Rightarrow> string \<Rightarrow> string \<Rightarrow> anyhow + unit" where
  "validate_table_path path schema_kind table_kind whole_kind =
     (case split_once (CHR ''.'') path of
        Some (schema, table) \<Rightarrow>
          sum_then (validate_sql_identifier schema schema_kind) (validate_sql_identifier table table_kind)
      | None \<Rightarrow> validate_sql_identifier path whole_kind)"

definition rollback_op_try_new ::
  "string \<Rightarrow> (string \<times> string) list \<Rightarrow> derived_column_rollback list \<Rightarrow> string option \<Rightarrow>
     anyhow + derived_table_rollback_op" where
  "rollback_op_try_new event_table where_columns columns condition =
     sum_then (validate_table_path event_table ''rollback op event table schema''
                 ''rollback op event table name'' ''rollback op event table'')
       (sum_then (first_error (concat (map (\<lambda>(dt_col, ev_col).
            [validate_sql_identifier dt_col ''rollback op WHERE derived column'',
             validate_sql_identifier ev_col ''rollback op WHERE event column'']) where_columns)))
         (sum_then (case condition of Some cond \<Rightarrow> validate_sql_condition cond | None \<Rightarrow> Inr ())
           (Inr \<lparr>op_event_table = event_table, op_where_columns = where_columns,
                 op_columns = columns, op_condition = condition\<rparr>)))"

definition derived_column_journal_try_new ::
  "string \<Rightarrow> set_action \<Rightarrow> string list \<Rightarrow> anyhow + derived_column_journal" where
  "derived_column_journal_try_new derived action where_columns =
     sum_then (validate_sql_identifier derived ''journal derived column'')
       (sum_then (first_error (map (\<lambda>c. validate_sql_identifier c ''journal WHERE column'') where_columns))
         (Inr \<lparr>dcj_derived_column = derived, dcj_action = action, dcj_where_columns = where_columns\<rparr>))"

definition derived_table_try_new ::
  "string \<Rightarrow> bool \<Rightarrow> derived_table_rollback_op list \<Rightarrow> derived_column_journal list \<Rightarrow>
     anyhow + derived_table_info" where
  "derived_table_try_new full_name cross_chain ops journal =
     sum_then (validate_table_path full_name ''derived table schema'' ''derived table name''
                 ''derived table name'')
       (Inr \<lparr>dt_full_table_name = full_name, dt_cross_chain = cross_chain,
             dt_rollback_ops = ops, dt_journal_columns = journal\<rparr>)"

section \<open>Phase 1: snapshots for the reversal\<close>

definition network_filter :: "reorg_task \<Rightarrow> bool \<Rightarrow> string" where
  "network_filter t cross_chain =
     (if cross_chain then [] else '' AND network = '' @ squoted (rt_network t))"

definition reversed_symbol :: "set_action \<Rightarrow> string option" where
  "reversed_symbol reversed =
     (case reversed of
        Add \<Rightarrow> Some ''+'' | Increment \<Rightarrow> Some ''+''
      | Subtract \<Rightarrow> Some ''-'' | Decrement \<Rightarrow> Some ''-''
      | _ \<Rightarrow> None)"

type_synonym agg_spec = "bool \<times> string \<times> string"

fun reversal_columns ::
  "(nat \<times> derived_column_rollback) list \<Rightarrow> anyhow + (agg_spec list \<times> reversal_set_op list)" where
  "reversal_columns [] = Inr ([], [])"
| "reversal_columns ((col_idx, col) # cols) =
     (case action_reverse (dcr_action col) of
        None \<Rightarrow> reversal_columns cols
      | Some reversed \<Rightarrow>
          (case reversed_symbol reversed of
             None \<Rightarrow> Inl [''unexpected reversed action for column '' @ dcr_derived_column col]
           | Some symbol \<Rightarrow>
               (let agg_alias = ''_rindexer_agg_'' @ show_nat col_idx
                in case reversal_columns cols of
                     Inl e \<Rightarrow> Inl e
                   | Inr (specs, ops) \<Rightarrow>
                       Inr ((is_counter_action (dcr_action col), dcr_event_column col, agg_alias) # specs,
                            \<lparr>rs_derived_column = dcr_derived_column col, rs_op_symbol = symbol,
                             rs_agg_alias = agg_alias\<rparr> # ops))))"

definition build_select ::
  "reorg_task \<Rightarrow> bool \<Rightarrow> derived_table_rollback_op \<Rightarrow> agg_spec list \<Rightarrow> (string \<Rightarrow> string) \<Rightarrow> string" where
  "build_select t cross_chain op specs quote =
     (let group = join '', '' (map (\<lambda>(_, ev_col). quote ev_col) (op_where_columns op));
          aggs = join '', '' (map (\<lambda>(is_counter, ev, als).
                   if is_counter then ''COUNT(*) AS '' @ als
                   else ''SUM('' @ quote ev @ '') AS '' @ als) specs);
          condition_filter = (case op_condition op of
                                Some cond \<Rightarrow> '' AND ('' @ cond @ '')'' | None \<Rightarrow> [])
      in ''SELECT '' @ group @ '', '' @ aggs @ '' FROM '' @ op_event_table op @
         '' WHERE block_number >= '' @ show_word (rt_fork_point t) @
         '' AND block_number <= '' @ show_word (rt_detection_point t) @
         network_filter t cross_chain @ condition_filter @ '' GROUP BY '' @ group)"

definition snapshot_base :: "reorg_task \<Rightarrow> nat \<Rightarrow> string" where
  "snapshot_base t snap_idx =
     ''_rindexer_reorg_snap_'' @ replace_char (CHR ''-'') ''_'' (rt_network t) @ ''_'' @
     show_word (rt_fork_point t) @ ''_'' @ show_nat snap_idx"

definition make_snapshot ::
  "snapshot_backend \<Rightarrow> string \<Rightarrow> reorg_task \<Rightarrow> derived_table_info \<Rightarrow> derived_table_rollback_op \<Rightarrow>
     reversal_set_op list \<Rightarrow> reversal_snapshot" where
  "make_snapshot backend temp t dt op set_ops =
     \<lparr>sn_backend = backend, sn_temp_table = temp, sn_derived_table = dt_full_table_name dt,
      sn_cross_chain = dt_cross_chain dt, sn_network = rt_network t,
      sn_where_columns = op_where_columns op, sn_set_ops = set_ops\<rparr>"

definition snapshot_pg_sql ::
  "reorg_task \<Rightarrow> derived_table_info \<Rightarrow> derived_table_rollback_op \<Rightarrow> agg_spec list \<Rightarrow> string \<Rightarrow> string" where
  "snapshot_pg_sql t dt op specs temp =
     ''CREATE TEMP TABLE '' @ temp @ '' AS '' @ build_select t (dt_cross_chain dt) op specs quote_pg_ident"

definition snapshot_ch_sql ::
  "reorg_task \<Rightarrow> derived_table_info \<Rightarrow> derived_table_rollback_op \<Rightarrow> agg_spec list \<Rightarrow> string \<Rightarrow> string" where
  "snapshot_ch_sql t dt op specs temp =
     ''CREATE TABLE IF NOT EXISTS '' @ temp @ '' ENGINE = Join(ANY, LEFT, '' @
     join '', '' (map (\<lambda>(_, ev_col). quote_ch_ident ev_col) (op_where_columns op)) @ '') AS '' @
     build_select t (dt_cross_chain dt) op specs quote_ch_ident"

definition snapshot_pg ::
  "reorg_task \<Rightarrow> 'w pg_client option \<Rightarrow> derived_table_info \<Rightarrow> derived_table_rollback_op \<Rightarrow>
     agg_spec list \<Rightarrow> reversal_set_op list \<Rightarrow> string \<Rightarrow> ('w, anyhow, reversal_snapshot list) io" where
  "snapshot_pg t pg dt op specs set_ops base =
     (case pg of
        None \<Rightarrow> io_ret []
      | Some c \<Rightarrow>
          (let temp = base @ ''_pg''
           in io_then (with_context (''Failed to create PG reorg reversal snapshot for '' @ dt_full_table_name dt)
                         (pg_batch_execute c (snapshot_pg_sql t dt op specs temp)))
                (io_ret [make_snapshot Postgres temp t dt op set_ops])))"

definition snapshot_ch ::
  "reorg_task \<Rightarrow> 'w ch_client option \<Rightarrow> derived_table_info \<Rightarrow> derived_table_rollback_op \<Rightarrow>
     agg_spec list \<Rightarrow> reversal_set_op list \<Rightarrow> string \<Rightarrow> ('w, anyhow, reversal_snapshot list) io" where
  "snapshot_ch t ch dt op specs set_ops base =
     (case ch of
        None \<Rightarrow> io_ret []
      | Some c \<Rightarrow>
          (let temp = ''rindexer_internal.'' @ base @ ''_ch''
           in io_then (with_context (''Failed to create CH reorg reversal snapshot for '' @ dt_full_table_name dt)
                         (ch_execute c (snapshot_ch_sql t dt op specs temp)))
                (io_ret [make_snapshot Clickhouse temp t dt op set_ops])))"

definition snapshot_op ::
  "reorg_task \<Rightarrow> 'w pg_client option \<Rightarrow> 'w ch_client option \<Rightarrow>
     derived_table_info \<times> derived_table_rollback_op \<Rightarrow> nat \<times> reversal_snapshot list \<Rightarrow>
     ('w, anyhow, nat \<times> reversal_snapshot list) io" where
  "snapshot_op t pg ch = (\<lambda>(dt, op) (snap_idx, snapshots).
     case reversal_columns (enumerate_from 0 (op_columns op)) of
       Inl e \<Rightarrow> io_fail e
     | Inr (specs, set_ops) \<Rightarrow>
         if set_ops = [] \<or> specs = [] then io_ret (snap_idx, snapshots)
         else (let base = snapshot_base t snap_idx
               in io_bind (snapshot_pg t pg dt op specs set_ops base) (\<lambda>s1.
                    io_bind (snapshot_ch t ch dt op specs set_ops base) (\<lambda>s2.
                      io_ret (Suc snap_idx, snapshots @ s1 @ s2)))))"

definition snapshot_for_reversal ::
  "reorg_task \<Rightarrow> 'w pg_client option \<Rightarrow> 'w ch_client option \<Rightarrow> ('w, anyhow, reversal_snapshot list) io" where
  "snapshot_for_reversal t pg ch =
     io_bind
       (io_fold (snapshot_op t pg ch)
          (concat (map (\<lambda>dt. map (Pair dt) (dt_rollback_ops dt)) (rt_derived_tables t))) (0, []))
       (\<lambda>(_, snapshots). io_ret snapshots)"

section \<open>Phase 2: reversing the accumulative columns\<close>

definition pg_reversal_sql :: "reversal_snapshot \<Rightarrow> string" where
  "pg_reversal_sql snap =
     (let where_join = map (\<lambda>(dt_col, ev_col).
            ''dt.'' @ quote_pg_ident dt_col @ '' = snap.'' @ quote_pg_ident ev_col) (sn_where_columns snap);
          network_join = (if sn_cross_chain snap then []
            else '' AND dt.network = '' @ squoted (sn_network snap));
          set_clauses = map (\<lambda>s. let col = quote_pg_ident (rs_derived_column s)
            in col @ '' = dt.'' @ col @ '' '' @ rs_op_symbol s @ '' snap.'' @ rs_agg_alias s) (sn_set_ops snap)
      in ''UPDATE '' @ sn_derived_table snap @ '' AS dt SET '' @ join '', '' set_clauses @
         '' FROM '' @ sn_temp_table snap @ '' AS snap WHERE '' @ join '' AND '' where_join @ network_join)"

definition ch_reversal_sql :: "reversal_snapshot \<Rightarrow> string" where
  "ch_reversal_sql snap =
     (let join_get_keys = join '', '' (map (\<lambda>(dt_col, _). quote_ch_ident dt_col) (sn_where_columns snap));
          set_clauses = map (\<lambda>s. let col = quote_ch_ident (rs_derived_column s)
            in col @ '' = '' @ col @ '' '' @ rs_op_symbol s @ '' joinGet('' @ squoted (sn_temp_table snap) @
               '', '' @ squoted (rs_agg_alias s) @ '', '' @ join_get_keys @ '')'') (sn_set_ops snap);
          network = (if sn_cross_chain snap then ''1 = 1'' else ''network = '' @ squoted (sn_network snap));
          exists_filter = map (\<lambda>(dt_col, ev_col). quote_ch_ident dt_col @ '' IN (SELECT '' @
            quote_ch_ident ev_col @ '' FROM '' @ sn_temp_table snap @ '')'') (sn_where_columns snap);
          scope = (if exists_filter = [] then network
            else network @ '' AND '' @ join '' AND '' exists_filter)
      in ''ALTER TABLE '' @ sn_derived_table snap @ '' UPDATE '' @ join '', '' set_clauses @
         '' WHERE '' @ scope @ '' SETTINGS mutations_sync = 1'')"

definition drop_table_sql :: "string \<Rightarrow> string" where
  "drop_table_sql table = ''DROP TABLE IF EXISTS '' @ table"

definition apply_reversal ::
  "'w pg_client option \<Rightarrow> 'w ch_client option \<Rightarrow> reversal_snapshot \<Rightarrow> ('w, anyhow, unit) io" where
  "apply_reversal pg ch snap =
     (case sn_backend snap of
        Postgres \<Rightarrow> io_opt pg (\<lambda>c.
          io_then (with_context (''PostgreSQL: failed to reverse accumulative ops for '' @ sn_derived_table snap)
                     (pg_batch_execute c (pg_reversal_sql snap)))
            (io_ignore (pg_batch_execute c (drop_table_sql (sn_temp_table snap)))))
      | Clickhouse \<Rightarrow> io_opt ch (\<lambda>c.
          io_then (with_context (''ClickHouse: failed to reverse accumulative ops for '' @ sn_derived_table snap)
                     (ch_execute c (ch_reversal_sql snap)))
            (io_ignore (ch_execute c (drop_table_sql (sn_temp_table snap))))))"

definition apply_reversal_from_snapshots ::
  "'w pg_client option \<Rightarrow> 'w ch_client option \<Rightarrow> reversal_snapshot list \<Rightarrow> ('w, anyhow, unit) io" where
  "apply_reversal_from_snapshots pg ch snapshots = io_for (apply_reversal pg ch) snapshots"

section \<open>Phase 3: recalculation from the operation journal\<close>

definition journal_where_key_join :: "string list \<Rightarrow> string \<Rightarrow> string \<Rightarrow> string" where
  "journal_where_key_join where_columns dt_alias sub_alias =
     (if where_columns = [] then dt_alias @ ''.network = '' @ sub_alias @ ''.where_key''
      else sub_alias @ ''.where_key = '' @
        join '' || '' (map (\<lambda>(i, col).
          squoted ((if i = 0 then [] else '','') @ col @ ''='') @ '' || '' @ dt_alias @ ''.'' @ col @ ''::TEXT'')
          (enumerate_from 0 where_columns)))"

definition journal_where_key_concat_ch :: "string list \<Rightarrow> string" where
  "journal_where_key_concat_ch where_columns =
     (if where_columns = [] then ''network''
      else ''concat('' @
        join '', '' (map (\<lambda>(i, col).
          squoted ((if i = 0 then [] else '','') @ col @ ''='') @ '', toString('' @ col @ '')'')
          (enumerate_from 0 where_columns)) @ '')'')"

definition journal_pg_delete_sql :: "reorg_task \<Rightarrow> derived_table_info \<Rightarrow> string" where
  "journal_pg_delete_sql t dt =
     ''DELETE FROM rindexer_internal.derived_op_log WHERE derived_table = '' @
     squoted (dt_full_table_name dt) @ '' AND block_number >= '' @ show_word (rt_fork_point t) @
     network_filter t (dt_cross_chain dt)"

definition journal_ch_delete_sql :: "reorg_task \<Rightarrow> derived_table_info \<Rightarrow> string" where
  "journal_ch_delete_sql t dt =
     ''ALTER TABLE rindexer_internal.derived_op_log DELETE WHERE derived_table = '' @
     squoted (dt_full_table_name dt) @ '' AND block_number >= '' @ show_word (rt_fork_point t) @
     network_filter t (dt_cross_chain dt) @ '' SETTINGS mutations_sync = 1''"

definition journal_pg_update_sql ::
  "reorg_task \<Rightarrow> derived_table_info \<Rightarrow> derived_column_journal \<Rightarrow> string option" where
  "journal_pg_update_sql t dt jc =
     (let filter = network_filter t (dt_cross_chain dt);
          network_join = (if dt_cross_chain dt then []
            else '' AND dt.network = '' @ squoted (rt_network t));
          scope = ''FROM rindexer_internal.derived_op_log WHERE derived_table = '' @
            squoted (dt_full_table_name dt) @ '' AND column_name = '' @ squoted (dcj_derived_column jc) @ filter;
          tail = '' ) sub WHERE '' @ journal_where_key_join (dcj_where_columns jc) ''dt'' ''sub'' @
            '' '' @ network_join;
          aggregate = (\<lambda>agg_fn. ''UPDATE '' @ dt_full_table_name dt @ '' AS dt SET '' @
            dcj_derived_column jc @ '' = sub.recalc FROM ( SELECT where_key, '' @ agg_fn @
            ''::NUMERIC AS recalc '' @ scope @ '' GROUP BY where_key'' @ tail)
      in case dcj_action jc of
           Set_Act \<Rightarrow> Some (''UPDATE '' @ dt_full_table_name dt @ '' AS dt SET '' @ dcj_derived_column jc @
             '' = sub.value FROM ( SELECT DISTINCT ON (where_key) where_key, value '' @ scope @
             '' ORDER BY where_key, block_number DESC, tx_index DESC, log_index DESC'' @ tail)
         | Max_Act \<Rightarrow> Some (aggregate ''MAX(value)'')
         | Min_Act \<Rightarrow> Some (aggregate ''MIN(value)'')
         | _ \<Rightarrow> None)"

definition journal_ch_update_sql ::
  "reorg_task \<Rightarrow> derived_table_info \<Rightarrow> derived_column_journal \<Rightarrow> string option" where
  "journal_ch_update_sql t dt jc =
     (let filter = network_filter t (dt_cross_chain dt);
          network = (if dt_cross_chain dt then ''1 = 1'' else ''network = '' @ squoted (rt_network t));
          key = journal_where_key_concat_ch (dcj_where_columns jc);
          scope = '' FROM rindexer_internal.derived_op_log WHERE derived_table = '' @
            squoted (dt_full_table_name dt) @ '' AND column_name = '' @ squoted (dcj_derived_column jc) @
            '' AND where_key = '' @ key;
          update = (\<lambda>subquery. ''ALTER TABLE '' @ dt_full_table_name dt @ '' UPDATE '' @
            dcj_derived_column jc @ '' = '' @ subquery @ '' WHERE '' @ network @
            '' SETTINGS mutations_sync = 1'')
      in case dcj_action jc of
           Set_Act \<Rightarrow> Some (update (''(SELECT value'' @ scope @ '' '' @ filter @
             '' ORDER BY block_number DESC, tx_index DESC, log_index DESC LIMIT 1)''))
         | Max_Act \<Rightarrow> Some (update (''(SELECT max(value)'' @ scope @ filter @ '')''))
         | Min_Act \<Rightarrow> Some (update (''(SELECT min(value)'' @ scope @ filter @ '')''))
         | _ \<Rightarrow> None)"

definition recalculate_column ::
  "reorg_task \<Rightarrow> 'w pg_client option \<Rightarrow> 'w ch_client option \<Rightarrow> derived_table_info \<Rightarrow>
     derived_column_journal \<Rightarrow> ('w, anyhow, unit) io" where
  "recalculate_column t pg ch dt jc =
     io_then
       (io_opt pg (\<lambda>c. io_opt (journal_pg_update_sql t dt jc) (\<lambda>sql.
          with_context (''PG: failed to recalculate journal column '' @ dcj_derived_column jc @ '' in '' @
            dt_full_table_name dt) (pg_batch_execute c sql))))
       (io_opt ch (\<lambda>c. io_opt (journal_ch_update_sql t dt jc) (\<lambda>sql.
          with_context (''CH: failed to recalculate journal column '' @ dcj_derived_column jc @ '' in '' @
            dt_full_table_name dt) (ch_execute c sql))))"

definition recalculate_table ::
  "reorg_task \<Rightarrow> 'w pg_client option \<Rightarrow> 'w ch_client option \<Rightarrow> derived_table_info \<Rightarrow> ('w, anyhow, unit) io" where
  "recalculate_table t pg ch dt =
     (if dt_journal_columns dt = [] then io_ret ()
      else io_then
        (io_opt pg (\<lambda>c. with_context (''PG: failed to delete journal entries for reorg range in '' @
           dt_full_table_name dt) (pg_batch_execute c (journal_pg_delete_sql t dt))))
        (io_then
          (io_opt ch (\<lambda>c. with_context (''CH: failed to delete journal entries for reorg range in '' @
             dt_full_table_name dt) (ch_execute c (journal_ch_delete_sql t dt))))
          (io_for (recalculate_column t pg ch dt) (dt_journal_columns dt))))"

definition recalculate_from_journal ::
  "reorg_task \<Rightarrow> 'w pg_client option \<Rightarrow> 'w ch_client option \<Rightarrow> ('w, anyhow, unit) io" where
  "recalculate_from_journal t pg ch = io_for (recalculate_table t pg ch) (rt_derived_tables t)"

section \<open>Phase 4: insert-only derived tables\<close>

definition insert_only :: "derived_table_info \<Rightarrow> bool" where
  "insert_only dt = (dt_rollback_ops dt = [] \<and> dt_journal_columns dt = [])"

definition derived_pg_delete_sql :: "reorg_task \<Rightarrow> derived_table_info \<Rightarrow> string" where
  "derived_pg_delete_sql t dt =
     ''DELETE FROM '' @ dt_full_table_name dt @ '' WHERE rindexer_block_number >= '' @
     show_word (rt_fork_point t) @ network_filter t (dt_cross_chain dt)"

definition derived_ch_delete_sql :: "reorg_task \<Rightarrow> derived_table_info \<Rightarrow> string" where
  "derived_ch_delete_sql t dt =
     ''ALTER TABLE '' @ dt_full_table_name dt @ '' DELETE WHERE rindexer_block_number >= '' @
     show_word (rt_fork_point t) @ network_filter t (dt_cross_chain dt) @
     '' SETTINGS mutations_sync = 1''"

definition delete_derived_rows ::
  "reorg_task \<Rightarrow> 'w pg_client option \<Rightarrow> 'w ch_client option \<Rightarrow> derived_table_info \<Rightarrow> ('w, anyhow, unit) io" where
  "delete_derived_rows t pg ch dt =
     (if \<not> insert_only dt then io_ret ()
      else io_then
        (io_opt pg (\<lambda>c. with_context (''PostgreSQL: failed to delete derived table rows in '' @
           dt_full_table_name dt) (pg_batch_execute c (derived_pg_delete_sql t dt))))
        (io_opt ch (\<lambda>c. with_context (''ClickHouse: failed to delete derived table rows in '' @
           dt_full_table_name dt) (ch_execute c (derived_ch_delete_sql t dt)))))"

section \<open>Rolling the event tables back\<close>

definition i64_try_from :: "string \<Rightarrow> u64 \<Rightarrow> string + u64" where
  "i64_try_from msg n = (if unat n < 2 ^ 63 then Inr n else Inl msg)"

definition pg_delete_events ::
  "'w pg_client \<Rightarrow> string \<Rightarrow> u64 \<Rightarrow> u64 \<Rightarrow> string \<Rightarrow> u64 \<times> string list \<Rightarrow>
     ('w, string, u64 \<times> string list) io" where
  "pg_delete_events c network fork_point detection_point table_name = (\<lambda>(total, hashes).
     io_bind (pg_tx_query_hashes c
        (''DELETE FROM '' @ table_name @
         '' WHERE network = $1 AND block_number >= $2 AND block_number <= $3 RETURNING tx_hash'')
        [P_Text network, P_Decimal fork_point, P_Decimal detection_point])
       (\<lambda>rows. io_ret (total + of_nat (length rows), hashes @ rows)))"

definition pg_delete_hashes_sql :: string where
  "pg_delete_hashes_sql = ''DELETE FROM rindexer_internal.reorg_block_hashes '' @
     ''WHERE network = $1 AND block_number >= $2 AND block_number <= $3''"

definition pg_insert_hash_sql :: string where
  "pg_insert_hash_sql = ''INSERT INTO rindexer_internal.reorg_block_hashes '' @
     ''(network, block_number, block_hash, parent_hash) VALUES ($1, $2, $3, $4)''"

definition pg_rewind_sql :: "string \<Rightarrow> string" where
  "pg_rewind_sql table =
     ''UPDATE rindexer_internal.'' @ table @ '' SET last_synced_block = $1 WHERE network = $2''"

definition io_void :: "('w, 'e, 'a) io \<Rightarrow> ('w, 'e, unit) io" where
  "io_void m = io_bind m (\<lambda>_. io_ret ())"

definition pg_insert_corrected :: "'w pg_client \<Rightarrow> string \<Rightarrow> u64 \<times> string \<times> string \<Rightarrow> ('w, string, unit) io" where
  "pg_insert_corrected c network = (\<lambda>(n, h, p).
     io_bind (io_lift (i64_try_from (''block_number '' @ show_word n @ '' exceeds i64 range'') n)) (\<lambda>n_i64.
       io_void (pg_tx_execute c pg_insert_hash_sql [P_Text network, P_I64 n_i64, P_Text h, P_Text p])))"

definition pg_rollback_body ::
  "'w pg_client \<Rightarrow> string list \<Rightarrow> string \<Rightarrow> u64 \<Rightarrow> u64 \<Rightarrow> (u64 \<times> string \<times> string) list \<Rightarrow> string list \<Rightarrow>
     ('w, string, u64 \<times> string list) io" where
  "pg_rollback_body c tables network fork_point detection_point corrected checkpoints =
     io_bind (io_lift (i64_try_from ''fork_point exceeds i64 range'' fork_point)) (\<lambda>fork_i64.
     io_bind (io_lift (i64_try_from ''detection_point exceeds i64 range'' detection_point)) (\<lambda>detection_i64.
     io_bind (io_fold (pg_delete_events c network fork_point detection_point) tables (0, [])) (\<lambda>(total, hashes).
     io_then (io_void (pg_tx_execute c pg_delete_hashes_sql [P_Text network, P_I64 fork_i64, P_I64 detection_i64]))
     (io_then (io_for (pg_insert_corrected c network) corrected)
     (io_then (io_for (\<lambda>table.
          io_void (pg_tx_execute c (pg_rewind_sql table)
            [P_Decimal (saturating_sub fork_point 1), P_Text network])) checkpoints)
     (io_ret (total, remdups_adj (sort hashes))))))))"

definition pg_reorg_rollback_transaction ::
  "'w pg_client \<Rightarrow> string list \<Rightarrow> string \<Rightarrow> u64 \<Rightarrow> u64 \<Rightarrow> (u64 \<times> string \<times> string) list \<Rightarrow> string list \<Rightarrow>
     ('w, string, u64 \<times> string list) io" where
  "pg_reorg_rollback_transaction c tables network fork_point detection_point corrected checkpoints =
     io_then (pg_begin c)
       (\<lambda>w. case pg_rollback_body c tables network fork_point detection_point corrected checkpoints w of
              (Inl e, w') \<Rightarrow> (Inl e, pg_drop_transaction c w')
            | (Inr r, w') \<Rightarrow> io_then (pg_commit c) (io_ret r) w')"

definition ch_escape :: "string \<Rightarrow> string" where
  "ch_escape s = replace_char (CHR 0x27) [CHR 0x5C, CHR 0x27] s"

definition ch_rewind_checkpoint :: "'w ch_client \<Rightarrow> string \<Rightarrow> u64 \<Rightarrow> string \<Rightarrow> ('w, string, unit) io" where
  "ch_rewind_checkpoint c network rewind_block table =
     (let escaped = ch_escape network in
      io_bind (ch_query_detail_keys c (''SELECT detail_key FROM rindexer_internal.'' @ table @
         '' FINAL WHERE network = '' @ squoted escaped)) (\<lambda>detail_keys.
      io_then (ch_execute c (''ALTER TABLE rindexer_internal.'' @ table @ '' DELETE WHERE network = '' @
         squoted escaped @ '' SETTINGS mutations_sync = 1''))
      (io_for (\<lambda>detail_key. ch_execute c (''INSERT INTO rindexer_internal.'' @ table @
         '' (network, detail_key, last_synced_block) VALUES ('' @ squoted escaped @ '', '' @
         squoted (ch_escape detail_key) @ '', '' @ show_word rewind_block @ '')'')) detail_keys)))"

definition ch_count_events ::
  "'w ch_client \<Rightarrow> string \<Rightarrow> u64 \<Rightarrow> u64 \<Rightarrow> string \<times> string \<Rightarrow> u64 \<times> string list \<Rightarrow>
     ('w, string, u64 \<times> string list) io" where
  "ch_count_events c network fork_point detection_point = (\<lambda>(database, table_name) (total, hashes).
     io_bind (ch_query_count_hashes c
        (''SELECT count() as c, groupArray(DISTINCT tx_hash) as hashes FROM '' @ database @ ''.'' @ table_name @
         '' WHERE block_number >= '' @ show_word fork_point @ '' AND block_number <= '' @
         show_word detection_point @ '' AND network = '' @ squoted network))
       (\<lambda>(n, hs). io_ret (total + n, hashes @ hs)))"

definition ch_delete_by_block_range :: "'w ch_client \<Rightarrow> string \<Rightarrow> string \<Rightarrow> u64 \<Rightarrow> u64 \<Rightarrow> ('w, string, unit) io" where
  "ch_delete_by_block_range c table_name network fork_point detection_point =
     ch_execute c (''ALTER TABLE '' @ table_name @ '' DELETE WHERE block_number >= '' @ show_word fork_point @
       '' AND block_number <= '' @ show_word detection_point @ '' AND network = '' @ squoted network @
       '' SETTINGS mutations_sync = 1'')"

definition ch_insert_hash_sql :: "string \<Rightarrow> u64 \<Rightarrow> string \<Rightarrow> string \<Rightarrow> string" where
  "ch_insert_hash_sql network n h p =
     ''INSERT INTO rindexer_internal.reorg_block_hashes '' @
     ''(network, block_number, block_hash, parent_hash) VALUES ('' @ squoted network @ '', '' @
     show_word n @ '', '' @ squoted h @ '', '' @ squoted p @ '')''"

text \<open>The transaction hashes are collected in a \<open>HashSet\<close>, so the code returns them in no fixed
  order; the model keeps the order of their last occurrence, and the theorems speak of their set.\<close>

definition ch_reorg_rollback ::
  "'w ch_client \<Rightarrow> (string \<times> string) list \<Rightarrow> string \<Rightarrow> u64 \<Rightarrow> u64 \<Rightarrow> string list \<Rightarrow>
     (u64 \<times> string \<times> string) list \<Rightarrow> ('w, string, u64 \<times> string list) io" where
  "ch_reorg_rollback c event_tables network fork_point detection_point checkpoints corrected =
     io_then (io_for (ch_rewind_checkpoint c network (saturating_sub fork_point 1)) checkpoints)
     (io_bind (io_fold (ch_count_events c network fork_point detection_point) event_tables (0, []))
       (\<lambda>(total, hashes).
     io_then (io_for (\<lambda>(database, table_name).
         ch_delete_by_block_range c (database @ ''.'' @ table_name) network fork_point detection_point) event_tables)
     (io_then (ch_delete_by_block_range c ''rindexer_internal.reorg_block_hashes'' network fork_point detection_point)
     (io_then (io_for (\<lambda>(n, h, p). ch_execute c (ch_insert_hash_sql network n h p)) corrected)
     (io_ret (total, remdups hashes))))))"

section \<open>The whole task\<close>

definition task_canonical ::
  "reorg_task \<Rightarrow> 'w chain_provider option \<Rightarrow> ('w, anyhow, (u64 \<times> b256 \<times> b256) list) io" where
  "task_canonical t provider =
     (if rt_canonical_blocks t \<noteq> [] then
        io_ret (filter (\<lambda>(n, _, _). rt_fork_point t \<le> n \<and> n \<le> rt_detection_point t) (rt_canonical_blocks t))
      else case provider of
        Some fetch \<Rightarrow> (\<lambda>w. case fetch (u64_range_incl (rt_fork_point t) (rt_detection_point t)) w of
            (Inr blocks, w') \<Rightarrow> (Inr (map (\<lambda>b. (rb_number b, rb_hash b, rb_parent_hash b)) blocks), w')
          | (Inl e, w') \<Rightarrow> (Inr [], w'))
      | None \<Rightarrow> io_ret [])"

definition rollback_postgres ::
  "reorg_task \<Rightarrow> 'w pg_client option \<Rightarrow> (u64 \<times> string \<times> string) list \<Rightarrow> ('w, anyhow, u64 \<times> string list) io" where
  "rollback_postgres t pg corrected =
     (case pg of
        None \<Rightarrow> io_ret (0, [])
      | Some c \<Rightarrow> with_context ''PostgreSQL reorg rollback transaction failed''
          (pg_reorg_rollback_transaction c (map et_full_name (rt_event_tables t)) (rt_network t)
             (rt_fork_point t) (rt_detection_point t) corrected (map et_checkpoint_table (rt_event_tables t))))"

definition rollback_clickhouse ::
  "reorg_task \<Rightarrow> 'w pg_client option \<Rightarrow> 'w ch_client option \<Rightarrow> (u64 \<times> string \<times> string) list \<Rightarrow>
     u64 \<times> string list \<Rightarrow> ('w, anyhow, u64 \<times> string list) io" where
  "rollback_clickhouse t pg ch corrected totals =
     (case ch of
        None \<Rightarrow> io_ret totals
      | Some c \<Rightarrow>
          io_bind (with_context ''ClickHouse reorg rollback failed''
             (ch_reorg_rollback c (map (\<lambda>e. (et_schema e, et_table_name e)) (rt_event_tables t)) (rt_network t)
                (rt_fork_point t) (rt_detection_point t) (map et_checkpoint_table (rt_event_tables t)) corrected))
            (\<lambda>ch_totals. io_ret (case pg of None \<Rightarrow> ch_totals | Some _ \<Rightarrow> totals)))"

definition task_window :: "reorg_task \<Rightarrow> (u64 \<times> b256 \<times> b256) list \<Rightarrow> block_chain_window \<Rightarrow> block_chain_window" where
  "task_window t canonical window =
     (if canonical \<noteq> [] then wnd_update_range window canonical
      else wnd_remove_from window (rt_fork_point t))"

definition affected_table_of :: "event_table_info \<Rightarrow> affected_table" where
  "affected_table_of e =
     \<lparr>at_schema = et_schema e, at_table_name = et_table_name e, at_rows_deleted = 0,
      at_indexer_name = et_indexer_name e, at_contract_name = et_contract_name e,
      at_event_name = et_event_name e\<rparr>"

definition context_all :: "string \<Rightarrow> ('w, anyhow, 'a) io \<Rightarrow> ('w, anyhow, 'a) io" where
  "context_all c m = io_map_err (Cons c) m"

text \<open>\<open>execute\<close> takes the window by mutable reference and writes it only at the end, so the model
  returns the new window with the result; a failed task leaves the caller's window alone.
  \<open>fmt\<close> is the node library's \<open>{:#x}\<close> formatting of a hash.\<close>

definition task_execute ::
  "(b256 \<Rightarrow> string) \<Rightarrow> reorg_task \<Rightarrow> block_chain_window \<Rightarrow> 'w pg_client option \<Rightarrow> 'w ch_client option \<Rightarrow>
     'w chain_provider option \<Rightarrow> ('w, anyhow, block_chain_window \<times> reorg_task_result) io" where
  "task_execute fmt t window pg ch provider =
     io_then (io_lift (validate_sql_value (rt_network t) ''reorg task network''))
     (io_bind (task_canonical t provider) (\<lambda>canonical.
     (let corrected = map (\<lambda>(n, h, p). (n, fmt h, fmt p)) canonical in
     io_bind (snapshot_for_reversal t pg ch) (\<lambda>snapshots.
     io_bind (rollback_postgres t pg corrected) (\<lambda>pg_totals.
     io_bind (rollback_clickhouse t pg ch corrected pg_totals) (\<lambda>(total, hashes).
     io_then (context_all ''Accumulative reversal from snapshots failed''
                (apply_reversal_from_snapshots pg ch snapshots))
     (io_then (context_all ''Journal recalculation failed'' (recalculate_from_journal t pg ch))
     (io_then (io_for (delete_derived_rows t pg ch) (rt_derived_tables t))
     (io_ret (task_window t canonical window,
        \<lparr>rr_events_deleted = total, rr_affected_tx_hashes = hashes,
         rr_affected_tables = map affected_table_of (rt_event_tables t)\<rparr>))))))))))"

end
