(* ===== verification/Reorg_Rollback.thy ===== *)
theory Reorg_Rollback
  imports Reorg_Task
begin

text \<open>
  What a reorg task guarantees: its accumulative reversal restores the old values, its statements
  stay within the network it is about, the PostgreSQL part is all or nothing, and the window it
  returns is the old one below the fork point and the canonical one above.
\<close>

section \<open>Reversing accumulated columns\<close>

text \<open>What the forward actions do to a column, what \<open>SUM\<close> and \<open>COUNT(*)\<close> aggregate, and what
  \<open>column = column op aggregate\<close> computes.\<close>

fun forward_action :: "set_action \<Rightarrow> int \<Rightarrow> int \<Rightarrow> int" where
  "forward_action Add acc v = acc + v"
| "forward_action Subtract acc v = acc - v"
| "forward_action Increment acc v = acc + 1"
| "forward_action Decrement acc v = acc - 1"
| "forward_action Set_Act acc v = v"
| "forward_action Max_Act acc v = max acc v"
| "forward_action Min_Act acc v = min acc v"

definition sql_aggregate :: "bool \<Rightarrow> int list \<Rightarrow> int" where
  "sql_aggregate is_counter vs = (if is_counter then int (length vs) else sum_list vs)"

definition sql_apply :: "string \<Rightarrow> int \<Rightarrow> int \<Rightarrow> int" where
  "sql_apply symbol x y = (if symbol = ''+'' then x + y else x - y)"

definition reversible :: "derived_column_rollback \<Rightarrow> bool" where
  "reversible col = (action_reverse (dcr_action col) \<noteq> None)"

lemma foldl_forward:
  "foldl (forward_action Add) x vs = x + sum_list vs"
  "foldl (forward_action Subtract) x vs = x - sum_list vs"
  "foldl (forward_action Increment) x vs = x + int (length vs)"
  "foldl (forward_action Decrement) x vs = x - int (length vs)"
  by (induction vs arbitrary: x) auto

definition column_spec :: "nat \<times> derived_column_rollback \<Rightarrow> agg_spec" where
  "column_spec = (\<lambda>(i, col).
     (is_counter_action (dcr_action col), dcr_event_column col, ''_rindexer_agg_'' @ show_nat i))"

definition column_set_op :: "nat \<times> derived_column_rollback \<Rightarrow> reversal_set_op" where
  "column_set_op = (\<lambda>(i, col).
     \<lparr>rs_derived_column = dcr_derived_column col,
      rs_op_symbol = (if dcr_action col = Add \<or> dcr_action col = Increment then ''-'' else ''+''),
      rs_agg_alias = ''_rindexer_agg_'' @ show_nat i\<rparr>)"

lemma reversal_columns_eq:
  "reversal_columns cols =
     Inr (map column_spec (filter (reversible \<circ> snd) cols), map column_set_op (filter (reversible \<circ> snd) cols))"
proof (induction cols)
  case (Cons c cols)
  then show ?case
    by (cases c; cases "dcr_action (snd c)")
      (simp_all add: reversible_def reversed_symbol_def column_spec_def column_set_op_def Let_def)
qed simp

text \<open>C29: For every column of a rollback operation whose action can be reversed, the snapshot
  aggregate and the assignment the task generates undo the forward action: after any list of event
  values has been accumulated into the column, applying the generated operator to the generated
  aggregate of the same values gives the value from before; columns with other actions generate
  nothing, and the generation never fails.\<close>

theorem reversal_restores_column:
  "\<exists>specs set_ops. reversal_columns (enumerate_from 0 cols) = Inr (specs, set_ops) \<and>
     length specs = length (filter reversible cols) \<and> length set_ops = length specs \<and>
     (\<forall>k<length specs. \<exists>col. col \<in> set cols \<and>
        rs_derived_column (set_ops ! k) = dcr_derived_column col \<and>
        fst (snd (specs ! k)) = dcr_event_column col \<and>
        rs_agg_alias (set_ops ! k) = snd (snd (specs ! k)) \<and>
        (\<forall>x vs. sql_apply (rs_op_symbol (set_ops ! k)) (foldl (forward_action (dcr_action col)) x vs)
                  (sql_aggregate (fst (specs ! k)) vs) = x))"
proof -
  let ?rev = "filter (reversible \<circ> snd) (enumerate_from 0 cols)"
  have snd_enum: "map snd (enumerate_from i xs) = xs" for i and xs :: "derived_column_rollback list"
    by (induction xs arbitrary: i) auto
  have len: "length ?rev = length (filter reversible cols)"
    using snd_enum [of 0 cols] by (metis filter_map length_map)
  have col: "\<exists>col. col \<in> set cols \<and>
        rs_derived_column (column_set_op p) = dcr_derived_column col \<and>
        fst (snd (column_spec p)) = dcr_event_column col \<and>
        rs_agg_alias (column_set_op p) = snd (snd (column_spec p)) \<and>
        (\<forall>x vs. sql_apply (rs_op_symbol (column_set_op p)) (foldl (forward_action (dcr_action col)) x vs)
                  (sql_aggregate (fst (column_spec p)) vs) = x)" if "p \<in> set ?rev" for p
  proof -
    from that have "snd p \<in> set (map snd (enumerate_from 0 cols))" by auto
    then have "snd p \<in> set cols" by (simp only: snd_enum)
    moreover from that have "action_reverse (dcr_action (snd p)) \<noteq> None" by (simp add: reversible_def)
    ultimately show ?thesis
      by (intro exI [of _ "snd p"]; cases p; cases "dcr_action (snd p)")
        (simp_all add: column_set_op_def column_spec_def is_counter_action_def sql_apply_def
          sql_aggregate_def foldl_forward)
  qed
  have all: "\<forall>k<length ?rev. \<exists>col. col \<in> set cols \<and>
        rs_derived_column (map column_set_op ?rev ! k) = dcr_derived_column col \<and>
        fst (snd (map column_spec ?rev ! k)) = dcr_event_column col \<and>
        rs_agg_alias (map column_set_op ?rev ! k) = snd (snd (map column_spec ?rev ! k)) \<and>
        (\<forall>x vs. sql_apply (rs_op_symbol (map column_set_op ?rev ! k))
             (foldl (forward_action (dcr_action col)) x vs)
             (sql_aggregate (fst (map column_spec ?rev ! k)) vs) = x)"
    by (intro allI impI) (use col nth_mem [of _ ?rev] in \<open>simp only: nth_map\<close>)
  show ?thesis
    by (rule exI [of _ "map column_spec ?rev"], rule exI [of _ "map column_set_op ?rev"])
      (use len all in \<open>simp only: reversal_columns_eq length_map simp_thms\<close>)
qed

theorem reversal_restores_column_witness:
  "\<exists>specs set_ops. reversal_columns (enumerate_from 0
       [\<lparr>dcr_derived_column = ''balance'', dcr_event_column = ''value'', dcr_action = Subtract\<rparr>]) =
       Inr (specs, set_ops) \<and> length specs = 1 \<and>
     sql_apply (rs_op_symbol (set_ops ! 0)) (foldl (forward_action Subtract) 100 [7, 5])
       (sql_aggregate (fst (specs ! 0)) [7, 5]) = 100"
proof -
  let ?c = "\<lparr>dcr_derived_column = ''balance'', dcr_event_column = ''value'', dcr_action = Subtract\<rparr>"
  from reversal_restores_column [of "[?c]"] obtain specs set_ops
    where r: "reversal_columns (enumerate_from 0 [?c]) = Inr (specs, set_ops)"
      and l: "length specs = length (filter reversible [?c])"
      and k: "\<forall>k<length specs. \<exists>col. col \<in> set [?c] \<and>
        (\<forall>x vs. sql_apply (rs_op_symbol (set_ops ! k)) (foldl (forward_action (dcr_action col)) x vs)
                  (sql_aggregate (fst (specs ! k)) vs) = x)" by blast
  have "length specs = 1" using l by (simp add: reversible_def)
  moreover from this k have all: "\<forall>x vs. sql_apply (rs_op_symbol (set_ops ! 0))
       (foldl (forward_action Subtract) x vs) (sql_aggregate (fst (specs ! 0)) vs) = x" by simp
  ultimately show ?thesis using r all [THEN spec, of 100, THEN spec, of "[7, 5]"] by blast
qed

section \<open>Every statement names its network\<close>

definition network_pred :: "string \<Rightarrow> string" where
  "network_pred network = ''network = '' @ squoted network"

definition scoped :: "string \<Rightarrow> string \<Rightarrow> bool" where
  "scoped network sql = (str_contains (network_pred network) sql \<or>
     str_contains (''VALUES ('' @ squoted network @ '', '') sql \<or>
     starts_with ''DROP TABLE IF EXISTS '' sql)"

lemma network_filter_pred: "network_filter t False = '' AND '' @ network_pred (rt_network t)"
  by (simp add: network_filter_def network_pred_def)

lemma scopedI: "str_contains (network_pred network) sql \<Longrightarrow> scoped network sql"
  by (simp add: scoped_def)

lemma dt_network: "'' AND dt.network = '' @ squoted n = '' AND dt.'' @ network_pred n"
  by (simp add: network_pred_def)

lemma contains_here: "str_contains p (p @ s)" "str_contains p p"
  by (auto simp: str_contains_iff)

lemmas contains_skip = str_contains_append(1)
lemmas contains_intros = scopedI str_contains_append str_contains_self

lemma scoped_build_select: "str_contains (network_pred (rt_network t)) (build_select t False op specs q)"
  unfolding build_select_def Let_def network_filter_pred
  by (simp only: append_assoc, (rule contains_here | rule contains_skip)+)

lemma scoped_pg_reversal:
  "\<not> sn_cross_chain snap \<Longrightarrow> scoped (sn_network snap) (pg_reversal_sql snap)"
  unfolding pg_reversal_sql_def Let_def dt_network
  by (rule scopedI) (simp only: if_False append_assoc, (rule contains_here | rule contains_skip)+)

lemma scoped_ch_reversal:
  assumes "\<not> sn_cross_chain snap"
  shows "scoped (sn_network snap) (ch_reversal_sql snap)"
proof -
  have "str_contains (network_pred (sn_network snap))
      (if f = [] then network_pred (sn_network snap) else network_pred (sn_network snap) @ g)" for f :: "string list" and g
    by (cases "f = []") (auto intro: contains_intros)
  with assms show ?thesis
    unfolding ch_reversal_sql_def Let_def network_pred_def [symmetric]
    by (simp only: if_False) (blast intro: contains_intros)
qed

lemma scoped_drop: "scoped n (drop_table_sql table)"
  by (simp add: scoped_def drop_table_sql_def starts_with_def)

lemma scoped_journal_deletes:
  "\<not> dt_cross_chain dt \<Longrightarrow> scoped (rt_network t) (journal_pg_delete_sql t dt)"
  "\<not> dt_cross_chain dt \<Longrightarrow> scoped (rt_network t) (journal_ch_delete_sql t dt)"
  "\<not> dt_cross_chain dt \<Longrightarrow> scoped (rt_network t) (derived_pg_delete_sql t dt)"
  "\<not> dt_cross_chain dt \<Longrightarrow> scoped (rt_network t) (derived_ch_delete_sql t dt)"
  unfolding journal_pg_delete_sql_def journal_ch_delete_sql_def derived_pg_delete_sql_def
    derived_ch_delete_sql_def
  by (rule scopedI, simp only: network_filter_pred append_assoc, (rule contains_here | rule contains_skip)+)+

lemma scoped_some: "Some x = Some sql \<Longrightarrow> scoped n x \<Longrightarrow> scoped n sql"
  by simp

lemma scoped_journal_pg_update:
  assumes "\<not> dt_cross_chain dt" and "journal_pg_update_sql t dt jc = Some sql"
  shows "scoped (rt_network t) sql"
proof -
  have f: "dt_cross_chain dt = False" using assms(1) by simp
  note u = assms(2) [unfolded journal_pg_update_sql_def Let_def f network_filter_pred]
  show ?thesis
  proof (cases "dcj_action jc")
    case Set_Act
    show ?thesis
      by (rule scoped_some [OF u [unfolded Set_Act set_action.case]], rule scopedI)
        (simp only: append_assoc, (rule contains_here | rule contains_skip)+)
  next
    case Max_Act
    show ?thesis
      by (rule scoped_some [OF u [unfolded Max_Act set_action.case]], rule scopedI)
        (simp only: append_assoc, (rule contains_here | rule contains_skip)+)
  next
    case Min_Act
    show ?thesis
      by (rule scoped_some [OF u [unfolded Min_Act set_action.case]], rule scopedI)
        (simp only: append_assoc, (rule contains_here | rule contains_skip)+)
  qed (use u in simp_all)
qed

lemma scoped_journal_ch_update:
  assumes "\<not> dt_cross_chain dt" and "journal_ch_update_sql t dt jc = Some sql"
  shows "scoped (rt_network t) sql"
proof -
  have f: "dt_cross_chain dt = False" using assms(1) by simp
  note u = assms(2) [unfolded journal_ch_update_sql_def Let_def f network_filter_pred]
  show ?thesis
  proof (cases "dcj_action jc")
    case Set_Act
    show ?thesis
      by (rule scoped_some [OF u [unfolded Set_Act set_action.case]], rule scopedI)
        (simp only: append_assoc, (rule contains_here | rule contains_skip)+)
  next
    case Max_Act
    show ?thesis
      by (rule scoped_some [OF u [unfolded Max_Act set_action.case]], rule scopedI)
        (simp only: append_assoc, (rule contains_here | rule contains_skip)+)
  next
    case Min_Act
    show ?thesis
      by (rule scoped_some [OF u [unfolded Min_Act set_action.case]], rule scopedI)
        (simp only: append_assoc, (rule contains_here | rule contains_skip)+)
  qed (use u in simp_all)
qed

text \<open>What a client must respect for a property \<open>P\<close> of the world to survive a task on \<open>network\<close>: every
  statement that names the network (in its text or among its parameters) keeps \<open>P\<close>, and so do the
  transaction brackets.\<close>

definition pg_respects :: "string \<Rightarrow> ('w \<Rightarrow> bool) \<Rightarrow> 'w pg_client \<Rightarrow> bool" where
  "pg_respects network P c =
     ((\<forall>sql. scoped network sql \<longrightarrow> io_keeps P (pg_batch_execute c sql)) \<and>
      (\<forall>sql ps. P_Text network \<in> set ps \<longrightarrow>
         io_keeps P (pg_tx_execute c sql ps) \<and> io_keeps P (pg_tx_query_hashes c sql ps)) \<and>
      io_keeps P (pg_begin c) \<and> io_keeps P (pg_commit c) \<and> (\<forall>w. P w \<longrightarrow> P (pg_drop_transaction c w)))"

definition ch_respects :: "string \<Rightarrow> ('w \<Rightarrow> bool) \<Rightarrow> 'w ch_client \<Rightarrow> bool" where
  "ch_respects network P c =
     (\<forall>sql. scoped network sql \<longrightarrow> io_keeps P (ch_execute c sql) \<and>
        io_keeps P (ch_query_detail_keys c sql) \<and> io_keeps P (ch_query_count_hashes c sql))"

lemma pg_respectsD:
  assumes "pg_respects n P c"
  shows "scoped n sql \<Longrightarrow> io_keeps P (pg_batch_execute c sql)"
    and "P_Text n \<in> set ps \<Longrightarrow> io_keeps P (pg_tx_execute c sql ps)"
    and "P_Text n \<in> set ps \<Longrightarrow> io_keeps P (pg_tx_query_hashes c sql ps)"
    and "io_keeps P (pg_begin c)" and "io_keeps P (pg_commit c)"
    and "P w \<Longrightarrow> P (pg_drop_transaction c w)"
  using assms by (auto simp: pg_respects_def)

lemma ch_respectsD:
  assumes "ch_respects n P c" and "scoped n sql"
  shows "io_keeps P (ch_execute c sql)" and "io_keeps P (ch_query_detail_keys c sql)"
    and "io_keeps P (ch_query_count_hashes c sql)"
  using assms by (auto simp: ch_respects_def)

lemma io_keeps_context [intro]: "io_keeps P m \<Longrightarrow> io_keeps P (with_context e m)"
  "io_keeps P n \<Longrightarrow> io_keeps P (context_all e n)"
  by (simp_all add: with_context_def context_all_def io_keeps_map_err)

lemma io_keeps_void [intro]: "io_keeps P m \<Longrightarrow> io_keeps P (io_void m)"
  unfolding io_void_def by blast

lemma ch_escape_validated: "validate_sql_value n kind = Inr u \<Longrightarrow> ch_escape n = n"
  unfolding ch_escape_def by (rule replace_char_absent) (auto simp: validate_sql_value_Inr)

lemma pg_body_keeps:
  assumes R: "\<And>sql ps. P_Text n \<in> set ps \<Longrightarrow> io_keeps P (pg_tx_execute c sql ps)"
    "\<And>sql ps. P_Text n \<in> set ps \<Longrightarrow> io_keeps P (pg_tx_query_hashes c sql ps)"
  shows "io_keeps P (pg_rollback_body c tables n f d corrected checkpoints)"
  unfolding pg_rollback_body_def pg_delete_events_def
  by (auto intro!: io_keeps_bind io_keeps_then io_keeps_for io_keeps_fold io_keeps_void R
      simp: pg_insert_corrected_def split: prod.splits)

lemma pg_rollback_keeps:
  assumes "pg_respects n P c"
  shows "io_keeps P (pg_reorg_rollback_transaction c tables n f d corrected checkpoints)"
proof -
  note R = pg_respectsD [OF assms]
  have body: "io_keeps P (pg_rollback_body c tables n f d corrected checkpoints)"
    by (rule pg_body_keeps) (rule R, assumption)+
  have "io_keeps P (\<lambda>w. case pg_rollback_body c tables n f d corrected checkpoints w of
              (Inl e, w') \<Rightarrow> (Inl e, pg_drop_transaction c w')
            | (Inr r, w') \<Rightarrow> io_then (pg_commit c) (io_ret r) w')"
    unfolding io_keeps_def
  proof (intro allI impI)
    fix w assume "P w"
    with body have "P (snd (pg_rollback_body c tables n f d corrected checkpoints w))"
      by (simp add: io_keeps_def)
    moreover have "io_keeps P (io_then (pg_commit c) (io_ret r))" for r :: "u64 \<times> string list"
      by (intro io_keeps_then R io_keeps_ret)
    ultimately show "P (snd (case pg_rollback_body c tables n f d corrected checkpoints w of
              (Inl e, w') \<Rightarrow> (Inl e, pg_drop_transaction c w')
            | (Inr r, w') \<Rightarrow> io_then (pg_commit c) (io_ret r) w'))"
      by (auto simp: io_keeps_def R(6) split: prod.splits sum.splits)
  qed
  then show ?thesis
    unfolding pg_reorg_rollback_transaction_def by (intro io_keeps_then R)
qed

lemma ch_rollback_keeps:
  assumes "ch_respects n P c" and "ch_escape n = n"
  shows "io_keeps P (ch_reorg_rollback c tables n f d checkpoints corrected)"
proof -
  note R = ch_respectsD [OF assms(1)]
  have values_assoc: "us @ ''VALUES ('' @ squoted n @ '', '' @ vs = (us @ (''VALUES ('' @ squoted n @ '', '')) @ vs" for us vs
    by simp
  have ins: "scoped n (us @ '' (network, detail_key, last_synced_block) VALUES ('' @ squoted n @ '', '' @ vs)" for us vs
  proof -
    have "us @ '' (network, detail_key, last_synced_block) VALUES ('' @ squoted n @ '', '' @ vs =
      (us @ '' (network, detail_key, last_synced_block) '') @ (''VALUES ('' @ squoted n @ '', '') @ vs" by simp
    then show ?thesis unfolding scoped_def by (metis str_contains_iff)
  qed
  have hash: "scoped n (ch_insert_hash_sql n b h p)" for b h p
  proof -
    have "ch_insert_hash_sql n b h p =
      (''INSERT INTO rindexer_internal.reorg_block_hashes '' @ ''(network, block_number, block_hash, parent_hash) '') @
      (''VALUES ('' @ squoted n @ '', '') @ show_word b @ '', '' @ squoted h @ '', '' @ squoted p @ '')''"
      by (simp add: ch_insert_hash_sql_def)
    then show ?thesis unfolding scoped_def by (metis str_contains_iff)
  qed
  have where_net: "scoped n (us @ '' WHERE network = '' @ squoted n @ vs)" for us vs
  proof -
    have "us @ '' WHERE network = '' @ squoted n @ vs = (us @ '' WHERE '') @ network_pred n @ vs"
      by (simp add: network_pred_def)
    then show ?thesis unfolding scoped_def by (metis str_contains_iff)
  qed
  have and_net: "scoped n (us @ '' AND network = '' @ squoted n @ vs)" for us vs
  proof -
    have "us @ '' AND network = '' @ squoted n @ vs = (us @ '' AND '') @ network_pred n @ vs"
      by (simp add: network_pred_def)
    then show ?thesis unfolding scoped_def by (metis str_contains_iff)
  qed
  have rewind: "io_keeps P (ch_rewind_checkpoint c n b table)" for b table
    unfolding ch_rewind_checkpoint_def Let_def assms(2)
    using where_net [of "''SELECT detail_key FROM rindexer_internal.'' @ table @ '' FINAL''" "[]"]
      where_net [of "''ALTER TABLE rindexer_internal.'' @ table @ '' DELETE''" "'' SETTINGS mutations_sync = 1''"]
      ins [of "''INSERT INTO rindexer_internal.'' @ table"]
    by (intro io_keeps_bind io_keeps_then io_keeps_for R) simp_all
  have count: "io_keeps P (ch_count_events c n f d x y)" for x y
    unfolding ch_count_events_def
    using and_net [of "''SELECT count() as c, groupArray(DISTINCT tx_hash) as hashes FROM '' @ fst x @ ''.'' @ snd x @
      '' WHERE block_number >= '' @ show_word f @ '' AND block_number <= '' @ show_word d" "[]"]
    by (cases x, cases y) (auto intro!: io_keeps_bind R split: prod.splits)
  have del: "io_keeps P (ch_delete_by_block_range c table n f d)" for table
    unfolding ch_delete_by_block_range_def
    using and_net [of "''ALTER TABLE '' @ table @ '' DELETE WHERE block_number >= '' @ show_word f @
       '' AND block_number <= '' @ show_word d" "'' SETTINGS mutations_sync = 1''"]
    by (intro R) simp
  show ?thesis
    unfolding ch_reorg_rollback_def
    by (auto intro!: io_keeps_bind io_keeps_then io_keeps_for io_keeps_fold rewind count del R hash
        split: prod.splits)
qed

definition snapshot_scoped :: "string \<Rightarrow> reversal_snapshot \<Rightarrow> bool" where
  "snapshot_scoped n snap = (sn_network snap = n \<and> \<not> sn_cross_chain snap)"

lemma snapshot_op_ensures:
  assumes "\<not> dt_cross_chain dt" and "list_all (snapshot_scoped (rt_network t)) (snd s)"
  shows "io_ensures (list_all (snapshot_scoped (rt_network t)) \<circ> snd) (snapshot_op t pg ch (dt, op) s)"
proof -
  have one: "snapshot_scoped (rt_network t) (make_snapshot b temp t dt op so)" for b temp so
    using assms(1) by (simp add: snapshot_scoped_def make_snapshot_def)
  have pg: "io_ensures (list_all (snapshot_scoped (rt_network t))) (snapshot_pg t pg dt op specs so base)"
    and ch: "io_ensures (list_all (snapshot_scoped (rt_network t))) (snapshot_ch t ch dt op specs so base)"
    for specs so base
    unfolding snapshot_pg_def snapshot_ch_def Let_def
    by (auto intro!: io_ensures_then io_ensures_ret one split: option.splits)
  show ?thesis
    using assms(2) unfolding snapshot_op_def Let_def
    by (cases s; cases "reversal_columns (enumerate_from 0 (op_columns op))")
      (auto intro!: io_ensures_bind [OF pg] io_ensures_bind [OF ch] io_ensures_ret io_ensures_fail)
qed

lemma snapshot_op_keeps:
  assumes "\<not> dt_cross_chain dt"
    and pg: "\<And>c. pg = Some c \<Longrightarrow> pg_respects (rt_network t) P c"
    and ch: "\<And>c. ch = Some c \<Longrightarrow> ch_respects (rt_network t) P c"
  shows "io_keeps P (snapshot_op t pg ch (dt, op) s)"
proof -
  have sel: "str_contains (network_pred (rt_network t)) (build_select t (dt_cross_chain dt) op specs q)" for specs q
    using assms(1) scoped_build_select by simp
  have "scoped (rt_network t) (snapshot_pg_sql t dt op specs temp)"
    and "scoped (rt_network t) (snapshot_ch_sql t dt op specs temp)" for temp specs
    unfolding snapshot_pg_sql_def snapshot_ch_sql_def by (intro scopedI str_contains_append(1) sel)+
  then have "io_keeps P (snapshot_pg t pg dt op specs so base)"
    and "io_keeps P (snapshot_ch t ch dt op specs so base)" for specs so base
    unfolding snapshot_pg_def snapshot_ch_def Let_def
    by (auto intro!: io_keeps_then io_keeps_context pg_respectsD(1) [OF pg] ch_respectsD(1) [OF ch]
        io_keeps_ret split: option.splits)
  then show ?thesis
    unfolding snapshot_op_def Let_def
    by (cases s; cases "reversal_columns (enumerate_from 0 (op_columns op))")
      (auto intro!: io_keeps_bind io_keeps_ret io_keeps_fail split: prod.splits)
qed

lemma apply_reversal_keeps:
  assumes "snapshot_scoped n snap"
    and pg: "\<And>c. pg = Some c \<Longrightarrow> pg_respects n P c"
    and ch: "\<And>c. ch = Some c \<Longrightarrow> ch_respects n P c"
  shows "io_keeps P (apply_reversal pg ch snap)"
  using assms(1) scoped_pg_reversal [of snap] scoped_ch_reversal [of snap] scoped_drop [of n]
  unfolding apply_reversal_def snapshot_scoped_def
  by (cases "sn_backend snap")
    (auto intro!: io_keeps_opt io_keeps_then io_keeps_context io_keeps_ignore
      pg_respectsD(1) [OF pg] ch_respectsD(1) [OF ch])

lemma recalculate_keeps:
  assumes "\<not> dt_cross_chain dt"
    and pg: "\<And>c. pg = Some c \<Longrightarrow> pg_respects (rt_network t) P c"
    and ch: "\<And>c. ch = Some c \<Longrightarrow> ch_respects (rt_network t) P c"
  shows "io_keeps P (recalculate_table t pg ch dt)" and "io_keeps P (delete_derived_rows t pg ch dt)"
  unfolding recalculate_table_def recalculate_column_def delete_derived_rows_def
  using assms(1)
  by (auto intro!: io_keeps_opt io_keeps_then io_keeps_context io_keeps_for io_keeps_ret
      pg_respectsD(1) [OF pg] ch_respectsD(1) [OF ch] scoped_journal_deletes
      intro: scoped_journal_pg_update scoped_journal_ch_update)


text \<open>A database that only records the statements it is sent.\<close>

definition log_pg :: "string list pg_client" where
  "log_pg = \<lparr>pg_batch_execute = (\<lambda>sql log. (Inr (), log @ [sql])), pg_begin = io_ret (),
     pg_tx_query_hashes = (\<lambda>_ _. io_ret []), pg_tx_execute = (\<lambda>_ _. io_ret 1),
     pg_commit = io_ret (), pg_drop_transaction = (\<lambda>log. log)\<rparr>"

definition log_ch :: "string list ch_client" where
  "log_ch = \<lparr>ch_execute = (\<lambda>sql log. (Inr (), log @ [sql])),
     ch_query_detail_keys = (\<lambda>sql log. (Inr [''__event__''], log @ [sql])),
     ch_query_count_hashes = (\<lambda>sql log. (Inr (1, [''0xaa'']), log @ [sql]))\<rparr>"

definition sample_task :: reorg_task where
  "sample_task = \<lparr>rt_network = ''ethereum'', rt_fork_point = 11, rt_detection_point = 12,
     rt_event_tables = [\<lparr>et_schema = ''s'', et_table_name = ''transfer'', et_full_name = ''s.transfer'',
        et_checkpoint_table = ''s_transfer'', et_indexer_name = ''s'', et_contract_name = ''c'',
        et_event_name = ''Transfer''\<rparr>],
     rt_derived_tables = [\<lparr>dt_full_table_name = ''s.balances'', dt_cross_chain = False,
        dt_rollback_ops = [\<lparr>op_event_table = ''s.transfer'', op_where_columns = [(''owner'', ''to'')],
          op_columns = [\<lparr>dcr_derived_column = ''balance'', dcr_event_column = ''value'', dcr_action = Add\<rparr>],
          op_condition = None\<rparr>],
        dt_journal_columns = [\<lparr>dcj_derived_column = ''largest'', dcj_action = Max_Act,
          dcj_where_columns = [''owner'']\<rparr>]\<rparr>],
     rt_canonical_blocks = [(10, 100, 90), (11, 111, 100)]\<rparr>"


section \<open>The window after a task\<close>

lemma task_execute_InrD:
  assumes "task_execute fmt t window pg ch provider w = (Inr (window', r), w')"
  obtains canonical w1 where "task_canonical t provider w = (Inr canonical, w1)"
    and "window' = task_window t canonical window"
    and "rr_affected_tables r = map affected_table_of (rt_event_tables t)"
    and "validate_sql_value (rt_network t) ''reorg task network'' = Inr ()"
  using assms by (auto simp: task_execute_def Let_def io_bind_eq_Inr io_then_eq_Inr split: prod.splits)

lemma task_canonical_range:
  assumes "task_canonical t provider w = (Inr canonical, w1)"
    and "\<And>fetch ns v bs v'. provider = Some fetch \<Longrightarrow> fetch ns v = (Inr bs, v') \<Longrightarrow> rb_number ` set bs \<subseteq> set ns"
    and "(n, h, p) \<in> set canonical"
  shows "rt_fork_point t \<le> n \<and> n \<le> rt_detection_point t"
proof (cases "rt_canonical_blocks t = [] \<and> provider \<noteq> None")
  case True
  then obtain fetch where fetch: "provider = Some fetch" by blast
  let ?ns = "u64_range_incl (rt_fork_point t) (rt_detection_point t)"
  from assms(1) True fetch obtain r v where rv: "fetch ?ns w = (r, v)"
    and c: "canonical = (case r of Inr bs \<Rightarrow> map (\<lambda>b. (rb_number b, rb_hash b, rb_parent_hash b)) bs | Inl _ \<Rightarrow> [])"
    by (cases "fetch ?ns w") (auto simp: task_canonical_def split: sum.splits)
  from c assms(3) obtain bs where r: "r = Inr bs" and b: "n \<in> rb_number ` set bs"
    by (cases r) auto
  from assms(2) [OF fetch rv [unfolded r]] b have "n \<in> set ?ns" by blast
  then show ?thesis by (simp add: set_u64_range_incl)
qed (use assms(1,3) in \<open>auto simp: task_canonical_def split: if_splits\<close>)

lemma task_window_below:
  assumes run: "task_execute fmt t window pg ch provider w = (Inr (window', r), w')"
    and sorted: "wnd_sorted window"
    and node: "\<And>fetch ns v bs v'. provider = Some fetch \<Longrightarrow> fetch ns v = (Inr bs, v') \<Longrightarrow>
                 rb_number ` set bs \<subseteq> set ns"
    and n: "n < rt_fork_point t"
  shows "wnd_get window' n = wnd_get window n"
proof -
  obtain canonical w1 where c: "task_canonical t provider w = (Inr canonical, w1)"
    and w': "window' = task_window t canonical window"
    using task_execute_InrD [OF run] by metis
  have "n \<notin> fst ` set canonical"
    using task_canonical_range [OF c node] n by force
  then show ?thesis
    using sorted n by (auto simp: w' task_window_def wnd_get_remove_from wnd_get_update_range_other)
qed

lemma task_window_canonical:
  assumes run: "task_execute fmt t window pg ch provider w = (Inr (window', r), w')"
    and sorted: "wnd_sorted window"
    and that: "distinct (map fst (rt_canonical_blocks t))" "(n, h, p) \<in> set (rt_canonical_blocks t)"
      "rt_fork_point t \<le> n" "n \<le> rt_detection_point t"
  shows "wnd_get window' n = Some (h, p)"
proof -
  obtain canonical w1 where c: "task_canonical t provider w = (Inr canonical, w1)"
    and w': "window' = task_window t canonical window"
    using task_execute_InrD [OF run] by metis
  have canon: "canonical = filter (\<lambda>(n, _, _). rt_fork_point t \<le> n \<and> n \<le> rt_detection_point t) (rt_canonical_blocks t)"
    using c that(2) by (auto simp: task_canonical_def split: if_splits)
  then have mem: "(n, h, p) \<in> set canonical" and "distinct (map fst canonical)"
    using that by (auto simp: distinct_map_filter)
  with sorted show ?thesis
    by (auto simp: w' task_window_def wnd_get_update_range)
qed

text \<open>After a successful task the window is untouched below the fork point; without canonical blocks
  nothing at or above the fork point is left in it, and with the canonical blocks the detector
  fetched, each of them between fork and detection point is stored. The node is assumed to answer a
  batch request with blocks it was asked for.\<close>

theorem reorg_task_window:
  assumes run: "task_execute fmt t window pg ch provider w = (Inr (window', r), w')"
    and sorted: "wnd_sorted window"
    and node: "\<And>fetch ns v bs v'. provider = Some fetch \<Longrightarrow> fetch ns v = (Inr bs, v') \<Longrightarrow>
                 rb_number ` set bs \<subseteq> set ns"
  shows "wnd_sorted window' \<and>
    (\<forall>n<rt_fork_point t. wnd_get window' n = wnd_get window n) \<and>
    (rt_canonical_blocks t = [] \<and> provider = None \<longrightarrow>
       (\<forall>n\<ge>rt_fork_point t. wnd_get window' n = None)) \<and>
    (distinct (map fst (rt_canonical_blocks t)) \<longrightarrow>
       (\<forall>n h p. (n, h, p) \<in> set (rt_canonical_blocks t) \<longrightarrow> rt_fork_point t \<le> n \<longrightarrow>
          n \<le> rt_detection_point t \<longrightarrow> wnd_get window' n = Some (h, p)))"
proof -
  obtain canonical w1 where c: "task_canonical t provider w = (Inr canonical, w1)"
    and w': "window' = task_window t canonical window"
    using task_execute_InrD [OF run] by metis
  have below: "\<forall>n<rt_fork_point t. wnd_get window' n = wnd_get window n"
    by (intro allI impI, rule task_window_below [OF run sorted]; (rule node)?; assumption)
  have "wnd_sorted window'"
    using sorted by (auto simp: w' task_window_def)
  moreover have "\<forall>n\<ge>rt_fork_point t. wnd_get window' n = None"
    if "rt_canonical_blocks t = []" "provider = None"
    using c that by (auto simp: w' task_canonical_def task_window_def wnd_get_remove_from)
  moreover note task_window_canonical [OF run sorted]
  ultimately show ?thesis using below by blast
qed

lemma snapshot_op_without_databases: "\<exists>i. snapshot_op t None None x (k, s) w = (Inr (i, s), w)"
proof -
  obtain dt op where x: "x = (dt, op)" by fastforce
  let ?skip = "filter (reversible \<circ> snd) (enumerate_from 0 (op_columns op)) = []"
  have "snapshot_op t None None x (k, s) w = (Inr (if ?skip then k else Suc k, s), w)"
    by (simp add: x snapshot_op_def reversal_columns_eq Let_def snapshot_pg_def snapshot_ch_def)
  then show ?thesis by blast
qed

lemma snapshot_fold_without_databases:
  "\<exists>i. io_fold (snapshot_op t None None) xs (k, s) w = (Inr (i, s), w)"
proof (induction xs arbitrary: k)
  case (Cons x xs)
  obtain i where "snapshot_op t None None x (k, s) w = (Inr (i, s), w)"
    by (rule exE [OF snapshot_op_without_databases])
  with Cons show ?case by (simp add: io_bind_Inr)
qed simp

lemma snapshot_without_databases: "snapshot_for_reversal t None None w = (Inr [], w)"
proof -
  obtain i where "io_fold (snapshot_op t None None)
      (concat (map (\<lambda>dt. map (Pair dt) (dt_rollback_ops dt)) (rt_derived_tables t))) (0, []) w = (Inr (i, []), w)"
    by (rule exE [OF snapshot_fold_without_databases])
  then show ?thesis by (simp add: snapshot_for_reversal_def io_bind_Inr)
qed

lemma io_for_ret: "(\<And>x. x \<in> set xs \<Longrightarrow> f x = io_ret ()) \<Longrightarrow> io_for f xs = io_ret ()"
  by (induction xs) simp_all

lemma no_database_steps:
  "recalculate_from_journal t None None = io_ret ()" "delete_derived_rows t None None dt = io_ret ()"
  "io_for (delete_derived_rows t None None) dts = io_ret ()"
  by (auto simp: recalculate_from_journal_def recalculate_table_def recalculate_column_def delete_derived_rows_def
      io_opt_def intro!: io_for_ret)

lemma task_without_databases:
  assumes "validate_sql_value (rt_network t) ''reorg task network'' = Inr ()"
    and "task_canonical t provider w = (Inr canonical, w1)"
  shows "task_execute fmt t window None None provider w =
     (Inr (task_window t canonical window,
        \<lparr>rr_events_deleted = 0, rr_affected_tx_hashes = [],
         rr_affected_tables = map affected_table_of (rt_event_tables t)\<rparr>), w1)"
  using assms snapshot_without_databases [of t w1]
  by (simp add: task_execute_def io_then_def io_bind_def rollback_postgres_def rollback_clickhouse_def
      apply_reversal_from_snapshots_def context_all_def no_database_steps)

lemma ethereum_is_plain: "validate_sql_value ''ethereum'' k = Inr ()"
  by (simp add: validate_sql_value_Inr sql_value_char_def is_ascii_alphanumeric_def is_ascii_alphabetic_def
      char_in_def)

lemma sample_task_run:
  "task_execute fmt sample_task sample_window None None None () =
     (Inr (task_window sample_task [(11, 111, 100)] sample_window,
        \<lparr>rr_events_deleted = 0, rr_affected_tx_hashes = [],
         rr_affected_tables = map affected_table_of (rt_event_tables sample_task)\<rparr>), ())"
  by (rule task_without_databases)
    (simp_all add: ethereum_is_plain sample_task_def task_canonical_def)

theorem reorg_task_window_witness:
  "\<exists>window' r. task_execute (\<lambda>_. ''0x0'') sample_task sample_window None None None () =
     (Inr (window', r), ()) \<and> wnd_get window' 11 = Some (111, 100) \<and> wnd_get window' 10 = Some (100, 90)"
proof -
  have sorted: "wnd_sorted sample_window"
    by (simp add: wnd_sorted_def sample_window_def bt_invar_def)
  from reorg_task_window [OF sample_task_run sorted]
  have "wnd_get (task_window sample_task [(11, 111, 100)] sample_window) 11 = Some (111, 100)"
    "wnd_get (task_window sample_task [(11, 111, 100)] sample_window) 10 = wnd_get sample_window 10"
    by (simp_all add: sample_task_def)
  moreover have "wnd_get sample_window 10 = Some (100, 90)"
    by (simp add: wnd_get_def sample_window_def bt_get_def)
  ultimately show ?thesis using sample_task_run by fastforce
qed

section \<open>All or nothing in PostgreSQL\<close>


text \<open>A database with one committed log and one log of the open transaction, whose third statement
  in a transaction fails.\<close>

definition failing_pg :: "(string list \<times> string list) pg_client" where
  "failing_pg = \<lparr>pg_batch_execute = (\<lambda>sql (com, tx). (Inr (), (com @ [sql], tx))),
     pg_begin = (\<lambda>(com, tx). (Inr (), (com, []))),
     pg_tx_query_hashes = (\<lambda>sql _ (com, tx). (Inr [''0xbb'', ''0xbb''], (com, tx @ [sql]))),
     pg_tx_execute = (\<lambda>sql _ (com, tx). if length tx = 2 then (Inl ''disk full'', (com, tx))
                       else (Inr 1, (com, tx @ [sql]))),
     pg_commit = (\<lambda>(com, tx). (Inr (), (com @ tx, []))),
     pg_drop_transaction = (\<lambda>(com, tx). (com, []))\<rparr>"


lemma i64_try_from_Inr: "i64_try_from msg n = Inr k \<Longrightarrow> k = n \<and> unat n < 2 ^ 63"
  by (simp add: i64_try_from_def split: if_splits)

lemma pg_insert_corrected_bounds:
  "io_for (pg_insert_corrected c network) bs v = (Inr u, v') \<Longrightarrow> list_all (\<lambda>(n, _, _). unat n < 2 ^ 63) bs"
proof (induction bs arbitrary: v)
  case (Cons b bs)
  then show ?case
    by (cases b) (auto simp: io_then_eq_Inr io_bind_eq_Inr pg_insert_corrected_def dest!: i64_try_from_Inr)
qed simp

text \<open>A successful rollback reports every affected transaction hash once, in ascending order, and
  was asked about block numbers the database's signed 64-bit columns can hold.\<close>

theorem pg_rollback_result:
  assumes "pg_reorg_rollback_transaction c tables network f d corrected checkpoints w = (Inr (deleted, hashes), w')"
  shows "sorted_wrt (<) hashes \<and> unat f < 2 ^ 63 \<and> unat d < 2 ^ 63 \<and>
    list_all (\<lambda>(n, _, _). unat n < 2 ^ 63) corrected"
proof -
  let ?body = "pg_rollback_body c tables network f d corrected checkpoints"
  from assms obtain w0 where run: "(case ?body w0 of (Inl e, w') \<Rightarrow> (Inl e, pg_drop_transaction c w')
      | (Inr r, w') \<Rightarrow> io_then (pg_commit c) (io_ret r) w') = (Inr (deleted, hashes), w')"
    unfolding pg_reorg_rollback_transaction_def io_then_eq_Inr by blast
  obtain r1 w1 where split: "?body w0 = (r1, w1)" by (rule prod.exhaust)
  have body: "?body w0 = (Inr (deleted, hashes), w1)"
    using run unfolding split by (cases r1) (simp_all add: io_then_eq_Inr)
  show ?thesis
    using body pg_insert_corrected_bounds unfolding pg_rollback_body_def
    by (auto simp: io_bind_eq_Inr io_then_eq_Inr remdups_adj_sorted_strict dest!: i64_try_from_Inr
        split: prod.splits)
qed

theorem pg_rollback_result_witness:
  "\<exists>w'. pg_reorg_rollback_transaction failing_pg [''s.transfer''] ''ethereum'' 11 12 [] []
     ([], []) = (Inr (2, [''0xbb'']), w') \<and> sorted_wrt (<) [''0xbb''] \<and> unat (11 :: u64) < 2 ^ 63"
proof -
  have "\<exists>w'. pg_reorg_rollback_transaction failing_pg [''s.transfer''] ''ethereum'' 11 12 [] [] ([], []) =
      (Inr (2, [''0xbb'']), w')"
    by (simp add: pg_reorg_rollback_transaction_def pg_rollback_body_def pg_delete_events_def io_then_def
        io_bind_def io_void_def i64_try_from_def pg_insert_corrected_def failing_pg_def)
  then obtain w' where run: "pg_reorg_rollback_transaction failing_pg [''s.transfer''] ''ethereum'' 11 12 [] []
      ([], []) = (Inr (2, [''0xbb'']), w')" by blast
  from pg_rollback_result [OF run] run show ?thesis by blast
qed

end
