(* ===== verification/Finalized_Buffer.thy ===== *)
theory Finalized_Buffer
  imports Ordered_Map "HOL-Library.Sublist"
begin

text \<open>
  \<open>FinalizedBuffer\<close> of \<open>core/src/streams/clients.rs\<close>: the buffer that holds the events of a stream
  with \<open>delivery: finalized\<close> per source block until the block is \<open>reorg_safe_distance\<close> below the
  head, and from which a reorg removes the reverted span. \<open>delivery_buffer\<close> states what the
  streams and the reorg coordinator rely on; its lemmas are about any sequence of operations.
\<close>

section \<open>The buffer\<close>

type_synonym 'v finalized_buffer = "(u64 \<times> 'v list) list"

definition bt_split_off :: "'k::linorder \<Rightarrow> ('k \<times> 'v) list \<Rightarrow> ('k \<times> 'v) list \<times> ('k \<times> 'v) list" where
  "bt_split_off k m = (bt_retain (\<lambda>j. j < k) m, bt_retain (\<lambda>j. k \<le> j) m)"

definition bt_remove :: "'k::linorder \<Rightarrow> ('k \<times> 'v) list \<Rightarrow> ('k \<times> 'v) list" where
  "bt_remove k m = bt_retain (\<lambda>j. j \<noteq> k) m"

definition or_default :: "'v list option \<Rightarrow> 'v list" where
  "or_default x = (case x of None \<Rightarrow> [] | Some vs \<Rightarrow> vs)"

definition fb_new :: "'v finalized_buffer" where
  "fb_new = []"

definition fb_add :: "'v finalized_buffer \<Rightarrow> u64 \<Rightarrow> 'v list \<Rightarrow> 'v finalized_buffer" where
  "fb_add b block_number events = bt_insert block_number (or_default (bt_get b block_number) @ events) b"

definition fb_flush :: "'v finalized_buffer \<Rightarrow> u64 \<Rightarrow> u64 \<Rightarrow> (u64 \<times> 'v list) list \<times> 'v finalized_buffer" where
  "fb_flush b current_head reorg_safe_distance =
     (let finality_threshold = saturating_sub current_head reorg_safe_distance;
          cutoff = saturating_add finality_threshold 1;
          (drained, keep) = bt_split_off cutoff b
      in (drained, keep))"

definition fb_discard_range :: "'v finalized_buffer \<Rightarrow> u64 \<Rightarrow> u64 \<Rightarrow> 'v finalized_buffer" where
  "fb_discard_range b fork_point detection_point =
     (let keys_to_remove = filter (\<lambda>k. fork_point \<le> k \<and> k \<le> detection_point) (bt_keys b)
      in fold bt_remove keys_to_remove b)"

definition fb_len :: "'v finalized_buffer \<Rightarrow> nat" where
  "fb_len b = sum_list (map (length \<circ> snd) b)"

definition fb_events :: "'v finalized_buffer \<Rightarrow> u64 \<Rightarrow> 'v list" where
  "fb_events b n = or_default (bt_get b n)"

section \<open>The contract of a delivery buffer\<close>

definition delivered :: "(u64 \<times> 'v list) list \<Rightarrow> u64 \<Rightarrow> 'v list" where
  "delivered out n = concat (map snd (filter (\<lambda>(k, _). k = n) out))"

definition final_at :: "u64 \<Rightarrow> u64 \<Rightarrow> u64 \<Rightarrow> bool" where
  "final_at head distance n = (unat n \<le> unat head - unat distance \<and> n \<noteq> - 1)"

datatype 'v buffer_op =
    Add_Op u64 "'v list"
  | Flush_Op u64 u64
  | Discard_Op u64 u64

fun buffer_run ::
  "('b \<Rightarrow> u64 \<Rightarrow> 'v list \<Rightarrow> 'b) \<Rightarrow> ('b \<Rightarrow> u64 \<Rightarrow> u64 \<Rightarrow> (u64 \<times> 'v list) list \<times> 'b) \<Rightarrow>
     ('b \<Rightarrow> u64 \<Rightarrow> u64 \<Rightarrow> 'b) \<Rightarrow> 'v buffer_op list \<Rightarrow> 'b \<Rightarrow> (u64 \<times> 'v list) list \<times> 'b" where
  "buffer_run add flush discard [] b = ([], b)"
| "buffer_run add flush discard (Add_Op n evs # ops) b = buffer_run add flush discard ops (add b n evs)"
| "buffer_run add flush discard (Flush_Op h d # ops) b =
     (let (out, b') = flush b h d; (out', b'') = buffer_run add flush discard ops b' in (out @ out', b''))"
| "buffer_run add flush discard (Discard_Op f d # ops) b = buffer_run add flush discard ops (discard b f d)"

fun added :: "'v buffer_op list \<Rightarrow> u64 \<Rightarrow> 'v list" where
  "added [] n = []"
| "added (Add_Op k evs # ops) n = (if k = n then evs else []) @ added ops n"
| "added (_ # ops) n = added ops n"

fun spares :: "u64 \<Rightarrow> 'v buffer_op \<Rightarrow> bool" where
  "spares n (Discard_Op f d) = (\<not> (f \<le> n \<and> n \<le> d))"
| "spares n _ = True"

lemma delivered_Nil [simp]: "delivered [] n = []"
  by (simp add: delivered_def)

lemma delivered_append [simp]: "delivered (xs @ ys) n = delivered xs n @ delivered ys n"
  by (simp add: delivered_def)

locale delivery_buffer =
  fixes held :: "'b \<Rightarrow> u64 \<Rightarrow> 'v list"
    and add :: "'b \<Rightarrow> u64 \<Rightarrow> 'v list \<Rightarrow> 'b"
    and flush :: "'b \<Rightarrow> u64 \<Rightarrow> u64 \<Rightarrow> (u64 \<times> 'v list) list \<times> 'b"
    and discard :: "'b \<Rightarrow> u64 \<Rightarrow> u64 \<Rightarrow> 'b"
    and invar :: "'b \<Rightarrow> bool"
  assumes held_add: "invar b \<Longrightarrow> held (add b k evs) n = held b n @ (if k = n then evs else [])"
    and flush_out: "invar b \<Longrightarrow> delivered (fst (flush b h d)) n = (if final_at h d n then held b n else [])"
    and flush_held: "invar b \<Longrightarrow> held (snd (flush b h d)) n = (if final_at h d n then [] else held b n)"
    and held_discard: "invar b \<Longrightarrow> held (discard b f d) n = (if f \<le> n \<and> n \<le> d then [] else held b n)"
    and invar_add: "invar b \<Longrightarrow> invar (add b k evs)"
    and invar_flush: "invar b \<Longrightarrow> invar (snd (flush b h d))"
    and invar_discard: "invar b \<Longrightarrow> invar (discard b f d)"
begin

lemma run_conserves:
  "invar b \<Longrightarrow> buffer_run add flush discard ops b = (out, b') \<Longrightarrow> list_all (spares n) ops \<Longrightarrow>
     delivered out n @ held b' n = held b n @ added ops n"
proof (induction ops arbitrary: b out)
  case (Cons x ops)
  show ?case
  proof (cases x)
    case (Add_Op k evs)
    with Cons.prems Cons.IH [of "add b k evs" out] show ?thesis
      by (simp add: invar_add held_add)
  next
    case (Flush_Op h d)
    obtain o1 b1 where f: "flush b h d = (o1, b1)" by (rule prod.exhaust)
    obtain o2 b2 where r: "buffer_run add flush discard ops b1 = (o2, b2)" by (rule prod.exhaust)
    from Cons.prems Flush_Op f r have "out = o1 @ o2" "b' = b2" "list_all (spares n) ops" by simp_all
    moreover have "invar b1" using invar_flush [of b h d] Cons.prems f by simp
    ultimately have "delivered o2 n @ held b' n = held b1 n @ added ops n"
      using Cons.IH r by simp
    with flush_out [of b h d n] flush_held [of b h d n] Cons.prems f Flush_Op \<open>out = o1 @ o2\<close>
    show ?thesis by (auto split: if_splits)
  next
    case (Discard_Op f d)
    with Cons.prems Cons.IH [of "discard b f d" out] show ?thesis
      by (auto simp: invar_discard held_discard)
  qed
qed simp

lemma run_subseq:
  "invar b \<Longrightarrow> buffer_run add flush discard ops b = (out, b') \<Longrightarrow>
     subseq (delivered out n @ held b' n) (held b n @ added ops n)"
proof (induction ops arbitrary: b out)
  case (Cons x ops)
  show ?case
  proof (cases x)
    case (Add_Op k evs)
    with Cons.prems Cons.IH [of "add b k evs" out] show ?thesis
      by (simp add: invar_add held_add)
  next
    case (Flush_Op h d)
    obtain o1 b1 where f: "flush b h d = (o1, b1)" by (rule prod.exhaust)
    obtain o2 b2 where r: "buffer_run add flush discard ops b1 = (o2, b2)" by (rule prod.exhaust)
    from Cons.prems Flush_Op f r have out: "out = o1 @ o2" "b' = b2" by simp_all
    have "invar b1" using invar_flush [of b h d] Cons.prems f by simp
    then have "subseq (delivered o2 n @ held b' n) (held b1 n @ added ops n)"
      using Cons.IH r out by simp
    moreover have "held b n = delivered o1 n @ held b1 n"
      using flush_out [of b h d n] flush_held [of b h d n] Cons.prems f by (auto split: if_splits)
    ultimately show ?thesis using Flush_Op out by (simp add: list_emb_append_mono)
  next
    case (Discard_Op f d)
    have "subseq (held (discard b f d) n) (held b n)"
      using Cons.prems by (simp add: held_discard)
    then have "subseq (held (discard b f d) n @ added ops n) (held b n @ added ops n)" by simp
    then have "subseq (delivered out n @ held b' n) (held b n @ added ops n)"
      if "subseq (delivered out n @ held b' n) (held (discard b f d) n @ added ops n)"
      by (rule subseq_order.order_trans [OF that])
    moreover have "subseq (delivered out n @ held b' n) (held (discard b f d) n @ added ops n)"
      using Cons.prems Cons.IH [of "discard b f d" out] Discard_Op by (simp add: invar_discard)
    ultimately show ?thesis
      using Discard_Op by simp
  qed
qed simp

lemma discarded_not_delivered:
  assumes "invar b" and "f \<le> n" "n \<le> d" and "buffer_run add flush discard ops (discard b f d) = (out, b')"
  shows "subseq (delivered out n) (added ops n)"
proof -
  have "subseq (delivered out n @ held b' n) (held (discard b f d) n @ added ops n)"
    using assms by (intro run_subseq invar_discard)
  moreover have "held (discard b f d) n = []" using assms by (simp add: held_discard)
  ultimately show ?thesis
    by (metis append_Nil subseq_order.order_trans subseq_rev_drop_many subseq_order.order_refl)
qed

end

section \<open>The code's buffer keeps the contract\<close>

lemma fold_bt_remove: "fold bt_remove ks m = bt_retain (\<lambda>j. j \<notin> set ks) m"
proof (induction ks arbitrary: m)
  case Nil
  then show ?case by (simp add: bt_retain_def)
next
  case (Cons k ks)
  then show ?case by (simp add: bt_remove_def bt_retain_def) (rule filter_cong, auto)
qed

lemma fb_discard_range_eq: "fb_discard_range b f d = bt_retain (\<lambda>k. \<not> (f \<le> k \<and> k \<le> d)) b"
  unfolding fb_discard_range_def Let_def fold_bt_remove bt_retain_def bt_keys_def
  by (rule filter_cong) (force simp: image_iff)+

lemma below_cutoff: "n < saturating_add (saturating_sub h d) 1 \<longleftrightarrow> final_at h d n"
proof -
  let ?t = "saturating_sub h d"
  show ?thesis
  proof (cases "unat ?t + 1 < 2 ^ 64")
    case True
    then have "unat (?t + 1) = Suc (unat ?t)"
      by (simp add: unat_word_ariths del: unat_saturating_sub)
    moreover from True have "saturating_add ?t 1 = ?t + 1"
      by (simp add: saturating_add_def del: unat_saturating_sub)
    moreover have "n = - 1 \<Longrightarrow> unat n = 2 ^ 64 - 1" by (simp add: unsigned_minus_1_eq_mask mask_eq_exp_minus_1)
    ultimately show ?thesis using True
      by (auto simp: final_at_def word_less_nat_alt less_Suc_eq_le)
  next
    case False
    then have "saturating_add ?t 1 = - 1" "unat h - unat d \<ge> 2 ^ 64 - 1"
      by (simp_all add: saturating_add_def)
    moreover have "unat n \<le> 2 ^ 64 - 1" using unsigned_less [of n, where 'a = nat] by simp
    ultimately show ?thesis
      by (auto simp: final_at_def not_less word_order.not_eq_extremum)
  qed
qed

lemma fb_flush_eq:
  "fb_flush b h d = (bt_retain (final_at h d) b, bt_retain (\<lambda>k. \<not> final_at h d k) b)"
  unfolding fb_flush_def bt_split_off_def Let_def below_cutoff [symmetric] not_less by simp

lemma delivered_bt: "bt_invar out \<Longrightarrow> delivered out n = or_default (bt_get out n)"
proof (induction out)
  case (Cons x out)
  have "filter (\<lambda>(k, _). k = n) out = []" if "bt_invar (x # out)" "fst x = n"
    using that by (auto simp: bt_invar_def filter_empty_conv)
  with Cons show ?case
    by (auto simp: delivered_def bt_get_def bt_invar_def or_default_def)
qed (simp add: delivered_def or_default_def)

interpretation fb: delivery_buffer fb_events fb_add fb_flush fb_discard_range bt_invar
proof
  fix b :: "'v finalized_buffer" and n k h d f :: u64 and evs :: "'v list"
  assume inv: "bt_invar b"
  then show "fb_events (fb_add b k evs) n = fb_events b n @ (if k = n then evs else [])"
    by (simp add: fb_events_def fb_add_def or_default_def)
  from inv have "bt_invar (bt_retain (final_at h d) b)" by simp
  then show "delivered (fst (fb_flush b h d)) n = (if final_at h d n then fb_events b n else [])"
    by (simp add: fb_flush_eq delivered_bt fb_events_def or_default_def)
qed (simp_all add: fb_events_def fb_flush_eq fb_discard_range_eq or_default_def fb_add_def)

section \<open>What the delivery of a stream rests on\<close>



text \<open>C22: An event of a reverted block does not escape: once \<open>[f, d]\<close> has been discarded, whatever is
  delivered later for a block of that span, under any further operations, was added after the
  discard; blocks outside the span keep their events.\<close>

theorem discarded_span_never_delivered:
  assumes "bt_invar b" and "f \<le> n" and "n \<le> d"
    and "buffer_run fb_add fb_flush fb_discard_range ops (fb_discard_range b f d) = (out, b')"
  shows "subseq (delivered out n) (added ops n) \<and>
    fb_events (fb_discard_range b f d) n = [] \<and>
    (\<forall>k. \<not> (f \<le> k \<and> k \<le> d) \<longrightarrow> fb_events (fb_discard_range b f d) k = fb_events b k)"
  using fb.discarded_not_delivered [OF assms] assms by (simp add: fb.held_discard)

theorem discarded_span_never_delivered_witness:
  "subseq (delivered [(11 :: u64, [''new''])] 11) (added [Add_Op 11 [''new''], Flush_Op 20 3] 11)"
proof -
  have inv: "bt_invar [(10 :: u64, [''x'']), (11, [''old''])]" by (simp add: bt_invar_def)
  have run: "buffer_run fb_add fb_flush fb_discard_range [Add_Op 11 [''new''], Flush_Op 20 3]
      (fb_discard_range [(10 :: u64, [''x'']), (11, [''old''])] 10 11) = ([(11, [''new''])], [])"
    by (simp add: fb_add_def fb_flush_eq fb_discard_range_eq bt_get_def or_default_def bt_retain_def
        final_at_def)
  from discarded_span_never_delivered [OF inv _ _ run, of 11] show ?thesis by simp
qed

text \<open>A flush releases exactly the blocks at or below \<open>head - distance\<close> (computed without wrapping,
  so a head below the distance releases only block 0), in ascending order, and keeps the others;
  the one exception is block \<open>2 ^ 64 - 1\<close>, which is never released.\<close>

theorem flush_releases_final_blocks:
  assumes "bt_invar b" and "fb_flush b head distance = (out, b')"
  shows "sorted_wrt (<) (map fst out) \<and> fst ` set out = {n \<in> dom (bt_get b). final_at head distance n} \<and>
    dom (bt_get b') = {n \<in> dom (bt_get b). \<not> final_at head distance n} \<and> bt_invar b' \<and>
    fb_len out + fb_len b' = fb_len b"
proof -
  have "fb_len (bt_retain P b) + fb_len (bt_retain (\<lambda>k. \<not> P k) b) = fb_len b" for P
    by (induction b) (auto simp: fb_len_def bt_retain_def)
  moreover have "dom (bt_get (bt_retain P b)) = {n \<in> dom (bt_get b). P n}" for P
    by (auto split: if_splits)
  moreover have "bt_invar (bt_retain P b)" for P using assms(1) by simp
  moreover have "fst ` set (bt_retain P b) = {n \<in> dom (bt_get b). P n}" for P
    by (auto simp: bt_retain_def dom_bt_get bt_keys_def)
  moreover have "out = bt_retain (final_at head distance) b" "b' = bt_retain (\<lambda>k. \<not> final_at head distance k) b"
    using assms(2) by (simp_all add: fb_flush_eq)
  ultimately show ?thesis by (simp add: bt_invar_def [symmetric])
qed

theorem flush_releases_final_blocks_witness:
  "fst ` set [(3 :: u64, [''a'']), (5, [''b''])] = {n \<in> dom (bt_get [(3, [''a'']), (5, [''b'']), (6, [''c''])]). final_at 7 2 n}"
proof -
  have inv: "bt_invar [(3 :: u64, [''a'']), (5, [''b'']), (6, [''c''])]" by (simp add: bt_invar_def)
  have run: "fb_flush [(3 :: u64, [''a'']), (5, [''b'']), (6, [''c''])] 7 2 =
      ([(3, [''a'']), (5, [''b''])], [(6, [''c''])])"
    by (simp add: fb_flush_eq bt_retain_def final_at_def)
  from flush_releases_final_blocks [OF inv run] show ?thesis by blast
qed

end
