(* ===== verification/Filter_Ast.thy ===== *)
theory Filter_Ast
  imports Prelude
begin

text \<open>
  \<open>core/src/event/filter/ast.rs\<close>: the syntax tree of a filter expression and its translation to a
  SQL condition. \<open>$var\<close> (or a bare name) refers to event data and becomes \<open>EXCLUDED."var"\<close>, \<open>@var\<close>
  refers to the current row and becomes \<open>table."var"\<close>. Constructors carry a suffix or prefix where
  the Rust name is taken (\<open>ComparisonOperator::Eq\<close> is \<open>Cmp_Eq\<close>).
\<close>

section \<open>Syntax\<close>

datatype literal_value = Lit_Bool bool | Lit_Str string | Lit_Number string

datatype comparison_operator = Cmp_Eq | Cmp_Ne | Cmp_Gt | Cmp_Gte | Cmp_Lt | Cmp_Lte

datatype arithmetic_operator = Ar_Add | Ar_Subtract | Ar_Multiply | Ar_Divide | Ar_Power

datatype logical_operator = Log_And | Log_Or

datatype variable_source = From_Event | From_Table

datatype accessor = Acc_Index nat | Acc_Key string

record variable_path =
  vp_base :: string
  vp_accessors :: "accessor list"
  vp_source :: variable_source

datatype condition_left = Simple string variable_source | Path variable_path

fun base_name :: "condition_left \<Rightarrow> string" where
  "base_name (Simple name _) = name"
| "base_name (Path path) = vp_base path"

fun accessors :: "condition_left \<Rightarrow> accessor list" where
  "accessors (Simple _ _) = []"
| "accessors (Path path) = vp_accessors path"

fun source :: "condition_left \<Rightarrow> variable_source" where
  "source (Simple _ src) = src"
| "source (Path path) = vp_source path"

datatype arithmetic_expr =
    Variable condition_left
  | Literal literal_value
  | Binary arithmetic_expr arithmetic_operator arithmetic_expr

record condition =
  cond_left :: arithmetic_expr
  cond_operator :: comparison_operator
  cond_right :: arithmetic_expr

datatype expression =
    Condition condition
  | Logical expression logical_operator expression
  | Not_Expr expression

section \<open>References to the current row\<close>

fun arith_has_table_references :: "arithmetic_expr \<Rightarrow> bool" where
  "arith_has_table_references (Variable v) = (source v = From_Table)"
| "arith_has_table_references (Literal _) = False"
| "arith_has_table_references (Binary l _ r) =
     (arith_has_table_references l \<or> arith_has_table_references r)"

fun has_table_references :: "expression \<Rightarrow> bool" where
  "has_table_references (Condition c) =
     (arith_has_table_references (cond_left c) \<or> arith_has_table_references (cond_right c))"
| "has_table_references (Logical l _ r) = (has_table_references l \<or> has_table_references r)"
| "has_table_references (Not_Expr e) = has_table_references e"

section \<open>Translation to SQL\<close>

definition dquoted :: "string \<Rightarrow> string" where
  "dquoted s = [CHR 0x22] @ s @ [CHR 0x22]"

fun literal_to_sql :: "literal_value \<Rightarrow> string" where
  "literal_to_sql (Lit_Bool b) = (if b then ''TRUE'' else ''FALSE'')"
| "literal_to_sql (Lit_Str s) = squoted (replace_char (CHR 0x27) [CHR 0x27, CHR 0x27] s)"
| "literal_to_sql (Lit_Number n) = n"

fun variable_to_sql :: "string \<Rightarrow> condition_left \<Rightarrow> string" where
  "variable_to_sql table_name v =
     (case source v of
        From_Event \<Rightarrow> ''EXCLUDED.'' @ dquoted (base_name v)
      | From_Table \<Rightarrow> table_name @ ''.'' @ dquoted (base_name v))"

fun arith_op_sql :: "arithmetic_operator \<Rightarrow> string option" where
  "arith_op_sql Ar_Add = Some ''+''"
| "arith_op_sql Ar_Subtract = Some ''-''"
| "arith_op_sql Ar_Multiply = Some ''*''"
| "arith_op_sql Ar_Divide = Some ''/''"
| "arith_op_sql Ar_Power = None"

fun to_sql :: "string \<Rightarrow> arithmetic_expr \<Rightarrow> string" where
  "to_sql table_name (Variable v) = variable_to_sql table_name v"
| "to_sql table_name (Literal lit) = literal_to_sql lit"
| "to_sql table_name (Binary l operator r) =
     (case arith_op_sql operator of
        None \<Rightarrow> ''POWER('' @ to_sql table_name l @ '', '' @ to_sql table_name r @ '')''
      | Some op_sql \<Rightarrow>
          ''('' @ to_sql table_name l @ '' '' @ op_sql @ '' '' @ to_sql table_name r @ '')'')"

fun cmp_op_sql :: "comparison_operator \<Rightarrow> string" where
  "cmp_op_sql Cmp_Eq = ''=''"
| "cmp_op_sql Cmp_Ne = ''<>''"
| "cmp_op_sql Cmp_Gt = ''>''"
| "cmp_op_sql Cmp_Gte = ''>=''"
| "cmp_op_sql Cmp_Lt = ''<''"
| "cmp_op_sql Cmp_Lte = ''<=''"

fun logical_op_sql :: "logical_operator \<Rightarrow> string" where
  "logical_op_sql Log_And = ''AND''"
| "logical_op_sql Log_Or = ''OR''"

fun to_sql_condition :: "string \<Rightarrow> expression \<Rightarrow> string" where
  "to_sql_condition table_name (Condition c) =
     to_sql table_name (cond_left c) @ '' '' @ cmp_op_sql (cond_operator c) @ '' '' @
     to_sql table_name (cond_right c)"
| "to_sql_condition table_name (Logical l operator r) =
     ''('' @ to_sql_condition table_name l @ '' '' @ logical_op_sql operator @ '' '' @
     to_sql_condition table_name r @ '')''"
| "to_sql_condition table_name (Not_Expr e) = ''NOT ('' @ to_sql_condition table_name e @ '')''"

section \<open>What the SQL text says\<close>

text \<open>
  A reader of the SQL text: it splits the text into the pieces outside string literals and quoted
  identifiers (kept) and the quoted pieces (decoded), as a SQL lexer does.
\<close>

datatype sql_piece = Raw char | Str_Lit string | Ident string

fun read_quoted :: "char \<Rightarrow> string \<Rightarrow> (string \<times> string) option" where
  "read_quoted q [] = None"
| "read_quoted q [c] = (if c = q then Some ([], []) else None)"
| "read_quoted q (c # d # cs) =
     (if c = q then
        (if d = q then map_option (\<lambda>(s, rest). (q # s, rest)) (read_quoted q cs)
         else Some ([], d # cs))
      else map_option (\<lambda>(s, rest). (c # s, rest)) (read_quoted q (d # cs)))"

lemma read_quoted_shorter: "read_quoted q s = Some (t, rest) \<Longrightarrow> length rest < length s"
  by (induction q s arbitrary: t rest rule: read_quoted.induct) (fastforce split: if_splits)+

function sql_pieces :: "string \<Rightarrow> sql_piece list option" where
  "sql_pieces [] = Some []"
| "sql_pieces (c # cs) =
     (if c = CHR 0x27 \<or> c = CHR 0x22 then
        (case read_quoted c cs of
           None \<Rightarrow> None
         | Some (s, rest) \<Rightarrow>
             map_option (\<lambda>ps. (if c = CHR 0x27 then Str_Lit s else Ident s) # ps) (sql_pieces rest))
      else map_option (\<lambda>ps. Raw c # ps) (sql_pieces cs))"
  by pat_completeness auto
termination
  by (relation "measure length") (auto dest: read_quoted_shorter)

definition raw :: "string \<Rightarrow> sql_piece list" where
  "raw s = map Raw s"

definition plain :: "string \<Rightarrow> bool" where
  "plain s = (CHR 0x27 \<notin> set s \<and> CHR 0x22 \<notin> set s)"

text \<open>The pieces a translation is meant to consist of.\<close>

fun literal_pieces :: "literal_value \<Rightarrow> sql_piece list" where
  "literal_pieces (Lit_Bool b) = raw (if b then ''TRUE'' else ''FALSE'')"
| "literal_pieces (Lit_Str s) = [Str_Lit s]"
| "literal_pieces (Lit_Number n) = raw n"

fun arith_pieces :: "string \<Rightarrow> arithmetic_expr \<Rightarrow> sql_piece list" where
  "arith_pieces t (Variable v) =
     raw ((if source v = From_Event then ''EXCLUDED'' else t) @ ''.'') @ [Ident (base_name v)]"
| "arith_pieces t (Literal lit) = literal_pieces lit"
| "arith_pieces t (Binary l operator r) =
     (if operator = Ar_Power
      then raw ''POWER('' @ arith_pieces t l @ raw '', '' @ arith_pieces t r @ raw '')''
      else raw ''('' @ arith_pieces t l @ raw ('' '' @ the (arith_op_sql operator) @ '' '') @
           arith_pieces t r @ raw '')'')"

fun expr_pieces :: "string \<Rightarrow> expression \<Rightarrow> sql_piece list" where
  "expr_pieces t (Condition c) =
     arith_pieces t (cond_left c) @ raw ('' '' @ cmp_op_sql (cond_operator c) @ '' '') @
     arith_pieces t (cond_right c)"
| "expr_pieces t (Logical l operator r) =
     raw ''('' @ expr_pieces t l @ raw ('' '' @ logical_op_sql operator @ '' '') @ expr_pieces t r @ raw '')''"
| "expr_pieces t (Not_Expr e) = raw ''NOT ('' @ expr_pieces t e @ raw '')''"

text \<open>What the parser lets through: identifiers without a double quote, numerals without a quote.\<close>

fun well_lexed :: "arithmetic_expr \<Rightarrow> bool" where
  "well_lexed (Variable v) = (CHR 0x22 \<notin> set (base_name v))"
| "well_lexed (Literal lit) = (case lit of Lit_Number n \<Rightarrow> plain n | _ \<Rightarrow> True)"
| "well_lexed (Binary l _ r) = (well_lexed l \<and> well_lexed r)"

fun well_lexed_expr :: "expression \<Rightarrow> bool" where
  "well_lexed_expr (Condition c) = (well_lexed (cond_left c) \<and> well_lexed (cond_right c))"
| "well_lexed_expr (Logical l _ r) = (well_lexed_expr l \<and> well_lexed_expr r)"
| "well_lexed_expr (Not_Expr e) = well_lexed_expr e"

lemma raw_append [simp]: "raw (s @ t) = raw s @ raw t"
  by (simp add: raw_def)

lemma raw_Nil [simp]: "raw [] = []"
  by (simp add: raw_def)

lemma sql_pieces_raw: "plain s \<Longrightarrow> sql_pieces (s @ rest) = map_option ((@) (raw s)) (sql_pieces rest)"
proof (induction s)
  case Nil
  show ?case by (cases "sql_pieces rest") simp_all
next
  case (Cons c s)
  then show ?case by (cases "sql_pieces rest") (auto simp: plain_def raw_def)
qed

lemma read_quoted_double:
  "(\<And>t. rest \<noteq> q # t) \<Longrightarrow>
     read_quoted q (replace_char q [q, q] s @ q # rest) = Some (s, rest)"
proof (induction s)
  case Nil
  then show ?case by (cases rest) auto
next
  case (Cons c s)
  obtain d ds where "replace_char q [q, q] s @ q # rest = d # ds"
    by (cases "replace_char q [q, q] s @ q # rest") auto
  with Cons show ?case by auto
qed

lemma read_quoted_plain: "q \<notin> set s \<Longrightarrow> (\<And>t. rest \<noteq> q # t) \<Longrightarrow> read_quoted q (s @ q # rest) = Some (s, rest)"
  using read_quoted_double [of rest q s] by (simp add: replace_char_absent)

definition no_quote_next :: "string \<Rightarrow> bool" where
  "no_quote_next s = (case s of [] \<Rightarrow> True | c # _ \<Rightarrow> c \<noteq> CHR 0x27 \<and> c \<noteq> CHR 0x22)"

lemma no_quote_next_Nil [simp]: "no_quote_next []"
  and no_quote_next_Cons [simp]: "no_quote_next (c # s) \<longleftrightarrow> c \<noteq> CHR 0x27 \<and> c \<noteq> CHR 0x22"
  by (simp_all add: no_quote_next_def)

lemma no_quote_nextD: "no_quote_next rest \<Longrightarrow> rest \<noteq> CHR 0x27 # t" "no_quote_next rest \<Longrightarrow> rest \<noteq> CHR 0x22 # t"
  by (auto simp: no_quote_next_def)

lemma plain_append [simp]: "plain (s @ t) \<longleftrightarrow> plain s \<and> plain t"
  by (auto simp: plain_def)

lemma plain_operators [simp]: "plain (cmp_op_sql c)" "plain (logical_op_sql l)"
    "arith_op_sql operator = Some s \<Longrightarrow> plain s"
  by ((cases c; simp add: plain_def), (cases l; simp add: plain_def), (cases operator; auto simp: plain_def))

lemma sql_pieces_then:
  "sql_pieces s = Some ps \<Longrightarrow> plain u \<Longrightarrow> sql_pieces (u @ s) = Some (raw u @ ps)"
  by (simp add: sql_pieces_raw)

lemma literal_pieces_ok:
  assumes "case lit of Lit_Number n \<Rightarrow> plain n | _ \<Rightarrow> True" and "no_quote_next rest"
    and rest: "sql_pieces rest = Some ps"
  shows "sql_pieces (literal_to_sql lit @ rest) = Some (literal_pieces lit @ ps)"
proof (cases lit)
  case (Lit_Bool b)
  have "plain (if b then ''TRUE'' else ''FALSE'')" by (simp add: plain_def)
  from sql_pieces_then [OF rest this] show ?thesis using Lit_Bool by simp
next
  case (Lit_Str s)
  then show ?thesis
    using read_quoted_double [of rest "CHR 0x27" s] no_quote_nextD(1) [OF assms(2)] rest
    by (simp add: squoted_def)
next
  case (Lit_Number n)
  with assms show ?thesis by (simp add: sql_pieces_raw)
qed

lemma to_sql_pieces:
  assumes "plain t"
  shows "well_lexed e \<Longrightarrow> no_quote_next rest \<Longrightarrow> sql_pieces rest = Some ps \<Longrightarrow>
    sql_pieces (to_sql t e @ rest) = Some (arith_pieces t e @ ps)"
proof (induction e arbitrary: rest ps)
  case (Variable v)
  let ?src = "if source v = From_Event then ''EXCLUDED'' else t"
  have "sql_pieces (dquoted (base_name v) @ rest) = Some (Ident (base_name v) # ps)"
    using Variable read_quoted_plain [of "CHR 0x22" "base_name v" rest] no_quote_nextD(2)
    by (simp add: dquoted_def)
  moreover have "plain (?src @ ''.'')" using assms by (simp add: plain_def)
  ultimately have "sql_pieces ((?src @ ''.'') @ dquoted (base_name v) @ rest) =
      Some (raw (?src @ ''.'') @ Ident (base_name v) # ps)"
    by (rule sql_pieces_then)
  then show ?case by (cases "source v") simp_all
next
  case (Literal lit)
  then show ?case by (simp add: literal_pieces_ok)
next
  case (Binary l operator r)
  let ?op = "if operator = Ar_Power then '', '' else '' '' @ the (arith_op_sql operator) @ '' ''"
  let ?start = "if operator = Ar_Power then ''POWER('' else ''(''"
  have op: "plain ?op" "no_quote_next (?op @ u)" for u
    by (cases operator; simp add: plain_def)+
  have start: "plain ?start" by (simp add: plain_def)
  have sql: "to_sql t (Binary l operator r) = ?start @ to_sql t l @ ?op @ to_sql t r @ '')''"
    by (cases operator) simp_all
  have "sql_pieces ('')'' @ rest) = Some (raw '')'' @ ps)"
    using Binary.prems(3) by (rule sql_pieces_then) (simp add: plain_def)
  with Binary.prems have "sql_pieces (to_sql t r @ '')'' @ rest) = Some (arith_pieces t r @ raw '')'' @ ps)"
    by (intro Binary.IH(2)) simp_all
  then have "sql_pieces (?op @ to_sql t r @ '')'' @ rest) = Some (raw ?op @ arith_pieces t r @ raw '')'' @ ps)"
    using op(1) by (rule sql_pieces_then)
  with Binary.prems have "sql_pieces (to_sql t l @ ?op @ to_sql t r @ '')'' @ rest) =
      Some (arith_pieces t l @ raw ?op @ arith_pieces t r @ raw '')'' @ ps)"
    by (intro Binary.IH(1) op(2)) simp_all
  from sql_pieces_then [OF this start] show ?case unfolding sql by simp
qed

lemma to_sql_condition_pieces:
  assumes "plain t"
  shows "well_lexed_expr e \<Longrightarrow> no_quote_next rest \<Longrightarrow> sql_pieces rest = Some ps \<Longrightarrow>
    sql_pieces (to_sql_condition t e @ rest) = Some (expr_pieces t e @ ps)"
proof (induction e arbitrary: rest ps)
  case (Condition c)
  let ?op = "'' '' @ cmp_op_sql (cond_operator c) @ '' ''"
  have "plain [CHR 32]" by (simp add: plain_def)
  then have op: "plain ?op" by (simp only: plain_append plain_operators simp_thms)
  have "sql_pieces (to_sql t (cond_right c) @ rest) = Some (arith_pieces t (cond_right c) @ ps)"
    using assms Condition by (intro to_sql_pieces) simp_all
  from sql_pieces_then [OF this op] assms Condition show ?case
    using to_sql_pieces [of t "cond_left c"] by simp
next
  case (Logical l operator r)
  let ?op = "'' '' @ logical_op_sql operator @ '' ''"
  have "plain [CHR 32]" by (simp add: plain_def)
  then have op: "plain ?op" by (simp only: plain_append plain_operators simp_thms)
  have "sql_pieces ('')'' @ rest) = Some (raw '')'' @ ps)"
    using Logical.prems(3) by (rule sql_pieces_then) (simp add: plain_def)
  with Logical.prems have "sql_pieces (to_sql_condition t r @ '')'' @ rest) = Some (expr_pieces t r @ raw '')'' @ ps)"
    by (intro Logical.IH(2)) simp_all
  from sql_pieces_then [OF this op] Logical.prems
  have "sql_pieces (to_sql_condition t l @ ?op @ to_sql_condition t r @ '')'' @ rest) =
      Some (expr_pieces t l @ raw ?op @ expr_pieces t r @ raw '')'' @ ps)"
    using Logical.IH(1) by simp
  from sql_pieces_then [OF this, of "''(''"] show ?case by (simp add: plain_def)
next
  case (Not_Expr e)
  have "sql_pieces ('')'' @ rest) = Some (raw '')'' @ ps)"
    using Not_Expr.prems(3) by (rule sql_pieces_then) (simp add: plain_def)
  with Not_Expr.prems have "sql_pieces (to_sql_condition t e @ '')'' @ rest) = Some (expr_pieces t e @ raw '')'' @ ps)"
    by (intro Not_Expr.IH) simp_all
  from sql_pieces_then [OF this, of "''NOT (''"] show ?case by (simp add: plain_def)
qed



lemma to_sql_table: "\<not> arith_has_table_references e \<Longrightarrow> to_sql t e = to_sql t' e"
proof (induction e)
  case (Variable v)
  then show ?case by (cases "source v") simp_all
next
  case (Binary l operator r)
  then have "to_sql t l = to_sql t' l" "to_sql t r = to_sql t' r" by simp_all
  then show ?case by (simp only: to_sql.simps)
qed simp

lemma to_sql_length:
  "length (to_sql [] e) \<le> length (to_sql ''x'' e)"
  "arith_has_table_references e \<Longrightarrow> length (to_sql [] e) < length (to_sql ''x'' e)"
proof (induction e)
  case (Binary l operator r)
  {
    case 1
    show ?case using Binary(1,3) by (cases "arith_op_sql operator") simp_all
  next
    case 2
    then show ?case using Binary by (cases "arith_op_sql operator") auto
  }
qed (auto split: variable_source.splits)

lemma to_sql_condition_length:
  "length (to_sql_condition [] e) \<le> length (to_sql_condition ''x'' e)"
  "has_table_references e \<Longrightarrow> length (to_sql_condition [] e) < length (to_sql_condition ''x'' e)"
proof (induction e)
  case (Condition c)
  {
    case 1
    show ?case using to_sql_length(1) [of "cond_left c"] to_sql_length(1) [of "cond_right c"] by simp
  next
    case 2
    then show ?case
      using to_sql_length [of "cond_left c"] to_sql_length [of "cond_right c"] by auto
  }
qed auto

text \<open>\<open>has_table_references\<close> is exact: it says no precisely when the table name has no influence on
  the generated SQL, i.e. when the condition is about event data only.\<close>

theorem has_table_references_exact:
  "has_table_references e \<longleftrightarrow> (\<exists>t t'. to_sql_condition t e \<noteq> to_sql_condition t' e)"
proof
  assume "has_table_references e"
  then have "to_sql_condition [] e \<noteq> to_sql_condition ''x'' e"
    using to_sql_condition_length(2) [of e] by auto
  then show "\<exists>t t'. to_sql_condition t e \<noteq> to_sql_condition t' e" by blast
next
  assume "\<exists>t t'. to_sql_condition t e \<noteq> to_sql_condition t' e"
  moreover have "\<not> has_table_references e \<Longrightarrow> to_sql_condition t e = to_sql_condition t' e" for t t'
  proof (induction e)
    case (Condition c)
    then have "to_sql t (cond_left c) = to_sql t' (cond_left c)"
      "to_sql t (cond_right c) = to_sql t' (cond_right c)"
      using to_sql_table by simp_all
    then show ?case by (simp only: to_sql_condition.simps)
  qed simp_all
  ultimately show "has_table_references e" by blast
qed

end
