(* ===== verification/Json.thy ===== *)
theory Json
  imports Prelude
begin

text \<open>
  \<open>serde_json::Value\<close>, the data that filters and streams work on, with the accessors the code uses.
  A number is one of \<open>serde_json\<close>'s three kinds (unsigned, negative, floating point); a floating
  point number is kept as its printed text, since the code only prints it. Objects are lists of
  members; \<open>get\<close> looks a key up.
\<close>

datatype json_number = Pos_Int u64 | Neg_Int int | Float_Num string

datatype json =
    J_Null
  | J_Bool bool
  | J_Number json_number
  | J_String string
  | J_Array "json list"
  | J_Object "(string \<times> json) list"

definition show_int :: "int \<Rightarrow> string" where
  "show_int i = (if i < 0 then CHR ''-'' # show_nat (nat (- i)) else show_nat (nat i))"

fun show_number :: "json_number \<Rightarrow> string" where
  "show_number (Pos_Int n) = show_word n"
| "show_number (Neg_Int i) = show_int i"
| "show_number (Float_Num s) = s"

definition show_bool :: "bool \<Rightarrow> string" where
  "show_bool b = (if b then ''true'' else ''false'')"

fun json_get :: "json \<Rightarrow> string \<Rightarrow> json option" where
  "json_get (J_Object members) key = map_of members key"
| "json_get _ _ = None"

fun json_as_str :: "json \<Rightarrow> string option" where
  "json_as_str (J_String s) = Some s"
| "json_as_str _ = None"

fun json_is_array :: "json \<Rightarrow> bool" where
  "json_is_array (J_Array _) = True"
| "json_is_array _ = False"

lemma show_word_digits: "c \<in> set (show_word w) \<Longrightarrow> is_ascii_digit c"
  by (simp add: show_word_def show_nat_digits)

end
