(* ===== verification/Filter_Eval.thy ===== *)
theory Filter_Eval
  imports Filter_Ast Json
begin

text \<open>
  \<open>core/src/event/filter/evaluation.rs\<close> and \<open>helpers.rs\<close>: evaluation of a filter expression against
  event data and, for \<open>@\<close> references, the current table row. What the code takes from libraries
  (parsing of 256-bit integers and decimals, JSON text, derived \<open>Debug\<close> texts used in error
  messages) is the record \<open>filter_lib\<close>. Strings are ASCII: \<open>trim\<close> and \<open>to_lowercase\<close> are their
  ASCII versions.
\<close>

section \<open>Libraries and errors\<close>

record 'd filter_lib =
  u256_from_dec :: "string \<Rightarrow> string + u256"
  u256_from_hex :: "string \<Rightarrow> string + u256"
  i256_from_dec :: "string \<Rightarrow> string + u256"
  decimal_from :: "string \<Rightarrow> string + 'd"
  json_to_string :: "json \<Rightarrow> string"
  json_from_str :: "string \<Rightarrow> string + json"
  json_eq :: "json \<Rightarrow> json \<Rightarrow> bool"
  debug_accessor :: "accessor \<Rightarrow> string"
  debug_json :: "json \<Rightarrow> string"
  debug_literal :: "literal_value \<Rightarrow> string"

datatype evaluation_error =
    TypeMismatch string
  | UnsupportedOperator string
  | ParseError string
  | VariableNotFound string
  | IndexOutOfBounds string
  | DivisionByZero
  | ArithmeticOverflow string

fun debug_operator :: "comparison_operator \<Rightarrow> string" where
  "debug_operator Cmp_Eq = ''Eq''"
| "debug_operator Cmp_Ne = ''Ne''"
| "debug_operator Cmp_Gt = ''Gt''"
| "debug_operator Cmp_Gte = ''Gte''"
| "debug_operator Cmp_Lt = ''Lt''"
| "debug_operator Cmp_Lte = ''Lte''"

fun sum_bind :: "'e + 'a \<Rightarrow> ('a \<Rightarrow> 'e + 'b) \<Rightarrow> 'e + 'b" where
  "sum_bind (Inl e) f = Inl e"
| "sum_bind (Inr x) f = f x"

definition ok_or :: "'e \<Rightarrow> 'a option \<Rightarrow> 'e + 'a" where
  "ok_or e x = (case x of None \<Rightarrow> Inl e | Some y \<Rightarrow> Inr y)"

definition is_ok :: "'e + 'a \<Rightarrow> bool" where
  "is_ok r = (case r of Inl _ \<Rightarrow> False | Inr _ \<Rightarrow> True)"

lemma sum_bind_eq_Inr: "sum_bind r f = Inr y \<longleftrightarrow> (\<exists>x. r = Inr x \<and> f x = Inr y)"
  by (cases r) auto

lemma ok_or_eq_Inr [simp]: "ok_or e x = Inr y \<longleftrightarrow> x = Some y"
  by (cases x) (auto simp: ok_or_def)

section \<open>Helpers\<close>

definition is_space :: "char \<Rightarrow> bool" where
  "is_space c = (c = CHR '' '' \<or> char_in 9 13 c)"

definition trim :: "string \<Rightarrow> string" where
  "trim s = rev (dropWhile is_space (rev (dropWhile is_space s)))"

definition to_lowercase :: "string \<Rightarrow> string" where
  "to_lowercase s = map to_ascii_lowercase s"

definition normalize_address :: "string \<Rightarrow> string" where
  "normalize_address address =
     to_lowercase (replace_char (CHR '' '') [] (case strip_prefix ''0x'' address of Some s \<Rightarrow> s | None \<Rightarrow> address))"

definition are_same_address :: "string \<Rightarrow> string \<Rightarrow> bool" where
  "are_same_address a b = (normalize_address a = normalize_address b)"

definition strip_hex :: "string \<Rightarrow> string option" where
  "strip_hex s = (case strip_prefix ''0x'' s of Some h \<Rightarrow> Some h | None \<Rightarrow> strip_prefix ''0X'' s)"

definition map_err :: "('d \<Rightarrow> 'e) \<Rightarrow> 'd + 'a \<Rightarrow> 'e + 'a" where
  "map_err f r = (case r of Inl d \<Rightarrow> Inl (f d) | Inr x \<Rightarrow> Inr x)"

definition string_to_u256 :: "('d, 'z) filter_lib_scheme \<Rightarrow> string \<Rightarrow> string + u256" where
  "string_to_u256 L value_str =
     (let trimmed = trim value_str in
      if trimmed = [] then Inl ''Input string is empty''
      else case strip_hex trimmed of
        Some hex_val \<Rightarrow>
          if hex_val = [] then Inl (''Hex string '' @ squoted ''0x'' @ '' is missing value digits'')
          else map_err (\<lambda>e. ''Failed to parse hex '' @ squoted hex_val @ '': '' @ e) (u256_from_hex L hex_val)
      | None \<Rightarrow>
          map_err (\<lambda>e. ''Failed to parse decimal '' @ squoted trimmed @ '': '' @ e) (u256_from_dec L trimmed))"

text \<open>An \<open>I256\<close> is its raw 256 bits (\<open>I256::from_raw\<close> reinterprets them); \<open>sint\<close> reads its value.\<close>

definition string_to_i256 :: "('d, 'z) filter_lib_scheme \<Rightarrow> string \<Rightarrow> string + u256" where
  "string_to_i256 L value_str =
     (let trimmed = trim value_str in
      if trimmed = [] then Inl ''Input string is empty''
      else case strip_hex trimmed of
        Some hex_val \<Rightarrow>
          if hex_val = [] then Inl (''Hex string '' @ squoted ''0x'' @ '' is missing value digits'')
          else map_err (\<lambda>e. ''Failed to parse hex magnitude '' @ squoted hex_val @ '': '' @ e)
                 (u256_from_hex L hex_val)
      | None \<Rightarrow>
          map_err (\<lambda>e. ''Failed to parse decimal '' @ squoted trimmed @ '': '' @ e) (i256_from_dec L trimmed))"

fun compare_ordered_values :: "'a::linorder \<Rightarrow> comparison_operator \<Rightarrow> 'a \<Rightarrow> bool" where
  "compare_ordered_values l Cmp_Eq r = (l = r)"
| "compare_ordered_values l Cmp_Ne r = (l \<noteq> r)"
| "compare_ordered_values l Cmp_Gt r = (l > r)"
| "compare_ordered_values l Cmp_Gte r = (l \<ge> r)"
| "compare_ordered_values l Cmp_Lt r = (l < r)"
| "compare_ordered_values l Cmp_Lte r = (l \<le> r)"

section \<open>Typed comparison\<close>

definition expect_number ::
  "('d, 'z) filter_lib_scheme \<Rightarrow> string \<Rightarrow> literal_value \<Rightarrow> evaluation_error + string" where
  "expect_number L kind lit =
     (case lit of
        Lit_Number s \<Rightarrow> Inr s
      | Lit_Str s \<Rightarrow> Inr s
      | _ \<Rightarrow> Inl (TypeMismatch (''Expected number or string for '' @ kind @ '' comparison, found: '' @
               debug_literal L lit)))"

definition parse_side :: "string \<Rightarrow> string \<Rightarrow> string \<Rightarrow> string + 'a \<Rightarrow> evaluation_error + 'a" where
  "parse_side side kind s r =
     map_err (\<lambda>e. ParseError (''Failed to parse '' @ side @ '' '' @ squoted s @ '' as '' @ kind @ '': '' @ e)) r"

definition compare_u256 ::
  "('d, 'z) filter_lib_scheme \<Rightarrow> string \<Rightarrow> comparison_operator \<Rightarrow> literal_value \<Rightarrow> evaluation_error + bool" where
  "compare_u256 L left_str operator right_literal =
     sum_bind (parse_side ''LHS'' ''U256'' left_str (string_to_u256 L left_str)) (\<lambda>l.
     sum_bind (expect_number L ''U256'' right_literal) (\<lambda>right_str.
     sum_bind (parse_side ''RHS'' ''U256'' right_str (string_to_u256 L right_str)) (\<lambda>r.
     Inr (compare_ordered_values l operator r))))"

definition compare_i256 ::
  "('d, 'z) filter_lib_scheme \<Rightarrow> string \<Rightarrow> comparison_operator \<Rightarrow> literal_value \<Rightarrow> evaluation_error + bool" where
  "compare_i256 L left_str operator right_literal =
     sum_bind (parse_side ''LHS'' ''I256'' left_str (string_to_i256 L left_str)) (\<lambda>l.
     sum_bind (expect_number L ''I256'' right_literal) (\<lambda>right_str.
     sum_bind (parse_side ''RHS'' ''I256'' right_str (string_to_i256 L right_str)) (\<lambda>r.
     Inr (compare_ordered_values (sint l) operator (sint r)))))"

definition compare_fixed_point ::
  "('d::linorder, 'z) filter_lib_scheme \<Rightarrow> string \<Rightarrow> comparison_operator \<Rightarrow> literal_value \<Rightarrow>
     evaluation_error + bool" where
  "compare_fixed_point L lhs_str operator rhs_literal =
     sum_bind (parse_side ''LHS'' ''Decimal'' lhs_str (decimal_from L lhs_str)) (\<lambda>l.
     sum_bind (expect_number L ''Decimal'' rhs_literal) (\<lambda>rhs_str.
     sum_bind (parse_side ''RHS'' ''Decimal'' rhs_str (decimal_from L rhs_str)) (\<lambda>r.
     Inr (compare_ordered_values l operator r))))"

definition expect_string ::
  "('d, 'z) filter_lib_scheme \<Rightarrow> string \<Rightarrow> literal_value \<Rightarrow> evaluation_error + string" where
  "expect_string L kind lit =
     (case lit of
        Lit_Str s \<Rightarrow> Inr s
      | _ \<Rightarrow> Inl (TypeMismatch (''Expected string literal for '' @ kind @ '' comparison, found: '' @
               debug_literal L lit)))"

definition eq_or_ne :: "comparison_operator \<Rightarrow> string \<Rightarrow> bool \<Rightarrow> evaluation_error + bool" where
  "eq_or_ne operator unsupported equal =
     (case operator of
        Cmp_Eq \<Rightarrow> Inr equal
      | Cmp_Ne \<Rightarrow> Inr (\<not> equal)
      | _ \<Rightarrow> Inl (UnsupportedOperator unsupported))"

definition compare_address ::
  "('d, 'z) filter_lib_scheme \<Rightarrow> string \<Rightarrow> comparison_operator \<Rightarrow> literal_value \<Rightarrow> evaluation_error + bool" where
  "compare_address L l operator right_literal =
     sum_bind (expect_string L ''address'' right_literal) (\<lambda>r.
       eq_or_ne operator (''Unsupported operator '' @ debug_operator operator @ '' for address type'')
         (are_same_address l r))"

definition compare_string ::
  "('d, 'z) filter_lib_scheme \<Rightarrow> string \<Rightarrow> comparison_operator \<Rightarrow> literal_value \<Rightarrow> evaluation_error + bool" where
  "compare_string L lhs_str operator rhs_literal =
     sum_bind (expect_string L ''string'' rhs_literal) (\<lambda>r.
       eq_or_ne operator (''Operator '' @ debug_operator operator @ '' not supported for type String'')
         (to_lowercase lhs_str = to_lowercase r))"

definition compare_boolean ::
  "('d, 'z) filter_lib_scheme \<Rightarrow> string \<Rightarrow> comparison_operator \<Rightarrow> literal_value \<Rightarrow> evaluation_error + bool" where
  "compare_boolean L lhs_value_str operator rhs_literal =
     sum_bind (if lhs_value_str = ''true'' then Inr True
               else if lhs_value_str = ''false'' then Inr False
               else Inl (ParseError (''Failed to parse LHS '' @ squoted lhs_value_str @
                      '' as bool: provided string was not `true` or `false`''))) (\<lambda>lhs.
     sum_bind (case rhs_literal of
                 Lit_Bool b \<Rightarrow> Inr b
               | _ \<Rightarrow> Inl (TypeMismatch (''Expected bool literal for Bool comparison, found: '' @
                        debug_literal L rhs_literal))) (\<lambda>rhs.
       eq_or_ne operator (''Unsupported operator '' @ debug_operator operator @ '' for Bool comparison'')
         (lhs = rhs)))"

definition compare_array ::
  "('d, 'z) filter_lib_scheme \<Rightarrow> string \<Rightarrow> comparison_operator \<Rightarrow> literal_value \<Rightarrow> evaluation_error + bool" where
  "compare_array L lhs_json_array_str operator rhs_literal =
     sum_bind (case rhs_literal of
                 Lit_Str s \<Rightarrow> Inr s
               | _ \<Rightarrow> Inl (TypeMismatch (''Expected string literal for '' @ squoted ''array'' @
                        '' comparison, found: '' @ debug_literal L rhs_literal))) (\<lambda>rhs_target_str.
     if operator = Cmp_Eq \<or> operator = Cmp_Ne then
       sum_bind (map_err ParseError (json_from_str L lhs_json_array_str)) (\<lambda>lhs_json.
       sum_bind (map_err ParseError (json_from_str L rhs_target_str)) (\<lambda>rhs_json.
       if \<not> json_is_array lhs_json \<or> \<not> json_is_array rhs_json then
         Inl (TypeMismatch ''Both sides of an array comparison must be valid JSON arrays.'')
       else
         (let are_equal = json_eq L lhs_json rhs_json
          in Inr (if operator = Cmp_Eq then are_equal else \<not> are_equal))))
     else Inl (UnsupportedOperator (''Operator '' @ debug_operator operator @ '' not supported for '' @
                 squoted ''array'' @ '' type. Supported: Eq, Ne.'')))"

definition unsigned_integer_kinds :: "string list" where
  "unsigned_integer_kinds =
     [''uint8'', ''uint16'', ''uint32'', ''uint64'', ''uint128'', ''uint256'', ''number'']"

definition signed_integer_kinds :: "string list" where
  "signed_integer_kinds = [''int8'', ''int16'', ''int32'', ''int64'', ''int128'', ''int256'']"

definition array_kinds :: "string list" where
  "array_kinds =
     [''array'', ''uint8[]'', ''uint16[]'', ''uint32[]'', ''uint64[]'', ''uint128[]'', ''uint256[]'',
      ''int8[]'', ''int16[]'', ''int32[]'', ''int64[]'', ''int128[]'', ''int256[]'', ''string[]'',
      ''address[]'', ''bool[]'', ''fixed[]'', ''ufixed[]'', ''bytes[]'', ''bytes32[]'', ''tuple[]'']"

definition compare_final_values ::
  "('d::linorder, 'z) filter_lib_scheme \<Rightarrow> string \<Rightarrow> string \<Rightarrow> comparison_operator \<Rightarrow> literal_value \<Rightarrow>
     evaluation_error + bool" where
  "compare_final_values L lhs_kind_str lhs_value_str operator rhs_literal =
     (let lhs_kind = to_lowercase lhs_kind_str in
      if lhs_kind \<in> set signed_integer_kinds then compare_i256 L lhs_value_str operator rhs_literal
      else if lhs_kind \<in> set unsigned_integer_kinds then compare_u256 L lhs_value_str operator rhs_literal
      else if lhs_kind \<in> set array_kinds then compare_array L lhs_value_str operator rhs_literal
      else if lhs_kind \<in> {''fixed'', ''ufixed''} then compare_fixed_point L lhs_value_str operator rhs_literal
      else if lhs_kind = ''address'' then compare_address L lhs_value_str operator rhs_literal
      else if lhs_kind \<in> {''string'', ''bytes'', ''bytes32''} then compare_string L lhs_value_str operator rhs_literal
      else if lhs_kind = ''bool'' then compare_boolean L lhs_value_str operator rhs_literal
      else Inl (TypeMismatch (''Unsupported parameter kind for comparison: '' @ lhs_kind_str)))"

section \<open>Kinds and paths\<close>

definition get_kind_from_str :: "string \<Rightarrow> string" where
  "get_kind_from_str s =
     (if starts_with ''0x'' s \<or> starts_with ''0X'' s then
        (if length s = 42 then ''address'' else if length s = 66 then ''bytes32'' else ''string'')
      else ''string'')"

definition all_hex_after_prefix :: "string \<Rightarrow> bool" where
  "all_hex_after_prefix s = list_all is_ascii_hexdigit (drop 2 s)"

definition string_kind :: "('d, 'z) filter_lib_scheme \<Rightarrow> string \<Rightarrow> string" where
  "string_kind L s =
     (let s_lower = to_lowercase s in
      if starts_with ''0x'' s_lower \<and> length s = 42 \<and> all_hex_after_prefix s then ''address''
      else if starts_with ''0x'' s_lower \<and> all_hex_after_prefix s then
        (if length s = 66 then ''bytes32'' else ''bytes'')
      else if is_ok (decimal_from L s) \<and> CHR ''.'' \<in> set s then ''fixed''
      else if is_ok (string_to_u256 L s) then ''number''
      else if is_ok (string_to_i256 L s) then ''int256''
      else ''string'')"

fun number_kind :: "json_number \<Rightarrow> string" where
  "number_kind (Float_Num _) = ''fixed''"
| "number_kind (Neg_Int i) = (if i < 0 then ''int64'' else ''number'')"
| "number_kind (Pos_Int n) = ''number''"

fun get_kind_from_json_value :: "('d, 'z) filter_lib_scheme \<Rightarrow> json \<Rightarrow> string" where
  "get_kind_from_json_value L (J_String s) = string_kind L s"
| "get_kind_from_json_value L (J_Number n) = number_kind n"
| "get_kind_from_json_value L (J_Bool _) = ''bool''"
| "get_kind_from_json_value L (J_Array _) = ''array''"
| "get_kind_from_json_value L (J_Object _) = ''map''"
| "get_kind_from_json_value L J_Null = ''null''"

fun follow_accessor ::
  "('d, 'z) filter_lib_scheme \<Rightarrow> accessor \<Rightarrow> json \<Rightarrow> evaluation_error + json" where
  "follow_accessor L (Acc_Key key) (J_Object members) = ok_or (VariableNotFound key) (map_of members key)"
| "follow_accessor L (Acc_Index i) (J_Array xs) =
     (if i < length xs then Inr (xs ! i) else Inl (IndexOutOfBounds (show_nat i)))"
| "follow_accessor L acc current =
     Inl (TypeMismatch (''Cannot apply accessor '' @ debug_accessor L acc @ '' to value '' @ debug_json L current))"

fun follow_accessors ::
  "('d, 'z) filter_lib_scheme \<Rightarrow> accessor list \<Rightarrow> json \<Rightarrow> evaluation_error + json" where
  "follow_accessors L [] current = Inr current"
| "follow_accessors L (acc # accs) current =
     sum_bind (follow_accessor L acc current) (follow_accessors L accs)"

definition resolve_path ::
  "('d, 'z) filter_lib_scheme \<Rightarrow> condition_left \<Rightarrow> json \<Rightarrow> evaluation_error + json" where
  "resolve_path L path data =
     sum_bind (ok_or (VariableNotFound (base_name path)) (json_get data (base_name path)))
       (follow_accessors L (accessors path))"

definition source_prefix :: "variable_source \<Rightarrow> string" where
  "source_prefix src = (case src of From_Event \<Rightarrow> ''$'' | From_Table \<Rightarrow> ''@'')"

definition select_data :: "condition_left \<Rightarrow> json \<Rightarrow> json option \<Rightarrow> evaluation_error + json" where
  "select_data path event_data table_data =
     (case source path of
        From_Event \<Rightarrow> Inr event_data
      | From_Table \<Rightarrow> ok_or (VariableNotFound (''@'' @ base_name path @
          '' (table data not available - row may not exist yet)'')) table_data)"

definition resolve_path_with_table ::
  "('d, 'z) filter_lib_scheme \<Rightarrow> condition_left \<Rightarrow> json \<Rightarrow> json option \<Rightarrow> evaluation_error + json" where
  "resolve_path_with_table L path event_data table_data =
     sum_bind (select_data path event_data table_data) (\<lambda>data.
     sum_bind (ok_or (VariableNotFound (source_prefix (source path) @ base_name path))
                (json_get data (base_name path)))
       (follow_accessors L (accessors path)))"

section \<open>Arithmetic\<close>

datatype arithmetic_value = Number u256 | Other (ov_kind: string) (ov_value: string)

definition checked_pow :: "u256 \<Rightarrow> u256 \<Rightarrow> u256 option" where
  "checked_pow a b = (if unat a ^ unat b < 2 ^ 256 then Some (of_nat (unat a ^ unat b)) else None)"

fun value_text :: "('d, 'z) filter_lib_scheme \<Rightarrow> json \<Rightarrow> string" where
  "value_text L (J_String s) = s"
| "value_text L (J_Number n) = show_number n"
| "value_text L (J_Bool b) = show_bool b"
| "value_text L J_Null = ''null''"
| "value_text L v = json_to_string L v"

definition resolved_value :: "('d, 'z) filter_lib_scheme \<Rightarrow> json \<Rightarrow> arithmetic_value" where
  "resolved_value L resolved =
     (case string_to_u256 L (value_text L resolved) of
        Inr num \<Rightarrow> Number num
      | Inl _ \<Rightarrow> Other (get_kind_from_json_value L resolved) (value_text L resolved))"

fun literal_arith :: "('d, 'z) filter_lib_scheme \<Rightarrow> literal_value \<Rightarrow> arithmetic_value" where
  "literal_arith L (Lit_Number s) =
     (case string_to_u256 L s of
        Inr num \<Rightarrow> Number num
      | Inl _ \<Rightarrow> Other (if CHR ''.'' \<in> set s then ''fixed'' else ''number'') s)"
| "literal_arith L (Lit_Bool b) = Other ''bool'' (show_bool b)"
| "literal_arith L (Lit_Str s) =
     (case string_to_u256 L s of Inr num \<Rightarrow> Number num | Inl _ \<Rightarrow> Other (get_kind_from_str s) s)"

fun apply_operator :: "arithmetic_operator \<Rightarrow> u256 \<Rightarrow> u256 \<Rightarrow> evaluation_error + u256" where
  "apply_operator Ar_Add l r = ok_or (ArithmeticOverflow ''addition overflow'') (checked_add l r)"
| "apply_operator Ar_Subtract l r = ok_or (ArithmeticOverflow ''subtraction underflow'') (checked_sub l r)"
| "apply_operator Ar_Multiply l r = ok_or (ArithmeticOverflow ''multiplication overflow'') (checked_mul l r)"
| "apply_operator Ar_Divide l r =
     (if r = 0 then Inl DivisionByZero
      else ok_or (ArithmeticOverflow ''division error'') (checked_div l r))"
| "apply_operator Ar_Power l r = ok_or (ArithmeticOverflow ''exponentiation overflow'') (checked_pow l r)"

definition binary_value ::
  "arithmetic_operator \<Rightarrow> arithmetic_value \<Rightarrow> arithmetic_value \<Rightarrow> evaluation_error + arithmetic_value" where
  "binary_value operator left_val right_val =
     (case (left_val, right_val) of
        (Number l, Number r) \<Rightarrow> sum_bind (apply_operator operator l r) (\<lambda>n. Inr (Number n))
      | _ \<Rightarrow> Inl (TypeMismatch ''Arithmetic operations require numeric operands''))"

fun evaluate_arithmetic_expr ::
  "('d, 'z) filter_lib_scheme \<Rightarrow> arithmetic_expr \<Rightarrow> json \<Rightarrow> evaluation_error + arithmetic_value" where
  "evaluate_arithmetic_expr L (Variable path) data =
     sum_bind (resolve_path L path data) (\<lambda>v. Inr (resolved_value L v))"
| "evaluate_arithmetic_expr L (Literal lit) data = Inr (literal_arith L lit)"
| "evaluate_arithmetic_expr L (Binary l operator r) data =
     sum_bind (evaluate_arithmetic_expr L l data) (\<lambda>left_val.
     sum_bind (evaluate_arithmetic_expr L r data) (\<lambda>right_val.
     binary_value operator left_val right_val))"

fun evaluate_arithmetic_expr_with_table ::
  "('d, 'z) filter_lib_scheme \<Rightarrow> arithmetic_expr \<Rightarrow> json \<Rightarrow> json option \<Rightarrow> evaluation_error + arithmetic_value" where
  "evaluate_arithmetic_expr_with_table L (Variable path) event_data table_data =
     sum_bind (resolve_path_with_table L path event_data table_data) (\<lambda>v. Inr (resolved_value L v))"
| "evaluate_arithmetic_expr_with_table L (Literal lit) event_data table_data = Inr (literal_arith L lit)"
| "evaluate_arithmetic_expr_with_table L (Binary l operator r) event_data table_data =
     sum_bind (evaluate_arithmetic_expr_with_table L l event_data table_data) (\<lambda>left_val.
     sum_bind (evaluate_arithmetic_expr_with_table L r event_data table_data) (\<lambda>right_val.
     binary_value operator left_val right_val))"

section \<open>Conditions and expressions\<close>

definition compare_arith ::
  "('d::linorder, 'z) filter_lib_scheme \<Rightarrow> comparison_operator \<Rightarrow> arithmetic_value \<Rightarrow> arithmetic_value \<Rightarrow>
     evaluation_error + bool" where
  "compare_arith L operator left_val right_val =
     (case (left_val, right_val) of
        (Number l, Number r) \<Rightarrow> Inr (compare_ordered_values l operator r)
      | (Other lk lv, Number r) \<Rightarrow> compare_final_values L lk lv operator (Lit_Number (show_word r))
      | (Number l, Other _ rv) \<Rightarrow> compare_final_values L ''uint256'' (show_word l) operator (Lit_Str rv)
      | (Other lk lv, Other _ rv) \<Rightarrow>
          compare_final_values L lk lv operator
            (if rv = ''true'' \<or> rv = ''false'' then Lit_Bool (rv = ''true'') else Lit_Str rv))"

definition evaluate_condition_with_table ::
  "('d::linorder, 'z) filter_lib_scheme \<Rightarrow> condition \<Rightarrow> json \<Rightarrow> json option \<Rightarrow> evaluation_error + bool" where
  "evaluate_condition_with_table L c event_data table_data =
     sum_bind (evaluate_arithmetic_expr_with_table L (cond_left c) event_data table_data) (\<lambda>left_val.
     sum_bind (evaluate_arithmetic_expr_with_table L (cond_right c) event_data table_data) (\<lambda>right_val.
     compare_arith L (cond_operator c) left_val right_val))"

fun evaluate ::
  "('d::linorder, 'z) filter_lib_scheme \<Rightarrow> expression \<Rightarrow> json \<Rightarrow> evaluation_error + bool" where
  "evaluate L (Logical l operator r) data =
     sum_bind (evaluate L l data) (\<lambda>left_val.
       case operator of
         Log_And \<Rightarrow> (if \<not> left_val then Inr False else evaluate L r data)
       | Log_Or \<Rightarrow> (if left_val then Inr True else evaluate L r data))"
| "evaluate L (Not_Expr e) data = sum_bind (evaluate L e data) (\<lambda>result. Inr (\<not> result))"
| "evaluate L (Condition c) data = evaluate_condition_with_table L c data None"

fun evaluate_with_table_data ::
  "('d::linorder, 'z) filter_lib_scheme \<Rightarrow> expression \<Rightarrow> json \<Rightarrow> json option \<Rightarrow> evaluation_error + bool" where
  "evaluate_with_table_data L (Logical l operator r) event_data table_data =
     sum_bind (evaluate_with_table_data L l event_data table_data) (\<lambda>left_val.
       case operator of
         Log_And \<Rightarrow> (if \<not> left_val then Inr False else evaluate_with_table_data L r event_data table_data)
       | Log_Or \<Rightarrow> (if left_val then Inr True else evaluate_with_table_data L r event_data table_data))"
| "evaluate_with_table_data L (Not_Expr e) event_data table_data =
     sum_bind (evaluate_with_table_data L e event_data table_data) (\<lambda>result. Inr (\<not> result))"
| "evaluate_with_table_data L (Condition c) event_data table_data =
     evaluate_condition_with_table L c event_data table_data"

datatype computed_value = Computed_U256 u256 | Computed_String string

definition evaluate_arithmetic ::
  "('d, 'z) filter_lib_scheme \<Rightarrow> (string \<Rightarrow> string + arithmetic_expr) \<Rightarrow> string \<Rightarrow> json \<Rightarrow>
     evaluation_error + computed_value" where
  "evaluate_arithmetic L parse_arithmetic_expression expr_str data =
     sum_bind (map_err (\<lambda>e. ParseError (''Failed to parse expression '' @ squoted expr_str @ '': '' @ e))
                (parse_arithmetic_expression expr_str)) (\<lambda>expr.
     sum_bind (evaluate_arithmetic_expr L expr data) (\<lambda>result.
     case result of
       Number n \<Rightarrow> Inr (Computed_U256 n)
     | Other _ v \<Rightarrow> Inr (Computed_String v)))"

end
