(* ===== verification/Filter_Legacy.thy ===== *)
theory Filter_Legacy
  imports Filter_Eval
begin

text \<open>
  \<open>core/src/event/filter/mod.rs\<close>: the entry points of the filter module. \<open>filter_by_expression\<close>
  parses and evaluates; \<open>filter_event_data_by_conditions\<close> translates the legacy \<open>conditions\<close> format
  (\<open>> 5 && < 10\<close> per key) into expressions over a placeholder. The parser (\<open>parsing.rs\<close>, built on
  the \<open>winnow\<close> combinators) is an argument.
\<close>

datatype filter_error = Parse_Failed string | Evaluation_Failed evaluation_error

type_synonym parser = "string \<Rightarrow> string + expression"

definition filter_by_expression ::
  "('d::linorder, 'z) filter_lib_scheme \<Rightarrow> parser \<Rightarrow> string \<Rightarrow> json \<Rightarrow> filter_error + bool" where
  "filter_by_expression L parse expression_str data =
     sum_bind (map_err Parse_Failed (parse expression_str)) (\<lambda>parsed_expr.
       map_err Evaluation_Failed (evaluate L parsed_expr data))"

fun split_char :: "char \<Rightarrow> string \<Rightarrow> string list" where
  "split_char d [] = [[]]"
| "split_char d (c # s) =
     (if c = d then [] # split_char d s
      else case split_char d s of [] \<Rightarrow> [[c]] | w # ws \<Rightarrow> (c # w) # ws)"

fun nested_get :: "json \<Rightarrow> string list \<Rightarrow> json option" where
  "nested_get current [] = Some current"
| "nested_get current (key # keys) = Option.bind (json_get current key) (\<lambda>value. nested_get value keys)"

definition get_nested_value :: "json \<Rightarrow> string \<Rightarrow> json option" where
  "get_nested_value data path = nested_get data (split_char (CHR ''.'') path)"

text \<open>\<open>LOGICAL_OPERATOR_RE.replace_all\<close>: every leftmost match of \<open>\s*(&&|\|\|)\s*\<close> is replaced by the operator
  between spaces, followed by the placeholder.\<close>

definition logical_operator_at :: "string \<Rightarrow> (string \<times> string) option" where
  "logical_operator_at s =
     (let rest = dropWhile is_space s in
      if starts_with ''&&'' rest then Some (''&&'', dropWhile is_space (drop 2 rest))
      else if starts_with ''||'' rest then Some (''||'', dropWhile is_space (drop 2 rest))
      else None)"

lemma logical_operator_at_shorter: "logical_operator_at s = Some (x, rest) \<Longrightarrow> length rest < length s"
proof -
  assume *: "logical_operator_at s = Some (x, rest)"
  have len: "length (dropWhile is_space t) \<le> length t" for t by (rule length_dropWhile_le)
  have two: "starts_with p t \<Longrightarrow> length p = 2 \<Longrightarrow> length (drop 2 t) < length t" for p t
    by (cases t) (auto simp: starts_with_def)
  from * show ?thesis
    using len [of s] len [of "drop 2 (dropWhile is_space s)"]
      two [of "''&&''" "dropWhile is_space s"] two [of "''||''" "dropWhile is_space s"]
    by (auto simp: logical_operator_at_def Let_def split: if_splits)
qed

function replace_logical :: "string \<Rightarrow> string" where
  "replace_logical s =
     (case logical_operator_at s of
        Some (operator, rest) \<Rightarrow> '' '' @ operator @ '' _placeholder_ '' @ replace_logical rest
      | None \<Rightarrow> (case s of [] \<Rightarrow> [] | c # cs \<Rightarrow> c # replace_logical cs))"
  by pat_completeness auto
termination
  by (relation "measure length") (auto dest: logical_operator_at_shorter)

declare replace_logical.simps [simp del]

definition is_complex_condition :: "string \<Rightarrow> bool" where
  "is_complex_condition condition = list_ex (\<lambda>c. c \<in> set ''&|><=!'') condition"

fun simple_equals :: "json \<Rightarrow> string \<Rightarrow> bool" where
  "simple_equals (J_String s) condition = (s = condition)"
| "simple_equals (J_Number n) condition = (show_number n = condition)"
| "simple_equals (J_Bool b) condition = (show_bool b = condition)"
| "simple_equals J_Null condition = (''null'' = condition)"
| "simple_equals _ condition = False"

definition evaluate_condition ::
  "('d::linorder, 'z) filter_lib_scheme \<Rightarrow> parser \<Rightarrow> json \<Rightarrow> string \<Rightarrow> bool" where
  "evaluate_condition L parse v condition =
     (if \<not> is_complex_condition condition then simple_equals v condition
      else (let final_expr = ''_placeholder_ '' @ replace_logical (trim condition);
                context = J_Object [(''_placeholder_'', v)]
            in case filter_by_expression L parse final_expr context of Inr b \<Rightarrow> b | Inl _ \<Rightarrow> False))"

type_synonym condition_map = "(string \<times> json) list"

definition entry_holds ::
  "('d::linorder, 'z) filter_lib_scheme \<Rightarrow> parser \<Rightarrow> json \<Rightarrow> string \<times> json \<Rightarrow> bool" where
  "entry_holds L parse event_data = (\<lambda>(key, v).
     case get_nested_value event_data key of
       Some event_value \<Rightarrow>
         evaluate_condition L parse event_value (case json_as_str v of Some s \<Rightarrow> s | None \<Rightarrow> [])
     | None \<Rightarrow> False)"

definition filter_event_data_by_conditions ::
  "('d::linorder, 'z) filter_lib_scheme \<Rightarrow> parser \<Rightarrow> json \<Rightarrow> condition_map list \<Rightarrow> bool" where
  "filter_event_data_by_conditions L parse event_data conditions =
     (if conditions = [] then True
      else list_all (list_all (entry_holds L parse event_data)) conditions)"

text \<open>The legacy format as it is meant: clauses joined by operators, every clause about the value.\<close>

fun placed :: "string \<Rightarrow> (string \<times> string) list \<Rightarrow> string" where
  "placed clause [] = clause"
| "placed clause ((operator, next_clause) # rest) =
     clause @ '' '' @ operator @ '' _placeholder_ '' @ placed next_clause rest"

fun legacy_text :: "string \<Rightarrow> (string \<times> string \<times> string \<times> string) list \<Rightarrow> string" where
  "legacy_text clause [] = clause"
| "legacy_text clause ((before, operator, after, next_clause) # rest) =
     clause @ before @ operator @ after @ legacy_text next_clause rest"

definition clause_text :: "string \<Rightarrow> bool" where
  "clause_text s = (s \<noteq> [] \<and> \<not> is_space (hd s) \<and> \<not> is_space (last s) \<and> CHR ''&'' \<notin> set s \<and> CHR ''|'' \<notin> set s)"

lemma no_operator_in_clause:
  assumes "CHR ''&'' \<notin> set s" "CHR ''|'' \<notin> set s" "s \<noteq> []" "\<not> is_space (last s)"
  shows "logical_operator_at (s @ t) = None"
proof -
  have "dropWhile is_space s \<noteq> []"
    using assms(3,4) by (metis dropWhile_eq_Nil_conv last_in_set)
  then obtain c cs where c: "dropWhile is_space s = c # cs" by (cases "dropWhile is_space s") auto
  then have "c \<in> set s" by (metis list.set_intros(1) set_dropWhileD)
  then have "c \<noteq> CHR ''&''" "c \<noteq> CHR ''|''" using assms by auto
  moreover have "dropWhile is_space (s @ t) = c # cs @ t"
    using c by (metis append_Cons dropWhile_append dropWhile_eq_Nil_conv list.simps(3))
  ultimately show ?thesis by (simp add: logical_operator_at_def starts_with_def)
qed

lemma replace_logical_clause:
  "CHR ''&'' \<notin> set s \<Longrightarrow> CHR ''|'' \<notin> set s \<Longrightarrow> s \<noteq> [] \<longrightarrow> \<not> is_space (last s) \<Longrightarrow>
     replace_logical (s @ t) = s @ replace_logical t"
proof (induction s)
  case (Cons c s)
  have "logical_operator_at ((c # s) @ t) = None"
    using Cons.prems by (intro no_operator_in_clause) auto
  moreover have "replace_logical (s @ t) = s @ replace_logical t"
    using Cons by (intro Cons.IH) auto
  ultimately show ?case by (subst replace_logical.simps) simp
qed simp

lemma replace_logical_operator:
  assumes "list_all is_space before" "list_all is_space after" "operator \<in> {''&&'', ''||''}"
    "s \<noteq> []" "\<not> is_space (hd s)"
  shows "replace_logical (before @ operator @ after @ s) = '' '' @ operator @ '' _placeholder_ '' @ replace_logical s"
proof -
  have drop: "dropWhile is_space (u @ v) = dropWhile is_space v" if "list_all is_space u" for u v
    using that by (auto simp: list_all_iff intro: dropWhile_append2)
  have s: "dropWhile is_space s = s" using assms(4,5) by (cases s) auto
  have "\<not> is_space (CHR ''&'')" "\<not> is_space (CHR ''|'')" by (simp_all add: is_space_def char_in_def)
  then have "logical_operator_at (before @ operator @ after @ s) = Some (operator, s)"
    using assms(3) by (auto simp: logical_operator_at_def drop [OF assms(1)] drop [OF assms(2)] s starts_with_def)
  then show ?thesis by (subst replace_logical.simps) simp
qed

text \<open>The translation of the legacy format repeats the subject for every clause: for clauses joined by \<open>&&\<close> and
  \<open>||\<close>, with any white space around the operators, the expression handed to the parser is
  \<open>_placeholder_ c1 op _placeholder_ c2 ...\<close>, with clauses and operators unchanged and in order.\<close>

theorem legacy_condition_translation:
  assumes "clause_text c"
    and "list_all (\<lambda>(before, operator, after, clause). list_all is_space before \<and> list_all is_space after \<and>
      operator \<in> {''&&'', ''||''} \<and> clause_text clause) rest"
  shows "replace_logical (legacy_text c rest) = placed c (map (\<lambda>(_, operator, _, clause). (operator, clause)) rest)"
  using assms
proof (induction rest arbitrary: c)
  case Nil
  then show ?case
    using replace_logical_clause [of c "[]"] by (simp add: clause_text_def replace_logical.simps logical_operator_at_def starts_with_def)
next
  case (Cons x rest)
  obtain before operator after clause where x: "x = (before, operator, after, clause)" by (rule prod_cases4)
  have start: "legacy_text clause rest \<noteq> []" "\<not> is_space (hd (legacy_text clause rest))"
    using Cons.prems x by (cases rest; auto simp: clause_text_def)+
  have "replace_logical (legacy_text c (x # rest)) = c @ replace_logical (before @ operator @ after @ legacy_text clause rest)"
    using Cons.prems(1) replace_logical_clause [of c] by (simp add: x clause_text_def)
  also have "\<dots> = c @ '' '' @ operator @ '' _placeholder_ '' @ replace_logical (legacy_text clause rest)"
    using Cons.prems(2) start x by (subst replace_logical_operator) auto
  finally show ?case using Cons x by simp
qed

theorem legacy_condition_translation_witness:
  "replace_logical ''> 5 && < 10||== 0'' = ''> 5 && _placeholder_ < 10 || _placeholder_ == 0''"
proof -
  have "clause_text ''> 5''" "clause_text ''< 10''" "clause_text ''== 0''"
    by (simp_all add: clause_text_def is_space_def char_in_def)
  with legacy_condition_translation [of "''> 5''" "[('' '', ''&&'', '' '', ''< 10''), ([], ''||'', [], ''== 0'')]"]
  show ?thesis by (simp add: is_space_def)
qed

end
