(* ===== verification/Streams.thy ===== *)
theory Streams
  imports Finalized_Buffer Filter_Legacy Reorg_Task
begin

text \<open>
  \<open>core/src/streams/clients.rs\<close> and \<open>mod.rs\<close>: delivery of event messages to the configured streams,
  immediately or through the finalized-delivery buffers. The publishers (HTTP, AMQP, Kafka, Redis,
  AWS, Cloudflare clients) are the record of the six \<open>publish_once\<close> calls. Publishing tasks are
  spawned onto the runtime and joined; they are independent, so the model runs them in the order they
  are spawned and keeps one result per task. Waiting between retries has no effect in the model.
  A Rust panic (\<open>expect\<close>) is the error \<open>Panic\<close>.
\<close>

section \<open>Configuration and messages\<close>

datatype delivery_mode = Instant | Finalized

record stream_event =
  se_event_name :: string
  se_conditions :: "condition_map list option"
  se_alias :: "string option"

record stream_config =
  st_networks :: "string list"
  st_events :: "stream_event list"
  st_delivery :: "delivery_mode option"

record sns_topic_config = stream_config +
  sns_prefix_id :: "string option"
  sns_topic_arn :: string

record webhook_config = stream_config +
  wh_endpoint :: string
  wh_shared_secret :: string

datatype exchange_kind = Direct | Fanout | Topic | Headers | Custom_Kind string

record rabbitmq_exchange_config = stream_config +
  mq_exchange :: string
  mq_exchange_type :: exchange_kind
  mq_routing_key :: "string option"

record kafka_topic_config = stream_config +
  kf_topic :: string
  kf_key :: "string option"

record redis_config = stream_config +
  rd_stream_name :: string

record cloudflare_queue_config = stream_config +
  cf_queue_id :: string

record event_message =
  em_event_name :: string
  em_event_data :: json
  em_event_signature_hash :: b256
  em_network :: string
  em_block_number :: u64

datatype stream_type = SNS | WEBHOOK | RABBITMQ | KAFKA | REDIS | CLOUDFLARE_QUEUES

fun stream_label :: "stream_type \<Rightarrow> string" where
  "stream_label SNS = ''sns''"
| "stream_label WEBHOOK = ''webhook''"
| "stream_label RABBITMQ = ''rabbitmq''"
| "stream_label KAFKA = ''kafka''"
| "stream_label REDIS = ''redis''"
| "stream_label CLOUDFLARE_QUEUES = ''cloudflare_queues''"

datatype stream_error =
    SnsCouldNotPublish string
  | WebhookCouldNotPublish string
  | RabbitMQCouldNotPublish string
  | KafkaCouldNotPublish string
  | RedisCouldNotPublish string
  | CloudflareQueuesCouldNotPublish string
  | Panic string

record buffer_key =
  bk_stream_type :: stream_type
  bk_config_index :: nat
  bk_network :: string
  bk_event_name :: string
  bk_event_signature_hash :: b256

type_synonym finalized_buffers = "(buffer_key \<times> json finalized_buffer) list"

type_synonym 'w publish = "('w, string, unit) io"

record 'w streams_clients =
  sns :: "(sns_topic_config list \<times> (string \<Rightarrow> string \<Rightarrow> string \<Rightarrow> 'w publish)) option"
  webhook :: "(webhook_config list \<times> (string \<Rightarrow> string \<Rightarrow> string \<Rightarrow> json \<Rightarrow> 'w publish)) option"
  rabbitmq :: "(rabbitmq_exchange_config list \<times>
    (string \<Rightarrow> string \<Rightarrow> exchange_kind \<Rightarrow> string option \<Rightarrow> json \<Rightarrow> 'w publish)) option"
  kafka :: "(kafka_topic_config list \<times> (string \<Rightarrow> string \<Rightarrow> string option \<Rightarrow> json \<Rightarrow> 'w publish)) option"
  redis :: "(redis_config list \<times> (string \<Rightarrow> string \<Rightarrow> json \<Rightarrow> 'w publish)) option"
  cloudflare_queues :: "(cloudflare_queue_config list \<times> (string \<Rightarrow> string \<Rightarrow> json \<Rightarrow> 'w publish)) option"
  finalized_buffers :: finalized_buffers
  reorg_safe_distances :: "string \<rightharpoonup> u64"

text \<open>What the code takes from the filter module and from \<open>serde\<close>/\<open>alloy\<close> formatting.\<close>

record 'd stream_lib = "'d filter_lib" +
  filter_parser :: parser
  format_b256 :: "b256 \<Rightarrow> string"

section \<open>Retry\<close>

fun retry_attempts :: "nat \<Rightarrow> ('w, 'e, 'a) io \<Rightarrow> ('w, 'e, 'a) io" where
  "retry_attempts 0 op = op"
| "retry_attempts (Suc n) op = (\<lambda>w. case op w of (Inr v, w') \<Rightarrow> (Inr v, w') | (Inl e, w') \<Rightarrow> retry_attempts n op w')"

definition publish_retry_attempts :: nat where
  "publish_retry_attempts = 3"

definition publish_with_retry :: "('w, 'e, 'a) io \<Rightarrow> ('w, 'e, 'a) io" where
  "publish_with_retry op = retry_attempts (publish_retry_attempts - 1) op"

section \<open>Distances and availability\<close>

definition register_network_reorg_distance ::
  "'w streams_clients \<Rightarrow> string \<Rightarrow> u64 \<Rightarrow> 'w streams_clients" where
  "register_network_reorg_distance sc network distance =
     sc\<lparr>reorg_safe_distances := (reorg_safe_distances sc)(network \<mapsto> distance)\<rparr>"

definition reorg_safe_distance_for :: "'w streams_clients \<Rightarrow> string \<Rightarrow> u64" where
  "reorg_safe_distance_for sc network =
     (case reorg_safe_distances sc network of Some d \<Rightarrow> d | None \<Rightarrow> 0)"

definition has_any_streams :: "'w streams_clients \<Rightarrow> bool" where
  "has_any_streams sc =
     (sns sc \<noteq> None \<or> webhook sc \<noteq> None \<or> rabbitmq sc \<noteq> None \<or> kafka sc \<noteq> None \<or>
      redis sc \<noteq> None \<or> cloudflare_queues sc \<noteq> None)"

section \<open>Chunks and chunk messages\<close>

definition max_chunk_size :: nat where
  "max_chunk_size = 75 * 1024"

fun chunk_loop :: "(json \<Rightarrow> nat) \<Rightarrow> nat \<Rightarrow> json list \<Rightarrow> nat \<Rightarrow> json list list \<Rightarrow> json list \<Rightarrow> json list list" where
  "chunk_loop size_of limit current_chunk current_size chunks [] =
     (if current_chunk \<noteq> [] then chunks @ [current_chunk] else chunks)"
| "chunk_loop size_of limit current_chunk current_size chunks (item # rest) =
     (let item_size = size_of item in
      if current_size + item_size > limit
      then chunk_loop size_of limit [item] item_size (chunks @ [current_chunk]) rest
      else chunk_loop size_of limit (current_chunk @ [item]) (current_size + item_size) chunks rest)"

definition chunk_data :: "('d, 'z) stream_lib_scheme \<Rightarrow> json list \<Rightarrow> json list list" where
  "chunk_data L data_array = chunk_loop (\<lambda>item. length (json_to_string L item)) max_chunk_size [] 0 [] data_array"

definition find_event :: "stream_event list \<Rightarrow> string \<Rightarrow> stream_event option" where
  "find_event events name = List.find (\<lambda>e. se_event_name e = name) events"

definition get_event_name :: "stream_event list \<Rightarrow> event_message \<Rightarrow> string" where
  "get_event_name events msg =
     (case Option.bind (find_event events (em_event_name msg)) se_alias of
        Some alias \<Rightarrow> alias | None \<Rightarrow> em_event_name msg)"

definition message_to_json :: "('d, 'z) stream_lib_scheme \<Rightarrow> event_message \<Rightarrow> json" where
  "message_to_json L msg =
     J_Object [(''event_name'', J_String (em_event_name msg)),
       (''event_data'', em_event_data msg),
       (''event_signature_hash'', J_String (format_b256 L (em_event_signature_hash msg))),
       (''network'', J_String (em_network msg)),
       (''block_number'', J_Number (Pos_Int (em_block_number msg)))]"

definition create_chunk_message_json ::
  "('d, 'z) stream_lib_scheme \<Rightarrow> stream_event list \<Rightarrow> event_message \<Rightarrow> json list \<Rightarrow> json" where
  "create_chunk_message_json L events msg chunk =
     message_to_json L (msg\<lparr>em_event_name := get_event_name events msg, em_event_data := J_Array chunk\<rparr>)"

definition create_chunk_message_raw ::
  "('d, 'z) stream_lib_scheme \<Rightarrow> stream_event list \<Rightarrow> event_message \<Rightarrow> json list \<Rightarrow> string" where
  "create_chunk_message_raw L events msg chunk =
     json_to_string L (message_to_json L
       (msg\<lparr>em_event_name := get_event_name events msg, em_event_data := J_Array chunk\<rparr>))"

definition generate_publish_message_id :: "string \<Rightarrow> nat \<Rightarrow> string option \<Rightarrow> string" where
  "generate_publish_message_id msg_id index prefix_id =
     ''rindexer_stream__'' @ (case prefix_id of Some p \<Rightarrow> p | None \<Rightarrow> []) @ ''-'' @ to_lowercase msg_id @
     ''-chunk-'' @ show_nat index"

definition native_transfer_event :: string where
  "native_transfer_event = ''NativeTransfer''"

definition filter_chunk_event_data_by_conditions ::
  "('d::linorder, 'z) stream_lib_scheme \<Rightarrow> stream_event list \<Rightarrow> event_message \<Rightarrow> json list \<Rightarrow> bool \<Rightarrow>
     stream_error + json list" where
  "filter_chunk_event_data_by_conditions L events msg chunk force =
     (if force then Inr chunk
      else case find_event events (em_event_name msg) of
        None \<Rightarrow>
          if em_event_name msg = native_transfer_event then Inr chunk
          else Inl (Panic ''Failed to find stream event - should never happen please raise an issue'')
      | Some stream_event \<Rightarrow>
          Inr (filter (\<lambda>event_data.
            case se_conditions stream_event of
              Some conditions \<Rightarrow> filter_event_data_by_conditions L (filter_parser L) event_data conditions
            | None \<Rightarrow> True) chunk))"

section \<open>Routing and buffering\<close>

definition should_buffer :: "delivery_mode option \<Rightarrow> event_message \<Rightarrow> bool \<Rightarrow> bool" where
  "should_buffer delivery msg force =
     (if force then False
      else if em_block_number msg = 0 then False
      else delivery = Some Finalized)"

fun hm_update :: "'k \<Rightarrow> 'v \<Rightarrow> ('v \<Rightarrow> 'v) \<Rightarrow> ('k \<times> 'v) list \<Rightarrow> ('k \<times> 'v) list" where
  "hm_update k new f [] = [(k, f new)]"
| "hm_update k new f ((j, v) # m) = (if j = k then (j, f v) # m else (j, v) # hm_update k new f m)"

definition message_key :: "stream_type \<Rightarrow> nat \<Rightarrow> event_message \<Rightarrow> buffer_key" where
  "message_key st config_index msg =
     \<lparr>bk_stream_type = st, bk_config_index = config_index, bk_network = em_network msg,
      bk_event_name = em_event_name msg, bk_event_signature_hash = em_event_signature_hash msg\<rparr>"

definition buffer_event :: "stream_type \<Rightarrow> nat \<Rightarrow> event_message \<Rightarrow> finalized_buffers \<Rightarrow> finalized_buffers" where
  "buffer_event st config_index msg bufs =
     hm_update (message_key st config_index msg) fb_new
       (\<lambda>b. case em_event_data msg of
              J_Array data \<Rightarrow> fb_add b (em_block_number msg) data
            | _ \<Rightarrow> b) bufs"

definition should_send_for_config :: "stream_event list \<Rightarrow> string \<Rightarrow> bool \<Rightarrow> bool \<Rightarrow> bool" where
  "should_send_for_config config_events event_name is_trace_event force =
     (force \<or> is_trace_event \<or> list_ex (\<lambda>e. se_event_name e = event_name) config_events)"

section \<open>Publishing tasks\<close>

type_synonym 'w task = "('w, stream_error, nat) io"

fun chunk_tasks ::
  "('d::linorder, 'z) stream_lib_scheme \<Rightarrow> stream_event list \<Rightarrow> event_message \<Rightarrow> bool \<Rightarrow>
     (nat \<Rightarrow> json list \<Rightarrow> ('w, stream_error, unit) io) \<Rightarrow> nat \<Rightarrow> json list list \<Rightarrow>
     stream_error + 'w task list" where
  "chunk_tasks L events msg force publish index [] = Inr []"
| "chunk_tasks L events msg force publish index (chunk # chunks) =
     sum_bind (filter_chunk_event_data_by_conditions L events msg chunk force) (\<lambda>filtered_chunk.
     sum_bind (chunk_tasks L events msg force publish (Suc index) chunks) (\<lambda>tasks.
     Inr (io_then (publish index filtered_chunk) (io_ret (length filtered_chunk)) # tasks)))"

definition sns_stream_tasks ::
  "('d::linorder, 'z) stream_lib_scheme \<Rightarrow> sns_topic_config \<Rightarrow>
     (string \<Rightarrow> string \<Rightarrow> string \<Rightarrow> 'w publish) \<Rightarrow> string \<Rightarrow> event_message \<Rightarrow> json list list \<Rightarrow> bool \<Rightarrow>
     stream_error + 'w task list" where
  "sns_stream_tasks L config client msg_id msg chunks force =
     chunk_tasks L (st_events config) msg force (\<lambda>index filtered_chunk.
       io_map_err SnsCouldNotPublish (publish_with_retry
         (client (generate_publish_message_id msg_id index (sns_prefix_id config)) (sns_topic_arn config)
            (create_chunk_message_raw L (st_events config) msg filtered_chunk)))) 0 chunks"

definition webhook_stream_tasks ::
  "('d::linorder, 'z) stream_lib_scheme \<Rightarrow> webhook_config \<Rightarrow>
     (string \<Rightarrow> string \<Rightarrow> string \<Rightarrow> json \<Rightarrow> 'w publish) \<Rightarrow> string \<Rightarrow> event_message \<Rightarrow> json list list \<Rightarrow> bool \<Rightarrow>
     stream_error + 'w task list" where
  "webhook_stream_tasks L config client msg_id msg chunks force =
     chunk_tasks L (st_events config) msg force (\<lambda>index filtered_chunk.
       io_map_err WebhookCouldNotPublish (publish_with_retry
         (client (generate_publish_message_id msg_id index None) (wh_endpoint config) (wh_shared_secret config)
            (create_chunk_message_json L (st_events config) msg filtered_chunk)))) 0 chunks"

definition rabbitmq_stream_tasks ::
  "('d::linorder, 'z) stream_lib_scheme \<Rightarrow> rabbitmq_exchange_config \<Rightarrow>
     (string \<Rightarrow> string \<Rightarrow> exchange_kind \<Rightarrow> string option \<Rightarrow> json \<Rightarrow> 'w publish) \<Rightarrow> string \<Rightarrow> event_message \<Rightarrow>
     json list list \<Rightarrow> bool \<Rightarrow> stream_error + 'w task list" where
  "rabbitmq_stream_tasks L config client msg_id msg chunks force =
     chunk_tasks L (st_events config) msg force (\<lambda>index filtered_chunk.
       io_map_err RabbitMQCouldNotPublish (publish_with_retry
         (client (generate_publish_message_id msg_id index None) (mq_exchange config) (mq_exchange_type config)
            (mq_routing_key config) (create_chunk_message_json L (st_events config) msg filtered_chunk)))) 0 chunks"

definition kafka_stream_tasks ::
  "('d::linorder, 'z) stream_lib_scheme \<Rightarrow> kafka_topic_config \<Rightarrow>
     (string \<Rightarrow> string \<Rightarrow> string option \<Rightarrow> json \<Rightarrow> 'w publish) \<Rightarrow> string \<Rightarrow> event_message \<Rightarrow> json list list \<Rightarrow>
     bool \<Rightarrow> stream_error + 'w task list" where
  "kafka_stream_tasks L config client msg_id msg chunks force =
     chunk_tasks L (st_events config) msg force (\<lambda>index filtered_chunk.
       io_map_err KafkaCouldNotPublish (publish_with_retry
         (client (generate_publish_message_id msg_id index None) (kf_topic config) (kf_key config)
            (create_chunk_message_json L (st_events config) msg filtered_chunk)))) 0 chunks"

definition redis_stream_tasks ::
  "('d::linorder, 'z) stream_lib_scheme \<Rightarrow> redis_config \<Rightarrow> (string \<Rightarrow> string \<Rightarrow> json \<Rightarrow> 'w publish) \<Rightarrow>
     string \<Rightarrow> event_message \<Rightarrow> json list list \<Rightarrow> bool \<Rightarrow> stream_error + 'w task list" where
  "redis_stream_tasks L config client msg_id msg chunks force =
     chunk_tasks L (st_events config) msg force (\<lambda>index filtered_chunk.
       io_map_err RedisCouldNotPublish (publish_with_retry
         (client (generate_publish_message_id msg_id index None) (rd_stream_name config)
            (create_chunk_message_json L (st_events config) msg filtered_chunk)))) 0 chunks"

definition cloudflare_queues_stream_tasks ::
  "('d::linorder, 'z) stream_lib_scheme \<Rightarrow> cloudflare_queue_config \<Rightarrow>
     (string \<Rightarrow> string \<Rightarrow> json \<Rightarrow> 'w publish) \<Rightarrow> string \<Rightarrow> event_message \<Rightarrow> json list list \<Rightarrow> bool \<Rightarrow>
     stream_error + 'w task list" where
  "cloudflare_queues_stream_tasks L config client msg_id msg chunks force =
     chunk_tasks L (st_events config) msg force (\<lambda>index filtered_chunk.
       io_map_err CloudflareQueuesCouldNotPublish (publish_with_retry
         (client (generate_publish_message_id msg_id index None) (cf_queue_id config)
            (create_chunk_message_json L (st_events config) msg filtered_chunk)))) 0 chunks"

text \<open>One loop of \<open>stream_with_mode\<close> over the configurations of a backend: it either buffers the message
  for the configuration or adds its publishing tasks.\<close>

fun route_configs ::
  "stream_type \<Rightarrow> event_message \<Rightarrow> bool \<Rightarrow> bool \<Rightarrow> ('z stream_config_scheme \<Rightarrow> stream_error + 'w task list) \<Rightarrow>
     (nat \<times> 'z stream_config_scheme) list \<Rightarrow> 'w task list list \<Rightarrow>
     (finalized_buffers, stream_error, 'w task list list) io" where
  "route_configs st msg trace force tasks_of [] streams = io_ret streams"
| "route_configs st msg trace force tasks_of ((idx, config) # configs) streams =
     (if should_send_for_config (st_events config) (em_event_name msg) trace force \<and>
         em_network msg \<in> set (st_networks config)
      then if should_buffer (st_delivery config) msg force
           then (\<lambda>bufs. route_configs st msg trace force tasks_of configs streams (buffer_event st idx msg bufs))
           else io_bind (io_lift (tasks_of config)) (\<lambda>tasks.
                  route_configs st msg trace force tasks_of configs (streams @ [tasks]))
      else route_configs st msg trace force tasks_of configs streams)"

definition route_backend ::
  "stream_type \<Rightarrow> event_message \<Rightarrow> bool \<Rightarrow> bool \<Rightarrow>
     ('z stream_config_scheme \<Rightarrow> 'c \<Rightarrow> stream_error + 'w task list) \<Rightarrow>
     ('z stream_config_scheme list \<times> 'c) option \<Rightarrow> 'w task list list \<Rightarrow>
     (finalized_buffers, stream_error, 'w task list list) io" where
  "route_backend st msg trace force tasks_of backend streams =
     (case backend of
        None \<Rightarrow> io_ret streams
      | Some (configs, client) \<Rightarrow>
          route_configs st msg trace force (\<lambda>config. tasks_of config client) (enumerate_from 0 configs) streams)"

definition route_message ::
  "('d::linorder, 'z) stream_lib_scheme \<Rightarrow> 'w streams_clients \<Rightarrow> string \<Rightarrow> event_message \<Rightarrow> bool \<Rightarrow> bool \<Rightarrow>
     json list list \<Rightarrow> (finalized_buffers, stream_error, 'w task list list) io" where
  "route_message L sc msg_id msg trace force chunks =
     io_bind (route_backend SNS msg trace force
       (\<lambda>config client. sns_stream_tasks L config client msg_id msg chunks force) (sns sc) []) (\<lambda>streams.
     io_bind (route_backend WEBHOOK msg trace force
       (\<lambda>config client. webhook_stream_tasks L config client msg_id msg chunks force) (webhook sc) streams) (\<lambda>streams.
     io_bind (route_backend RABBITMQ msg trace force
       (\<lambda>config client. rabbitmq_stream_tasks L config client msg_id msg chunks force) (rabbitmq sc) streams) (\<lambda>streams.
     io_bind (route_backend KAFKA msg trace force
       (\<lambda>config client. kafka_stream_tasks L config client msg_id msg chunks force) (kafka sc) streams) (\<lambda>streams.
     io_bind (route_backend REDIS msg trace force
       (\<lambda>config client. redis_stream_tasks L config client msg_id msg chunks force) (redis sc) streams) (\<lambda>streams.
     route_backend CLOUDFLARE_QUEUES msg trace force
       (\<lambda>config client. cloudflare_queues_stream_tasks L config client msg_id msg chunks force)
       (cloudflare_queues sc) streams)))))"

section \<open>Joining the tasks\<close>

fun run_tasks :: "'w task list \<Rightarrow> 'w \<Rightarrow> (stream_error + nat) list \<times> 'w" where
  "run_tasks [] w = ([], w)"
| "run_tasks (t # ts) w = (let (r, w') = t w; (rs, w'') = run_tasks ts w' in (r # rs, w''))"

fun sum_results :: "nat \<Rightarrow> (stream_error + nat) list \<Rightarrow> stream_error + nat" where
  "sum_results streamed_total [] = Inr streamed_total"
| "sum_results streamed_total (Inr n # rs) = sum_results (streamed_total + n) rs"
| "sum_results streamed_total (Inl e # rs) = Inl e"

fun sum_nested :: "nat \<Rightarrow> (stream_error + nat) list list \<Rightarrow> stream_error + nat" where
  "sum_nested streamed_total [] = Inr streamed_total"
| "sum_nested streamed_total (rs # rss) =
     (case sum_results streamed_total rs of
        Inl e \<Rightarrow> Inl e
      | Inr streamed_total' \<Rightarrow> sum_nested streamed_total' rss)"

fun run_nested :: "'w task list list \<Rightarrow> 'w \<Rightarrow> (stream_error + nat) list list \<times> 'w" where
  "run_nested [] w = ([], w)"
| "run_nested (ts # tss) w = (let (rs, w') = run_tasks ts w; (rss, w'') = run_nested tss w' in (rs # rss, w''))"

definition await_streams :: "bool \<Rightarrow> 'w task list list \<Rightarrow> ('w, stream_error, nat) io" where
  "await_streams in_order streams = (\<lambda>w.
     if in_order then (let (rss, w') = run_nested streams w in (sum_nested 0 rss, w'))
     else (let (rs, w') = run_tasks (concat streams) w in (sum_results 0 rs, w')))"

section \<open>Streaming\<close>

text \<open>The buffers live behind the client's mutex, so the world of these operations is the client together
  with the outside world.\<close>

definition stream_with_mode ::
  "('d::linorder, 'z) stream_lib_scheme \<Rightarrow> string \<Rightarrow> event_message \<Rightarrow> bool \<Rightarrow> bool \<Rightarrow> bool \<Rightarrow>
     ('w streams_clients \<times> 'w, stream_error, nat) io" where
  "stream_with_mode L msg_id msg in_order trace force = (\<lambda>(sc, w).
     if \<not> has_any_streams sc then (Inr 0, (sc, w))
     else case em_event_data msg of
       J_Array data_array \<Rightarrow>
         (case route_message L sc msg_id msg trace force (chunk_data L data_array) (finalized_buffers sc) of
            (Inl e, bufs) \<Rightarrow> (Inl e, (sc\<lparr>finalized_buffers := bufs\<rparr>, w))
          | (Inr streams, bufs) \<Rightarrow>
              (let (r, w') = await_streams in_order streams w in (r, (sc\<lparr>finalized_buffers := bufs\<rparr>, w'))))
     | _ \<Rightarrow> (Inl (Panic ''Event data should be an array''), (sc, w)))"

definition stream_message ::
  "('d::linorder, 'z) stream_lib_scheme \<Rightarrow> string \<Rightarrow> event_message \<Rightarrow> bool \<Rightarrow> bool \<Rightarrow>
     ('w streams_clients \<times> 'w, stream_error, nat) io" where
  "stream_message L msg_id msg index_event_in_order is_trace_event =
     stream_with_mode L msg_id msg index_event_in_order is_trace_event False"

definition affected_event_json :: "affected_table \<Rightarrow> json" where
  "affected_event_json t =
     J_Object [(''indexer'', J_String (at_indexer_name t)), (''contract'', J_String (at_contract_name t)),
       (''event'', J_String (at_event_name t)), (''schema'', J_String (at_schema t)),
       (''table'', J_String (at_table_name t)), (''rows_deleted'', J_Number (Pos_Int (at_rows_deleted t)))]"

definition reorg_payload ::
  "('d, 'z) stream_lib_scheme \<Rightarrow> string \<Rightarrow> u64 \<Rightarrow> u64 \<Rightarrow> u64 \<Rightarrow> b256 list \<Rightarrow> affected_table list \<Rightarrow> json" where
  "reorg_payload L network fork_block depth events_deleted tx_hashes tables =
     J_Object [(''type'', J_String ''reorg''), (''network'', J_String network),
       (''fork_block'', J_Number (Pos_Int fork_block)), (''depth'', J_Number (Pos_Int depth)),
       (''events_deleted'', J_Number (Pos_Int events_deleted)),
       (''affected_tx_hashes'', J_Array (map (\<lambda>h. J_String (format_b256 L h)) tx_hashes)),
       (''affected_events'', J_Array (map affected_event_json tables))]"

definition reorg_message ::
  "('d, 'z) stream_lib_scheme \<Rightarrow> string \<Rightarrow> u64 \<Rightarrow> u64 \<Rightarrow> u64 \<Rightarrow> b256 list \<Rightarrow> affected_table list \<Rightarrow> event_message" where
  "reorg_message L network fork_block depth events_deleted tx_hashes tables =
     \<lparr>em_event_name = ''__rindexer_reorg'',
      em_event_data = J_Array [reorg_payload L network fork_block depth events_deleted tx_hashes tables],
      em_event_signature_hash = 0, em_network = network, em_block_number = 0\<rparr>"

definition stream_reorg ::
  "('d::linorder, 'z) stream_lib_scheme \<Rightarrow> string \<Rightarrow> u64 \<Rightarrow> u64 \<Rightarrow> u64 \<Rightarrow> b256 list \<Rightarrow> affected_table list \<Rightarrow>
     ('w streams_clients \<times> 'w, stream_error, nat) io" where
  "stream_reorg L network fork_block depth events_deleted tx_hashes tables = (\<lambda>(sc, w).
     if \<not> has_any_streams sc then (Inr 0, (sc, w))
     else stream_with_mode L (''reorg_'' @ network @ ''_'' @ show_word fork_block)
            (reorg_message L network fork_block depth events_deleted tx_hashes tables) False False True (sc, w))"

section \<open>Flushing and discarding\<close>

fun drain_buffers ::
  "string \<Rightarrow> u64 \<Rightarrow> u64 \<Rightarrow> finalized_buffers \<Rightarrow>
     (buffer_key \<times> (u64 \<times> json list) list) list \<times> finalized_buffers" where
  "drain_buffers network head distance [] = ([], [])"
| "drain_buffers network head distance ((key, buffer) # bufs) =
     (let (ready_by_key, bufs') = drain_buffers network head distance bufs in
      if bk_network key \<noteq> network then (ready_by_key, (key, buffer) # bufs')
      else (let (ready, buffer') = fb_flush buffer head distance in
            ((if ready \<noteq> [] then (key, ready) # ready_by_key else ready_by_key), (key, buffer') # bufs')))"

definition nth_config :: "'c list \<Rightarrow> nat \<Rightarrow> stream_error + 'c" where
  "nth_config configs i = (if i < length configs then Inr (configs ! i) else Inl (Panic ''index out of bounds''))"

definition tasks_for_key ::
  "('d::linorder, 'z) stream_lib_scheme \<Rightarrow> 'w streams_clients \<Rightarrow> buffer_key \<Rightarrow> string \<Rightarrow> event_message \<Rightarrow>
     json list list \<Rightarrow> stream_error + 'w task list" where
  "tasks_for_key L sc key msg_id msg chunks =
     (case bk_stream_type key of
        SNS \<Rightarrow> (case sns sc of
          None \<Rightarrow> Inl (Panic ''sns buffer without sns config'')
        | Some (configs, client) \<Rightarrow> sum_bind (nth_config configs (bk_config_index key))
            (\<lambda>config. sns_stream_tasks L config client msg_id msg chunks False))
      | WEBHOOK \<Rightarrow> (case webhook sc of
          None \<Rightarrow> Inl (Panic ''webhook buffer without webhook config'')
        | Some (configs, client) \<Rightarrow> sum_bind (nth_config configs (bk_config_index key))
            (\<lambda>config. webhook_stream_tasks L config client msg_id msg chunks False))
      | RABBITMQ \<Rightarrow> (case rabbitmq sc of
          None \<Rightarrow> Inl (Panic ''rabbitmq buffer without rabbitmq config'')
        | Some (configs, client) \<Rightarrow> sum_bind (nth_config configs (bk_config_index key))
            (\<lambda>config. rabbitmq_stream_tasks L config client msg_id msg chunks False))
      | KAFKA \<Rightarrow> (case kafka sc of
          None \<Rightarrow> Inl (Panic ''kafka buffer without kafka config'')
        | Some (configs, client) \<Rightarrow> sum_bind (nth_config configs (bk_config_index key))
            (\<lambda>config. kafka_stream_tasks L config client msg_id msg chunks False))
      | REDIS \<Rightarrow> (case redis sc of
          None \<Rightarrow> Inl (Panic ''redis buffer without redis config'')
        | Some (configs, client) \<Rightarrow> sum_bind (nth_config configs (bk_config_index key))
            (\<lambda>config. redis_stream_tasks L config client msg_id msg chunks False))
      | CLOUDFLARE_QUEUES \<Rightarrow> (case cloudflare_queues sc of
          None \<Rightarrow> Inl (Panic ''cloudflare_queues buffer without cloudflare_queues config'')
        | Some (configs, client) \<Rightarrow> sum_bind (nth_config configs (bk_config_index key))
            (\<lambda>config. cloudflare_queues_stream_tasks L config client msg_id msg chunks False)))"

definition flushed_message :: "buffer_key \<Rightarrow> u64 \<Rightarrow> json list \<Rightarrow> event_message" where
  "flushed_message key block_number events =
     \<lparr>em_event_name = bk_event_name key, em_event_data = J_Array events,
      em_event_signature_hash = bk_event_signature_hash key, em_network = bk_network key,
      em_block_number = block_number\<rparr>"

definition flushed_id :: "buffer_key \<Rightarrow> u64 \<Rightarrow> string" where
  "flushed_id key block_number =
     ''finalized_'' @ stream_label (bk_stream_type key) @ ''_'' @ show_nat (bk_config_index key) @ ''_'' @
     bk_network key @ ''_blk'' @ show_word block_number"

fun flushed_tasks ::
  "('d::linorder, 'z) stream_lib_scheme \<Rightarrow> 'w streams_clients \<Rightarrow> buffer_key \<Rightarrow> (u64 \<times> json list) list \<Rightarrow>
     stream_error + 'w task list" where
  "flushed_tasks L sc key [] = Inr []"
| "flushed_tasks L sc key ((block_number, events) # ready) =
     sum_bind (tasks_for_key L sc key (flushed_id key block_number) (flushed_message key block_number events)
                (chunk_data L events)) (\<lambda>tasks.
     sum_bind (flushed_tasks L sc key ready) (\<lambda>all_tasks. Inr (tasks @ all_tasks)))"

fun sum_or_first_error :: "nat \<Rightarrow> 'e option \<Rightarrow> ('e + nat) list \<Rightarrow> 'e + nat" where
  "sum_or_first_error total_sent first_err [] = (case first_err of Some e \<Rightarrow> Inl e | None \<Rightarrow> Inr total_sent)"
| "sum_or_first_error total_sent first_err (Inr n # rs) = sum_or_first_error (total_sent + n) first_err rs"
| "sum_or_first_error total_sent first_err (Inl e # rs) =
     sum_or_first_error total_sent (case first_err of None \<Rightarrow> Some e | Some f \<Rightarrow> Some f) rs"

definition dispatch_flushed ::
  "('d::linorder, 'z) stream_lib_scheme \<Rightarrow> 'w streams_clients \<Rightarrow> buffer_key \<Rightarrow> (u64 \<times> json list) list \<Rightarrow>
     'w task" where
  "dispatch_flushed L sc key ready = (\<lambda>w.
     case flushed_tasks L sc key ready of
       Inl panic \<Rightarrow> (Inl panic, w)
     | Inr all_tasks \<Rightarrow> (let (rs, w') = run_tasks all_tasks w in (sum_or_first_error 0 None rs, w')))"

fun dispatch_all ::
  "('d::linorder, 'z) stream_lib_scheme \<Rightarrow> 'w streams_clients \<Rightarrow> nat \<Rightarrow> stream_error option \<Rightarrow>
     (buffer_key \<times> (u64 \<times> json list) list) list \<Rightarrow> 'w task" where
  "dispatch_all L sc total_sent first_err [] w =
     ((case first_err of Some e \<Rightarrow> Inl e | None \<Rightarrow> Inr total_sent), w)"
| "dispatch_all L sc total_sent first_err ((key, ready) # rest) w =
     (case dispatch_flushed L sc key ready w of
        (Inr n, w') \<Rightarrow> dispatch_all L sc (total_sent + n) first_err rest w'
      | (Inl (Panic m), w') \<Rightarrow> (Inl (Panic m), w')
      | (Inl e, w') \<Rightarrow>
          dispatch_all L sc total_sent (case first_err of None \<Rightarrow> Some e | Some f \<Rightarrow> Some f) rest w')"

definition flush_finalized ::
  "('d::linorder, 'z) stream_lib_scheme \<Rightarrow> string \<Rightarrow> u64 \<Rightarrow> ('w streams_clients \<times> 'w, stream_error, nat) io" where
  "flush_finalized L network head_block = (\<lambda>(sc, w).
     let distance = reorg_safe_distance_for sc network;
         (ready_by_key, bufs) = drain_buffers network head_block distance (finalized_buffers sc);
         sc' = sc\<lparr>finalized_buffers := bufs\<rparr>;
         (r, w') = dispatch_all L sc' 0 None ready_by_key w
     in (r, (sc', w')))"

definition discard_buffers :: "string \<Rightarrow> u64 \<Rightarrow> u64 \<Rightarrow> finalized_buffers \<Rightarrow> finalized_buffers" where
  "discard_buffers network fork_point detection_point bufs =
     map (\<lambda>(key, buffer).
       (key, if bk_network key \<noteq> network then buffer
             else fb_discard_range buffer fork_point detection_point)) bufs"

definition discard_finalized :: "string \<Rightarrow> u64 \<Rightarrow> u64 \<Rightarrow> 'w streams_clients \<Rightarrow> 'w streams_clients" where
  "discard_finalized network fork_point detection_point sc =
     sc\<lparr>finalized_buffers := discard_buffers network fork_point detection_point (finalized_buffers sc)\<rparr>"

end
