(* ===== verification/Reorg_Coordinator.thy ===== *)
theory Reorg_Coordinator
  imports Reorg_Rollback Streams
begin

text \<open>
  \<open>core/src/indexer/reorg/coordinator.rs\<close>, \<open>persistence.rs\<close> and \<open>detect_and_handle_reorg\<close> of \<open>mod.rs\<close>:
  the state machine that watches the blocks of one network. Its operations change the coordinator and
  the outside world, so they run on the pair of both; an operation that fails keeps what it changed
  before. The node, the databases, the registries' callbacks and the runtime's \<open>spawn\<close> are
  parameters. Futures joined with \<open>join_all\<close> run in list order. Counters and block numbers are 64-bit and
  wrap, as in a release build; metrics and log lines are left out.
\<close>

section \<open>Persistence of block hashes\<close>

record 'w hash_pg =
  hp_query :: "string \<Rightarrow> sql_param list \<Rightarrow> ('w, string, (int \<times> string \<times> string) list) io"
  hp_execute :: "string \<Rightarrow> sql_param list \<Rightarrow> ('w, string, nat) io"

record 'w hash_ch =
  hc_query_all :: "string \<Rightarrow> ('w, string, (u64 \<times> string \<times> string) list) io"
  hc_execute :: "string \<Rightarrow> ('w, string, unit) io"

record 'w block_hash_persistence =
  bp_postgres :: "'w hash_pg option"
  bp_clickhouse :: "'w hash_ch option"

record ('d, 'w) reorg_env = "'d stream_lib" +
  parse_b256 :: "string \<Rightarrow> string + b256"
  spawn_task :: "('w, anyhow, unit) io \<Rightarrow> 'w \<Rightarrow> 'w"

definition load_pg_sql :: string where
  "load_pg_sql = ''SELECT block_number, block_hash, parent_hash '' @
     ''FROM rindexer_internal.reorg_block_hashes WHERE network = $1 ORDER BY block_number ASC''"

definition load_ch_sql :: "string \<Rightarrow> string" where
  "load_ch_sql network = ''SELECT block_number, block_hash, parent_hash '' @
     ''FROM rindexer_internal.reorg_block_hashes FINAL WHERE network = '' @ squoted network @
     '' ORDER BY block_number ASC''"

definition parse_hash ::
  "('d, 'w, 'z) reorg_env_scheme \<Rightarrow> string \<Rightarrow> string \<Rightarrow> string \<Rightarrow> anyhow + b256" where
  "parse_hash E field s block_text =
     map_err (\<lambda>e. [''Failed to parse '' @ field @ '' '' @ squoted s @ '' at block '' @ block_text, e])
       (parse_b256 E s)"

fun load_pg_rows ::
  "('d, 'w, 'z) reorg_env_scheme \<Rightarrow> block_chain_window \<Rightarrow> (int \<times> string \<times> string) list \<Rightarrow>
     anyhow + block_chain_window" where
  "load_pg_rows E window [] = Inr window"
| "load_pg_rows E window ((block_number, h, p) # rows) =
     sum_bind (parse_hash E ''block_hash'' h (show_int block_number)) (\<lambda>block_hash.
     sum_bind (parse_hash E ''parent_hash'' p (show_int block_number)) (\<lambda>parent_hash.
     if block_number < 0
     then Inl [''Negative block_number '' @ show_int block_number @ '' in reorg_block_hashes'',
            ''out of range integral type conversion attempted'']
     else load_pg_rows E (wnd_insert window (of_int block_number) block_hash parent_hash) rows))"

fun load_ch_rows ::
  "('d, 'w, 'z) reorg_env_scheme \<Rightarrow> block_chain_window \<Rightarrow> (u64 \<times> string \<times> string) list \<Rightarrow>
     anyhow + block_chain_window" where
  "load_ch_rows E window [] = Inr window"
| "load_ch_rows E window ((block_number, h, p) # rows) =
     sum_bind (parse_hash E ''block_hash'' h (show_word block_number)) (\<lambda>block_hash.
     sum_bind (parse_hash E ''parent_hash'' p (show_word block_number)) (\<lambda>parent_hash.
     load_ch_rows E (wnd_insert window block_number block_hash parent_hash) rows))"

definition persistence_load ::
  "('d, 'w, 'z) reorg_env_scheme \<Rightarrow> 'w block_hash_persistence \<Rightarrow> string \<Rightarrow> nat \<Rightarrow>
     ('w, anyhow, block_chain_window) io" where
  "persistence_load E pers network window_size =
     io_then (io_lift (validate_sql_value network ''network''))
     (io_bind (io_lift (map_err (\<lambda>e. [e]) (wnd_try_new window_size))) (\<lambda>window.
      case bp_postgres pers of
        Some pg \<Rightarrow>
          io_bind (with_context ''Failed to load reorg_block_hashes from postgres''
                     (hp_query pg load_pg_sql [P_Text network])) (\<lambda>rows.
          io_lift (load_pg_rows E window rows))
      | None \<Rightarrow>
          (case bp_clickhouse pers of
             Some ch \<Rightarrow>
               io_bind (with_context ''Failed to load reorg_block_hashes from clickhouse''
                          (hc_query_all ch (load_ch_sql network))) (\<lambda>rows.
               io_lift (load_ch_rows E window rows))
           | None \<Rightarrow> io_ret window)))"

definition is_hash_text :: "string \<Rightarrow> bool" where
  "is_hash_text s = (starts_with ''0x'' s \<and> length s = 66 \<and> list_all is_ascii_hexdigit (drop 2 s))"

definition upsert_block_sql :: string where
  "upsert_block_sql = ''INSERT INTO rindexer_internal.reorg_block_hashes '' @
     ''(network, block_number, block_hash, parent_hash) VALUES ($1, $2, $3, $4) '' @
     ''ON CONFLICT (network, block_number) DO UPDATE SET block_hash = EXCLUDED.block_hash, '' @
     ''parent_hash = EXCLUDED.parent_hash''"

definition persistence_insert_block ::
  "'w block_hash_persistence \<Rightarrow> string \<Rightarrow> u64 \<Rightarrow> string \<Rightarrow> string \<Rightarrow> ('w, anyhow, unit) io" where
  "persistence_insert_block pers network block_number block_hash parent_hash =
     io_then (io_lift (validate_sql_value network ''network''))
     (io_then (io_lift (ensure (is_hash_text block_hash)
        (''block_hash is not a valid 0x-prefixed hex string: '' @ block_hash)))
     (io_then (io_lift (ensure (is_hash_text parent_hash)
        (''parent_hash is not a valid 0x-prefixed hex string: '' @ parent_hash)))
     (io_then (io_opt (bp_postgres pers) (\<lambda>pg.
        io_bind (with_context (''block_number '' @ show_word block_number @ '' exceeds i64 range'')
                   (io_lift (i64_try_from ''out of range integral type conversion attempted'' block_number)))
          (\<lambda>block_number_i64.
        with_context (''Failed to insert block '' @ show_word block_number @ '' into postgres'')
          (io_void (hp_execute pg upsert_block_sql
             [P_Text network, P_I64 block_number_i64, P_Text block_hash, P_Text parent_hash])))))
     (io_opt (bp_clickhouse pers) (\<lambda>ch.
        with_context (''Failed to insert block '' @ show_word block_number @ '' into clickhouse'')
          (hc_execute ch (ch_insert_hash_sql network block_number block_hash parent_hash)))))))"

definition persistence_prune ::
  "'w block_hash_persistence \<Rightarrow> string \<Rightarrow> u64 \<Rightarrow> ('w, anyhow, unit) io" where
  "persistence_prune pers network older_than =
     io_then (io_lift (validate_sql_value network ''network''))
     (io_then (io_opt (bp_postgres pers) (\<lambda>pg.
        with_context ''Failed to prune reorg_block_hashes in postgres''
          (io_void (hp_execute pg (''DELETE FROM rindexer_internal.reorg_block_hashes '' @
             ''WHERE network = $1 AND block_number < $2'') [P_Text network, P_I64 older_than]))))
     (io_opt (bp_clickhouse pers) (\<lambda>ch.
        with_context ''Failed to prune reorg_block_hashes in clickhouse''
          (hc_execute ch (''ALTER TABLE rindexer_internal.reorg_block_hashes DELETE WHERE network = '' @
             squoted network @ '' AND block_number < '' @ show_word older_than)))))"

section \<open>The coordinator\<close>

record 'w reorg_coordinator =
  rc_network :: string
  rc_window :: block_chain_window
  rc_persistence :: "'w block_hash_persistence"
  rc_provider :: "'w chain_provider option"
  rc_event_tables :: "event_table_info list"
  rc_derived_tables :: "derived_table_info list"
  rc_streams_clients :: "'w streams_clients option list"
  rc_blocks_since_flush :: u64

type_synonym ('w, 'a) coord_io = "('w reorg_coordinator \<times> 'w, anyhow, 'a) io"

definition flush_interval :: u64 where
  "flush_interval = 50"

definition coord_new ::
  "string \<Rightarrow> block_chain_window \<Rightarrow> 'w block_hash_persistence \<Rightarrow> 'w chain_provider \<Rightarrow> event_table_info list \<Rightarrow>
     derived_table_info list \<Rightarrow> 'w streams_clients option list \<Rightarrow> anyhow + 'w reorg_coordinator" where
  "coord_new network window pers provider event_tables derived_tables clients =
     sum_bind (validate_sql_value network ''network name'') (\<lambda>_.
       Inr \<lparr>rc_network = network, rc_window = window, rc_persistence = pers, rc_provider = Some provider,
            rc_event_tables = event_tables, rc_derived_tables = derived_tables,
            rc_streams_clients = clients, rc_blocks_since_flush = 0\<rparr>)"

definition outside :: "('w, 'e, 'a) io \<Rightarrow> ('c \<times> 'w, 'e, 'a) io" where
  "outside m = (\<lambda>(c, w). case m w of (r, w') \<Rightarrow> (r, (c, w')))"

definition insert_window :: "u64 \<Rightarrow> b256 \<Rightarrow> b256 \<Rightarrow> ('w, unit) coord_io" where
  "insert_window n h p = (\<lambda>(c, w). (Inr (), (c\<lparr>rc_window := wnd_insert (rc_window c) n h p\<rparr>, w)))"

definition persist_and_maybe_prune ::
  "('d, 'w, 'z) reorg_env_scheme \<Rightarrow> u64 \<Rightarrow> b256 \<Rightarrow> b256 \<Rightarrow> ('w, unit) coord_io" where
  "persist_and_maybe_prune E n h p = (\<lambda>(c, w).
     let c1 = c\<lparr>rc_blocks_since_flush := rc_blocks_since_flush c + 1\<rparr> in
     case context_all (''Failed to persist block '' @ show_word n @ '' hash to DB'')
            (persistence_insert_block (rc_persistence c) (rc_network c) n (format_b256 E h) (format_b256 E p)) w of
       (Inl e, w1) \<Rightarrow> (Inl e, (c1, w1))
     | (Inr _, w1) \<Rightarrow>
         if flush_interval \<le> rc_blocks_since_flush c1 then
           (Inr (), (c1\<lparr>rc_blocks_since_flush := 0\<rparr>,
              case wnd_oldest_block (rc_window c1) of
                Some oldest \<Rightarrow> spawn_task E (persistence_prune (rc_persistence c1) (rc_network c1) oldest) w1
              | None \<Rightarrow> w1))
         else (Inr (), (c1, w1)))"

fun flush_clients ::
  "('d::linorder, 'w, 'z) reorg_env_scheme \<Rightarrow> string \<Rightarrow> u64 \<Rightarrow> 'w streams_clients option list \<Rightarrow> 'w \<Rightarrow>
     'w streams_clients option list \<times> 'w" where
  "flush_clients E network n [] w = ([], w)"
| "flush_clients E network n (None # clients) w =
     (let (clients', w') = flush_clients E network n clients w in (None # clients', w'))"
| "flush_clients E network n (Some sc # clients) w =
     (let (_, (sc', w')) = flush_finalized E network n (sc, w);
          (clients', w'') = flush_clients E network n clients w'
      in (Some sc' # clients', w''))"

definition flush_finalized_buffers ::
  "('d::linorder, 'w, 'z) reorg_env_scheme \<Rightarrow> u64 \<Rightarrow> ('w, unit) coord_io" where
  "flush_finalized_buffers E n = (\<lambda>(c, w).
     let (clients, w') = flush_clients E (rc_network c) n (rc_streams_clients c) w
     in (Inr (), (c\<lparr>rc_streams_clients := clients\<rparr>, w')))"

definition ask_node :: "string \<Rightarrow> string \<Rightarrow> u64 list \<Rightarrow> ('w, rpc_block list) coord_io" where
  "ask_node missing failed numbers = (\<lambda>(c, w).
     case rc_provider c of
       None \<Rightarrow> (Inl [missing], (c, w))
     | Some fetch \<Rightarrow> outside (with_context failed (fetch numbers)) (c, w))"

definition number_hash :: "rpc_block \<Rightarrow> u64 \<times> b256" where
  "number_hash b = (rb_number b, rb_hash b)"

definition block_entry :: "rpc_block \<Rightarrow> u64 \<times> b256 \<times> b256" where
  "block_entry b = (rb_number b, rb_hash b, rb_parent_hash b)"

definition find_fork_point :: "('w, u64 \<times> (u64 \<times> b256 \<times> b256) list) coord_io" where
  "find_fork_point = (\<lambda>(c, w).
     let block_numbers = wnd_block_numbers (rc_window c) in
     if block_numbers = [] then (Inl [''Cannot find fork point: window is empty''], (c, w))
     else io_bind (ask_node ''No provider configured for fork point detection''
                    ''Failed to fetch blocks for fork point detection'' block_numbers)
       (\<lambda>blocks. io_ret
          ((case wnd_find_fork_point (rc_window c) (map number_hash blocks) of
              Some last_match \<Rightarrow> last_match + 1
            | None \<Rightarrow> hd block_numbers),
           map block_entry blocks)) (c, w))"

definition make_task ::
  "'w reorg_coordinator \<Rightarrow> u64 \<Rightarrow> u64 \<Rightarrow> (u64 \<times> b256 \<times> b256) list \<Rightarrow> reorg_task" where
  "make_task c fork_point detection_point canonical =
     \<lparr>rt_network = rc_network c, rt_fork_point = fork_point, rt_detection_point = detection_point,
      rt_event_tables = rc_event_tables c, rt_derived_tables = rc_derived_tables c,
      rt_canonical_blocks = canonical\<rparr>"

definition handle_mismatch :: "u64 \<Rightarrow> ('w, reorg_task option) coord_io" where
  "handle_mismatch n = (\<lambda>(c, w).
     io_bind find_fork_point (\<lambda>(fork_point, canonical_blocks).
       io_ret (Some (make_task c fork_point n canonical_blocks))) (c, w))"

definition accept_block ::
  "('d::linorder, 'w, 'z) reorg_env_scheme \<Rightarrow> u64 \<Rightarrow> b256 \<Rightarrow> b256 \<Rightarrow> ('w, reorg_task option) coord_io" where
  "accept_block E n h p =
     io_then (insert_window n h p)
     (io_then (persist_and_maybe_prune E n h p)
     (io_then (flush_finalized_buffers E n) (io_ret None)))"

definition insert_or_detect_reorg ::
  "('d::linorder, 'w, 'z) reorg_env_scheme \<Rightarrow> u64 \<Rightarrow> b256 \<Rightarrow> b256 \<Rightarrow> ('w, reorg_task option) coord_io" where
  "insert_or_detect_reorg E n h p = (\<lambda>(c, w).
     case wnd_validate_parent (rc_window c) n p of
       Mismatch _ _ \<Rightarrow> handle_mismatch n (c, w)
     | _ \<Rightarrow> accept_block E n h p (c, w))"

fun fill_blocks ::
  "('d, 'w, 'z) reorg_env_scheme \<Rightarrow> u64 \<Rightarrow> rpc_block list \<Rightarrow> ('w, reorg_task option) coord_io" where
  "fill_blocks E n [] = io_ret None"
| "fill_blocks E n (b # blocks) = (\<lambda>(c, w).
     case wnd_validate_parent (rc_window c) (rb_number b) (rb_parent_hash b) of
       Mismatch _ _ \<Rightarrow> handle_mismatch n (c, w)
     | _ \<Rightarrow> io_then (insert_window (rb_number b) (rb_hash b) (rb_parent_hash b))
              (io_then (persist_and_maybe_prune E (rb_number b) (rb_hash b) (rb_parent_hash b))
                (fill_blocks E n blocks)) (c, w))"

definition fill_gap :: "('d, 'w, 'z) reorg_env_scheme \<Rightarrow> u64 \<Rightarrow> ('w, reorg_task option) coord_io" where
  "fill_gap E n = (\<lambda>(c, w).
     let gap_start = the (wnd_latest_block (rc_window c)) + 1; gap_end = n in
     if gap_start < gap_end then
       (case rc_provider c of
          None \<Rightarrow> (Inr None, (c, w))
        | Some fetch \<Rightarrow>
            (case fetch (u64_range gap_start gap_end) w of
               (Inl _, w') \<Rightarrow> (Inr None, (c, w'))
             | (Inr blocks, w') \<Rightarrow> fill_blocks E n blocks (c, w')))
     else (Inr None, (c, w)))"

definition on_new_block ::
  "('d::linorder, 'w, 'z) reorg_env_scheme \<Rightarrow> u64 \<Rightarrow> b256 \<Rightarrow> b256 \<Rightarrow> ('w, reorg_task option) coord_io" where
  "on_new_block E n h p = (\<lambda>(c, w).
     case wnd_validate_parent (rc_window c) n p of
       Valid \<Rightarrow> accept_block E n h p (c, w)
     | NoPreviousBlock \<Rightarrow>
         if wnd_is_empty (rc_window c) \<or> n = 0 then accept_block E n h p (c, w)
         else io_bind (fill_gap E n) (\<lambda>found.
                case found of
                  Some task \<Rightarrow> io_ret (Some task)
                | None \<Rightarrow> insert_or_detect_reorg E n h p) (c, w)
     | Mismatch _ _ \<Rightarrow> handle_mismatch n (c, w))"

definition validate_on_startup :: "('w, reorg_task option) coord_io" where
  "validate_on_startup = (\<lambda>(c, w).
     let block_numbers = wnd_block_numbers (rc_window c);
         latest = (case wnd_latest_block (rc_window c) of Some n \<Rightarrow> n | None \<Rightarrow> 0);
         oldest = (case wnd_oldest_block (rc_window c) of Some n \<Rightarrow> n | None \<Rightarrow> 0)
     in if block_numbers = [] then (Inr None, (c, w))
        else io_bind (ask_node ''No provider configured for startup validation''
                       ''Failed to fetch blocks for startup validation'' block_numbers)
          (\<lambda>blocks. io_ret
             (case wnd_find_fork_point (rc_window c) (map number_hash blocks) of
                Some last_match \<Rightarrow>
                  if latest \<le> last_match then None
                  else Some (make_task c (last_match + 1) latest [])
              | None \<Rightarrow> Some (make_task c oldest latest []))) (c, w))"

definition try_create_reorg_task_for_block_range ::
  "'w reorg_coordinator \<Rightarrow> u64 \<Rightarrow> u64 \<Rightarrow> anyhow + reorg_task" where
  "try_create_reorg_task_for_block_range c fork_point detection_point =
     sum_bind (ensure (fork_point \<le> detection_point)
        (''fork_point ('' @ show_word fork_point @ '') must be <= detection_point ('' @
         show_word detection_point @ '')''))
       (\<lambda>_. Inr (make_task c fork_point detection_point []))"

definition on_exex_reorg :: "'w reorg_coordinator \<Rightarrow> u64 \<Rightarrow> u64 \<Rightarrow> anyhow + reorg_task" where
  "on_exex_reorg c revert_from revert_to =
     sum_bind (ensure (revert_from \<le> revert_to)
        (''revert_from_block ('' @ show_word revert_from @ '') must be <= revert_to_block ('' @
         show_word revert_to @ '')''))
       (\<lambda>_. Inr (make_task c revert_from revert_to []))"

section \<open>Handling a reorg\<close>

record reorg_notification =
  rn_network :: string
  rn_fork_block :: u64
  rn_detection_block :: u64
  rn_invalidated_tx_hashes :: "b256 list"

record 'w reorg_context =
  cx_postgres :: "'w pg_client option"
  cx_clickhouse :: "'w ch_client option"
  cx_registry :: "(reorg_notification \<Rightarrow> 'w \<Rightarrow> 'w) option"
  cx_trace_registry :: "(reorg_notification \<Rightarrow> 'w \<Rightarrow> 'w) option"

definition parsed_hashes :: "('d, 'w, 'z) reorg_env_scheme \<Rightarrow> string list \<Rightarrow> b256 list" where
  "parsed_hashes E texts =
     concat (map (\<lambda>s. case parse_b256 E s of Inr h \<Rightarrow> [h] | Inl _ \<Rightarrow> []) texts)"

definition fire :: "(reorg_notification \<Rightarrow> 'w \<Rightarrow> 'w) option \<Rightarrow> reorg_notification \<Rightarrow> 'w \<Rightarrow> 'w" where
  "fire registry notification w = (case registry of Some on_reorg \<Rightarrow> on_reorg notification w | None \<Rightarrow> w)"

definition notify_registries :: "'w reorg_context \<Rightarrow> reorg_notification \<Rightarrow> 'w \<Rightarrow> 'w" where
  "notify_registries ctx notification w =
     fire (cx_trace_registry ctx) notification (fire (cx_registry ctx) notification w)"

definition discard_clients ::
  "string \<Rightarrow> u64 \<Rightarrow> u64 \<Rightarrow> 'w streams_clients option list \<Rightarrow> 'w streams_clients option list" where
  "discard_clients network fork_point detection_point clients =
     map (map_option (discard_finalized network fork_point detection_point)) clients"

fun publish_reorg ::
  "('d::linorder, 'w, 'z) reorg_env_scheme \<Rightarrow> reorg_task \<Rightarrow> u64 \<Rightarrow> u64 \<Rightarrow> b256 list \<Rightarrow> affected_table list \<Rightarrow>
     'w streams_clients option list \<Rightarrow> 'w \<Rightarrow> 'w streams_clients option list \<times> 'w" where
  "publish_reorg E t depth events_deleted hashes tables [] w = ([], w)"
| "publish_reorg E t depth events_deleted hashes tables (None # clients) w =
     (let (clients', w') = publish_reorg E t depth events_deleted hashes tables clients w
      in (None # clients', w'))"
| "publish_reorg E t depth events_deleted hashes tables (Some sc # clients) w =
     (let (_, (sc', w')) = stream_reorg E (rt_network t) (rt_fork_point t) depth events_deleted hashes tables (sc, w);
          (clients', w'') = publish_reorg E t depth events_deleted hashes tables clients w'
      in (Some sc' # clients', w''))"

definition handle_reorg ::
  "('d::linorder, 'w, 'z) reorg_env_scheme \<Rightarrow> reorg_task \<Rightarrow> 'w reorg_context \<Rightarrow> ('w, unit) coord_io" where
  "handle_reorg E t ctx = (\<lambda>(c, w).
     case task_execute (format_b256 E) t (rc_window c) (cx_postgres ctx) (cx_clickhouse ctx) (rc_provider c) w of
       (Inl e, w1) \<Rightarrow> (Inl e, (c, w1))
     | (Inr (window, result), w1) \<Rightarrow>
         (let hashes = parsed_hashes E (rr_affected_tx_hashes result);
              notification = \<lparr>rn_network = rt_network t, rn_fork_block = rt_fork_point t,
                 rn_detection_block = rt_detection_point t, rn_invalidated_tx_hashes = hashes\<rparr>;
              w2 = notify_registries ctx notification w1;
              clients = discard_clients (rt_network t) (rt_fork_point t) (rt_detection_point t) (rc_streams_clients c);
              depth = saturating_sub (rt_detection_point t) (rt_fork_point t) + 1;
              (clients', w3) = publish_reorg E t depth (rr_events_deleted result) hashes
                                 (rr_affected_tables result) clients w2
          in (Inr (), (c\<lparr>rc_window := window, rc_streams_clients := clients'\<rparr>, w3))))"

definition detect_and_handle_reorg ::
  "('d::linorder, 'w, 'z) reorg_env_scheme \<Rightarrow> u64 \<Rightarrow> b256 \<Rightarrow> b256 \<Rightarrow> string \<Rightarrow> 'w reorg_context \<Rightarrow>
     ('w, u64 option) coord_io" where
  "detect_and_handle_reorg E n h p log_prefix ctx =
     io_bind (context_all (log_prefix @ '' - Reorg detection failed on block '' @ show_word n)
                (on_new_block E n h p)) (\<lambda>found.
     case found of
       None \<Rightarrow> io_ret None
     | Some task \<Rightarrow>
         io_then (context_all (log_prefix @ '' - Reorg rollback failed for fork_point '' @
                    show_word (rt_fork_point task)) (handle_reorg E task ctx))
           (io_ret (Some (rt_fork_point task))))"

end
