(* ===== verification/Streams_Correct.thy ===== *)
theory Streams_Correct
  imports Streams
begin

text \<open>
  The properties of the streams: chunks partition the events, routing sends or buffers but never
  both and a reorg notification reaches every destination of its network, a flush dispatches
  everything it drained whatever fails, and reverted blocks are not flushed.
\<close>

section \<open>Chunks\<close>

definition chunk_size :: "(json \<Rightarrow> nat) \<Rightarrow> json list \<Rightarrow> nat" where
  "chunk_size size_of chunk = sum_list (map size_of chunk)"

definition chunk_fits :: "(json \<Rightarrow> nat) \<Rightarrow> nat \<Rightarrow> json list \<Rightarrow> bool" where
  "chunk_fits size_of limit chunk = (chunk_size size_of chunk \<le> limit \<or> length chunk = 1)"

lemma chunk_loop_concat: "concat (chunk_loop size_of limit cur n chunks d) = concat chunks @ cur @ d"
  by (induction size_of limit cur n chunks d rule: chunk_loop.induct) (simp_all add: Let_def)

lemma chunk_loop_fits:
  "n = chunk_size size_of cur \<Longrightarrow> chunk_fits size_of limit cur \<Longrightarrow> list_all (chunk_fits size_of limit) chunks \<Longrightarrow>
     list_all (chunk_fits size_of limit) (chunk_loop size_of limit cur n chunks d)"
proof (induction size_of limit cur n chunks d rule: chunk_loop.induct)
  case (2 size_of limit cur n chunks item rest)
  then show ?case by (auto simp: Let_def chunk_fits_def chunk_size_def)
qed simp

lemma chunk_loop_nonempty:
  "cur \<noteq> [] \<Longrightarrow> [] \<in> set (chunk_loop size_of limit cur n chunks d) \<longleftrightarrow> [] \<in> set chunks"
  by (induction size_of limit cur n chunks d rule: chunk_loop.induct) (auto simp: Let_def)

text \<open>The chunks of a message partition its events in order, and every chunk fits the size limit or is one
  event; there is an empty chunk, which is published as a message without events, exactly when the first
  event alone exceeds the limit.\<close>

theorem chunks_partition_events:
  "concat (chunk_data L d) = d \<and>
   list_all (chunk_fits (\<lambda>item. length (json_to_string L item)) max_chunk_size) (chunk_data L d) \<and>
   ([] \<in> set (chunk_data L d) \<longleftrightarrow> (case d of [] \<Rightarrow> False | item # _ \<Rightarrow> max_chunk_size < length (json_to_string L item)))"
proof -
  let ?size = "\<lambda>item. length (json_to_string L item)"
  have "list_all (chunk_fits ?size max_chunk_size) (chunk_data L d)"
    unfolding chunk_data_def by (rule chunk_loop_fits) (simp_all add: chunk_size_def chunk_fits_def)
  moreover have "[] \<in> set (chunk_data L d) \<longleftrightarrow>
      (case d of [] \<Rightarrow> False | item # _ \<Rightarrow> max_chunk_size < length (json_to_string L item))"
    by (cases d) (simp_all add: chunk_data_def Let_def chunk_loop_nonempty)
  ultimately show ?thesis by (simp add: chunk_data_def chunk_loop_concat)
qed

section \<open>Filtering and task lists\<close>

text \<open>The configurations for which filtering cannot fail: the message is forced, it is the trace event, or
  the configuration names its event.\<close>

definition names_event :: "('z) stream_config_scheme \<Rightarrow> event_message \<Rightarrow> bool \<Rightarrow> bool" where
  "names_event config msg force =
     (force \<or> em_event_name msg = native_transfer_event \<or>
      list_ex (\<lambda>e. se_event_name e = em_event_name msg) (st_events config))"

lemma find_event_None: "find_event events name = None \<longleftrightarrow> \<not> list_ex (\<lambda>e. se_event_name e = name) events"
  by (induction events) (auto simp: find_event_def)

lemma filter_chunk_ok:
  "names_event config msg force \<Longrightarrow>
     \<exists>c. filter_chunk_event_data_by_conditions L (st_events config) msg chunk force = Inr c"
  by (auto simp: filter_chunk_event_data_by_conditions_def names_event_def find_event_None split: option.splits)

lemma chunk_tasks_ok:
  "names_event config msg force \<Longrightarrow>
     \<exists>ts. chunk_tasks L (st_events config) msg force publish i chunks = Inr ts \<and> length ts = length chunks"
proof (induction chunks arbitrary: i)
  case (Cons chunk chunks)
  from Cons obtain ts where "chunk_tasks L (st_events config) msg force publish (Suc i) chunks = Inr ts"
    "length ts = length chunks" by blast
  moreover obtain c where "filter_chunk_event_data_by_conditions L (st_events config) msg chunk force = Inr c"
    using filter_chunk_ok Cons.prems by blast
  ultimately show ?case by simp
qed simp

lemma backend_tasks_ok:
  "names_event t msg force \<Longrightarrow> \<exists>ts. sns_stream_tasks L t c1 mid msg chunks force = Inr ts \<and> length ts = length chunks"
  "names_event h msg force \<Longrightarrow> \<exists>ts. webhook_stream_tasks L h c2 mid msg chunks force = Inr ts \<and> length ts = length chunks"
  "names_event m msg force \<Longrightarrow> \<exists>ts. rabbitmq_stream_tasks L m c3 mid msg chunks force = Inr ts \<and> length ts = length chunks"
  "names_event k msg force \<Longrightarrow> \<exists>ts. kafka_stream_tasks L k c4 mid msg chunks force = Inr ts \<and> length ts = length chunks"
  "names_event r msg force \<Longrightarrow> \<exists>ts. redis_stream_tasks L r c5 mid msg chunks force = Inr ts \<and> length ts = length chunks"
  "names_event q msg force \<Longrightarrow>
     \<exists>ts. cloudflare_queues_stream_tasks L q c6 mid msg chunks force = Inr ts \<and> length ts = length chunks"
  unfolding sns_stream_tasks_def webhook_stream_tasks_def rabbitmq_stream_tasks_def kafka_stream_tasks_def
    redis_stream_tasks_def cloudflare_queues_stream_tasks_def
  by (rule chunk_tasks_ok; assumption)+

section \<open>Routing\<close>

definition matches_config :: "event_message \<Rightarrow> bool \<Rightarrow> bool \<Rightarrow> 'z stream_config_scheme \<Rightarrow> bool" where
  "matches_config msg trace force config =
     (should_send_for_config (st_events config) (em_event_name msg) trace force \<and>
      em_network msg \<in> set (st_networks config))"

definition sends_now :: "event_message \<Rightarrow> bool \<Rightarrow> bool \<Rightarrow> 'z stream_config_scheme \<Rightarrow> bool" where
  "sends_now msg trace force config =
     (matches_config msg trace force config \<and> \<not> should_buffer (st_delivery config) msg force)"

definition buffers_now :: "event_message \<Rightarrow> bool \<Rightarrow> bool \<Rightarrow> 'z stream_config_scheme \<Rightarrow> bool" where
  "buffers_now msg trace force config =
     (matches_config msg trace force config \<and> should_buffer (st_delivery config) msg force)"

lemma matches_names_event:
  "trace \<longrightarrow> em_event_name msg = native_transfer_event \<Longrightarrow> matches_config msg trace force config \<Longrightarrow>
     names_event config msg force"
  by (auto simp: matches_config_def names_event_def should_send_for_config_def)

lemma route_configs_eq:
  assumes tasks: "\<And>config. matches_config msg trace force config \<Longrightarrow>
      \<exists>ts. tasks_of config = Inr ts \<and> length ts = k"
  shows "\<exists>new. route_configs st msg trace force tasks_of configs streams bufs =
      (Inr (streams @ new),
       fold (\<lambda>(idx, _). buffer_event st idx msg) (filter (buffers_now msg trace force \<circ> snd) configs) bufs) \<and>
    length new = length (filter (sends_now msg trace force \<circ> snd) configs) \<and>
    list_all (\<lambda>ts. length ts = k) new"
proof (induction configs arbitrary: streams bufs)
  case (Cons x configs)
  obtain idx config where x: "x = (idx, config)" by (rule prod.exhaust)
  let ?m = "matches_config msg trace force config"
  let ?b = "should_buffer (st_delivery config) msg force"
  show ?case
  proof (cases "?m \<and> \<not> ?b")
    case True
    with tasks obtain ts where ts: "tasks_of config = Inr ts" "length ts = k" by blast
    obtain new where "route_configs st msg trace force tasks_of configs (streams @ [ts]) bufs =
      (Inr ((streams @ [ts]) @ new),
       fold (\<lambda>(idx, _). buffer_event st idx msg) (filter (buffers_now msg trace force \<circ> snd) configs) bufs)"
      "length new = length (filter (sends_now msg trace force \<circ> snd) configs)"
      "list_all (\<lambda>ts. length ts = k) new"
      using Cons.IH by blast
    moreover have "sends_now msg trace force config" "\<not> buffers_now msg trace force config"
      and "should_send_for_config (st_events config) (em_event_name msg) trace force \<and>
        em_network msg \<in> set (st_networks config)" "\<not> ?b"
      using True by (simp_all add: matches_config_def sends_now_def buffers_now_def)
    ultimately show ?thesis using ts x
      by (intro exI [of _ "ts # new"]) (simp add: io_bind_def comp_def)
  next
    case False
    then have "\<not> sends_now msg trace force config" "buffers_now msg trace force config \<longleftrightarrow> ?m" "?m \<longrightarrow> ?b"
      by (auto simp: sends_now_def buffers_now_def)
    with x Cons.IH show ?thesis by (cases ?m) (auto simp: matches_config_def)
  qed
qed simp

text \<open>Routing sends or buffers, never both: for every backend, a configuration that matches the message
  contributes its publishing tasks (one per chunk) exactly when it does not ask for finalized delivery, and
  otherwise the message goes to its buffer and nothing is sent.\<close>

theorem routing_sends_or_buffers:
  assumes "trace \<longrightarrow> em_event_name msg = native_transfer_event"
  shows "\<exists>streams. route_configs SNS msg trace force
        (\<lambda>config. sns_stream_tasks L config client mid msg chunks force) configs [] bufs =
      (Inr streams, fold (\<lambda>(idx, _). buffer_event SNS idx msg)
                      (filter (buffers_now msg trace force \<circ> snd) configs) bufs) \<and>
    length streams = length (filter (sends_now msg trace force \<circ> snd) configs) \<and>
    list_all (\<lambda>ts. length ts = length chunks) streams"
proof -
  have "\<exists>ts. sns_stream_tasks L config client mid msg chunks force = Inr ts \<and> length ts = length chunks"
    if "matches_config msg trace force config" for config
    by (rule backend_tasks_ok) (rule matches_names_event [OF assms that])
  from route_configs_eq [OF this, where streams = "[]" and st = SNS and configs = configs and bufs = bufs]
  show ?thesis by auto
qed

definition sample_topic :: "delivery_mode option \<Rightarrow> sns_topic_config" where
  "sample_topic mode = \<lparr>st_networks = [''ethereum''],
     st_events = [\<lparr>se_event_name = ''Transfer'', se_conditions = None, se_alias = None\<rparr>], st_delivery = mode,
     sns_prefix_id = None, sns_topic_arn = ''arn''\<rparr>"

definition sample_message :: event_message where
  "sample_message = \<lparr>em_event_name = ''Transfer'', em_event_data = J_Array [J_Null],
     em_event_signature_hash = 7, em_network = ''ethereum'', em_block_number = 12\<rparr>"

lemmas sample_stream_defs = sample_topic_def sample_message_def sends_now_def buffers_now_def
  matches_config_def should_send_for_config_def should_buffer_def

definition plain_lib :: "int stream_lib" where
  "plain_lib = \<lparr>u256_from_dec = (\<lambda>_. Inl []), u256_from_hex = (\<lambda>_. Inl []), i256_from_dec = (\<lambda>_. Inl []),
     decimal_from = (\<lambda>_. Inl []), json_to_string = (\<lambda>_. ''null''), json_from_str = (\<lambda>_. Inl []),
     json_eq = (\<lambda>_ _. False), debug_accessor = (\<lambda>_. []), debug_json = (\<lambda>_. []), debug_literal = (\<lambda>_. []),
     filter_parser = (\<lambda>_. Inl []), format_b256 = (\<lambda>_. ''0x0'')\<rparr>"

definition silent_sns :: "string \<Rightarrow> string \<Rightarrow> string \<Rightarrow> unit publish" where
  "silent_sns = (\<lambda>_ _ _. io_ret ())"

theorem routing_sends_or_buffers_witness:
  "\<exists>streams. route_configs SNS sample_message False False
      (\<lambda>config. sns_stream_tasks plain_lib config silent_sns ''id'' sample_message [[J_Null]] False)
      [(0, sample_topic None), (1, sample_topic (Some Finalized))] [] [] =
     (Inr streams, [(message_key SNS 1 sample_message, [(12, [J_Null])])]) \<and> length streams = 1"
proof -
  have "False \<longrightarrow> em_event_name sample_message = native_transfer_event" by simp
  from routing_sends_or_buffers [OF this, of False plain_lib silent_sns "''id''" "[[J_Null]]"
      "[(0, sample_topic None), (1, sample_topic (Some Finalized))]" "[]"]
  show ?thesis
    by (auto simp: sample_stream_defs buffer_event_def fb_new_def fb_add_def or_default_def)
qed

definition targets :: "string \<Rightarrow> ('z stream_config_scheme list \<times> 'c) option \<Rightarrow> nat" where
  "targets network backend =
     (case backend of None \<Rightarrow> 0
      | Some (configs, _) \<Rightarrow> length (filter (\<lambda>config. network \<in> set (st_networks config)) configs))"

definition all_targets :: "'w streams_clients \<Rightarrow> string \<Rightarrow> nat" where
  "all_targets sc network =
     targets network (sns sc) + targets network (webhook sc) + targets network (rabbitmq sc) +
     targets network (kafka sc) + targets network (redis sc) + targets network (cloudflare_queues sc)"

lemma length_filter_enumerate: "length (filter (P \<circ> snd) (enumerate_from i xs)) = length (filter P xs)"
  by (induction xs arbitrary: i) simp_all

text \<open>A routing step that always succeeds, adds \<open>n\<close> task lists of \<open>k\<close> tasks and leaves the buffers alone.\<close>

definition adds_tasks ::
  "nat \<Rightarrow> nat \<Rightarrow> ('w task list list \<Rightarrow> (finalized_buffers, stream_error, 'w task list list) io) \<Rightarrow> bool" where
  "adds_tasks k n step =
     (\<forall>streams bufs. \<exists>new. step streams bufs = (Inr (streams @ new), bufs) \<and> length new = n \<and>
        list_all (\<lambda>ts. length ts = k) new)"

lemma adds_tasks_bind:
  assumes "adds_tasks k m f" and "adds_tasks k n g"
  shows "adds_tasks k (m + n) (\<lambda>streams. io_bind (f streams) g)"
  unfolding adds_tasks_def
proof (intro allI)
  fix streams bufs
  obtain new where new: "f streams bufs = (Inr (streams @ new), bufs)" "length new = m" "list_all (\<lambda>ts. length ts = k) new"
    using assms(1) unfolding adds_tasks_def by blast
  obtain new' where "g (streams @ new) bufs = (Inr ((streams @ new) @ new'), bufs)" "length new' = n"
    "list_all (\<lambda>ts. length ts = k) new'"
    using assms(2) unfolding adds_tasks_def by blast
  with new show "\<exists>new. io_bind (f streams) g bufs = (Inr (streams @ new), bufs) \<and> length new = m + n \<and>
      list_all (\<lambda>ts. length ts = k) new"
    by (intro exI [of _ "new @ new'"]) (simp add: io_bind_Inr)
qed

lemma route_backend_forced:
  assumes tasks: "\<And>config client. \<exists>ts. tasks_of config client = Inr ts \<and> length ts = k"
  shows "adds_tasks k (targets (em_network msg) backend) (route_backend st msg trace True tasks_of backend)"
proof (cases backend)
  case None
  then show ?thesis by (simp add: adds_tasks_def route_backend_def targets_def)
next
  case (Some x)
  obtain configs client where x: "x = (configs, client)" by (rule prod.exhaust)
  have none: "filter (buffers_now msg trace True \<circ> snd) ys = []" for ys :: "(nat \<times> 'a stream_config_scheme) list"
    by (simp add: filter_empty_conv buffers_now_def should_buffer_def)
  have some: "sends_now msg trace True = (\<lambda>config. em_network msg \<in> set (st_networks config))"
    by (simp add: sends_now_def matches_config_def should_send_for_config_def should_buffer_def fun_eq_iff)
  show ?thesis
    unfolding adds_tasks_def
  proof (intro allI)
    fix streams bufs
    show "\<exists>new. route_backend st msg trace True tasks_of backend streams bufs = (Inr (streams @ new), bufs) \<and>
        length new = targets (em_network msg) backend \<and> list_all (\<lambda>ts. length ts = k) new"
      using route_configs_eq [of msg trace True "\<lambda>config. tasks_of config client" k st "enumerate_from 0 configs"
          streams bufs] tasks
      by (simp add: none route_backend_def Some x targets_def length_filter_enumerate some)
  qed
qed

lemma route_message_forced:
  "\<exists>streams. route_message L sc mid msg trace True chunks bufs = (Inr streams, bufs) \<and>
    length streams = all_targets sc (em_network msg) \<and> list_all (\<lambda>ts. length ts = length chunks) streams"
proof -
  note forced = route_backend_forced [where msg = msg and trace = trace]
  note step = adds_tasks_bind [OF forced [OF backend_tasks_ok(1)]
      adds_tasks_bind [OF forced [OF backend_tasks_ok(2)]
      adds_tasks_bind [OF forced [OF backend_tasks_ok(3)]
      adds_tasks_bind [OF forced [OF backend_tasks_ok(4)]
      adds_tasks_bind [OF forced [OF backend_tasks_ok(5)] forced [OF backend_tasks_ok(6)]]]]]]
  have "adds_tasks (length chunks) (all_targets sc (em_network msg))
      (\<lambda>streams. io_bind (route_backend SNS msg trace True
         (\<lambda>config client. sns_stream_tasks L config client mid msg chunks True) (sns sc) streams) (\<lambda>streams.
       io_bind (route_backend WEBHOOK msg trace True
         (\<lambda>config client. webhook_stream_tasks L config client mid msg chunks True) (webhook sc) streams) (\<lambda>streams.
       io_bind (route_backend RABBITMQ msg trace True
         (\<lambda>config client. rabbitmq_stream_tasks L config client mid msg chunks True) (rabbitmq sc) streams) (\<lambda>streams.
       io_bind (route_backend KAFKA msg trace True
         (\<lambda>config client. kafka_stream_tasks L config client mid msg chunks True) (kafka sc) streams) (\<lambda>streams.
       io_bind (route_backend REDIS msg trace True
         (\<lambda>config client. redis_stream_tasks L config client mid msg chunks True) (redis sc) streams) (\<lambda>streams.
       route_backend CLOUDFLARE_QUEUES msg trace True
         (\<lambda>config client. cloudflare_queues_stream_tasks L config client mid msg chunks True)
         (cloudflare_queues sc) streams))))))"
    unfolding all_targets_def add.assoc
    by (rule step; simp add: names_event_def)
  then show ?thesis
    unfolding adds_tasks_def route_message_def by (metis append_Nil)
qed

text \<open>A reorg notification is never lost to configuration: it is routed to every destination of every
  backend whose networks include the affected one, whatever events the destination subscribes to and whatever
  delivery mode it asks for, and the finalized buffers are left alone.\<close>

theorem reorg_notification_reaches_all:
  "\<exists>streams. route_message L sc mid (reorg_message L network f d n hashes tables) trace True chunks bufs =
      (Inr streams, bufs) \<and>
    length streams = all_targets sc network \<and> list_all (\<lambda>ts. length ts = length chunks) streams"
proof -
  have "em_network (reorg_message L network f d n hashes tables) = network" by (simp add: reorg_message_def)
  with route_message_forced [of L sc mid "reorg_message L network f d n hashes tables" trace chunks bufs]
  show ?thesis by simp
qed

lemma stream_reorg_state: "stream_reorg L network f d n hashes tables (sc, w) = (r, (sc', w')) \<Longrightarrow> sc' = sc"
proof -
  let ?msg = "reorg_message L network f d n hashes tables"
  have "fst (snd (stream_with_mode L mid ?msg ordered trace True (sc, w))) = sc" for mid ordered trace
  proof (cases "has_any_streams sc")
    case True
    obtain data where data: "em_event_data ?msg = J_Array data" by (simp add: reorg_message_def)
    obtain streams where "route_message L sc mid ?msg trace True (chunk_data L data) (finalized_buffers sc) =
        (Inr streams, finalized_buffers sc)"
      using route_message_forced [of L sc mid ?msg trace "chunk_data L data" "finalized_buffers sc"] by blast
    with True data show ?thesis by (simp add: stream_with_mode_def split: prod.splits)
  qed (simp add: stream_with_mode_def)
  then have "fst (snd (stream_reorg L network f d n hashes tables (sc, w))) = sc"
    by (simp add: stream_reorg_def)
  then show "stream_reorg L network f d n hashes tables (sc, w) = (r, (sc', w')) \<Longrightarrow> sc' = sc" by simp
qed

section \<open>Joining\<close>

lemma run_tasks_append:
  "run_tasks (ts @ us) w = (let (rs, w') = run_tasks ts w; (rs', w'') = run_tasks us w' in (rs @ rs', w''))"
  by (induction ts arbitrary: w) (simp_all add: Let_def split: prod.splits)

lemma run_nested_concat: "run_tasks (concat tss) w = (let (rss, w') = run_nested tss w in (concat rss, w'))"
  by (induction tss arbitrary: w) (simp_all add: run_tasks_append Let_def split: prod.splits)

lemma sum_results_append:
  "sum_results n (rs @ rs') = (case sum_results n rs of Inl e \<Rightarrow> Inl e | Inr m \<Rightarrow> sum_results m rs')"
  by (induction n rs rule: sum_results.induct) simp_all

lemma sum_nested_concat: "sum_nested n rss = sum_results n (concat rss)"
proof (induction rss arbitrary: n)
  case (Cons rs rss)
  then show ?case by (simp add: sum_results_append split: sum.splits)
qed simp

text \<open>Awaiting the publishing tasks in order or all together gives the same result and the same effects: the
  number of events of all chunks, or the error of the first task, in routing order, that failed.\<close>

theorem await_order_irrelevant: "await_streams True streams w = await_streams False streams w"
  by (simp add: await_streams_def run_nested_concat sum_nested_concat split: prod.splits)

section \<open>Flushing\<close>

lemma drain_buffers_eq:
  "drain_buffers network head distance bufs =
     (map (\<lambda>(key, buffer). (key, bt_retain (final_at head distance) buffer))
        (filter (\<lambda>(key, buffer). bk_network key = network \<and> bt_retain (final_at head distance) buffer \<noteq> []) bufs),
      map (\<lambda>(key, buffer). (key, if bk_network key = network
             then bt_retain (\<lambda>n. \<not> final_at head distance n) buffer else buffer)) bufs)"
  by (induction bufs) (auto simp: fb_flush_eq Let_def split: prod.splits)

text \<open>C37: A flush is at most once: whatever it returns, every buffered block of the network at or below the
  threshold has left the buffers, so a block whose publishing failed is not retried by a later flush; blocks
  above the threshold and the buffers of other networks are untouched.\<close>

theorem flush_is_at_most_once:
  assumes "flush_finalized L network head (sc, w) = (r, (sc', w'))"
  shows "finalized_buffers sc' =
      map (\<lambda>(key, buffer). (key, if bk_network key = network
        then bt_retain (\<lambda>n. \<not> final_at head (reorg_safe_distance_for sc network) n) buffer else buffer))
      (finalized_buffers sc) \<and>
    reorg_safe_distances sc' = reorg_safe_distances sc"
  using assms by (auto simp: flush_finalized_def drain_buffers_eq Let_def split: prod.splits)

definition failing_webhook :: "nat streams_clients" where
  "failing_webhook = \<lparr>sns = None,
     webhook = Some ([\<lparr>st_networks = [''ethereum''],
         st_events = [\<lparr>se_event_name = ''Transfer'', se_conditions = None, se_alias = None\<rparr>],
         st_delivery = Some Finalized, wh_endpoint = ''http://localhost'', wh_shared_secret = ''s''\<rparr>],
       (\<lambda>_ _ _ _ n. (Inl ''status 500'', Suc n))),
     rabbitmq = None, kafka = None, redis = None, cloudflare_queues = None,
     finalized_buffers = [(message_key WEBHOOK 0 sample_message, [(12, [J_Null]), (30, [J_Null])])],
     reorg_safe_distances = [''ethereum'' \<mapsto> 10]\<rparr>"

lemma publish_with_retry_eq: "publish_with_retry op = retry_attempts (Suc (Suc 0)) op"
  by (simp add: publish_with_retry_def publish_retry_attempts_def numeral_2_eq_2)

lemma failing_flush:
  "flush_finalized plain_lib ''ethereum'' 25 (failing_webhook, 0) =
     (Inl (WebhookCouldNotPublish ''status 500''),
      (failing_webhook\<lparr>finalized_buffers := [(message_key WEBHOOK 0 sample_message, [(30, [J_Null])])]\<rparr>, 3))"
proof -
  have chunks: "chunk_data plain_lib [J_Null] = [[J_Null]]"
    by (simp add: chunk_data_def plain_lib_def max_chunk_size_def)
  show ?thesis
    by (simp add: flush_finalized_def failing_webhook_def drain_buffers_eq reorg_safe_distance_for_def
        bt_retain_def final_at_def message_key_def sample_message_def dispatch_flushed_def tasks_for_key_def
        nth_config_def chunks webhook_stream_tasks_def filter_chunk_event_data_by_conditions_def find_event_def
        flushed_message_def io_then_def io_bind_def io_map_err_def publish_with_retry_eq)
qed

theorem flush_is_at_most_once_witness:
  "\<exists>sc'. flush_finalized plain_lib ''ethereum'' 25 (failing_webhook, 0) =
      (Inl (WebhookCouldNotPublish ''status 500''), (sc', 3)) \<and>
    finalized_buffers sc' = [(message_key WEBHOOK 0 sample_message, [(30, [J_Null])])]"
proof -
  from flush_is_at_most_once [OF failing_flush] failing_flush show ?thesis by auto
qed

text \<open>A flush after a reorg releases nothing of the reverted span: once \<open>[f, d]\<close> has been discarded for a
  network, no flush of that network hands a block of the span to the dispatcher.\<close>

theorem discarded_blocks_not_flushed:
  "list_all (\<lambda>(_, ready). list_all (\<lambda>(n, _). \<not> (f \<le> n \<and> n \<le> d)) ready)
     (fst (drain_buffers network head distance (discard_buffers network f d bufs)))"
  by (auto simp: drain_buffers_eq discard_buffers_def fb_discard_range_eq list_all_iff bt_retain_def
      split: if_splits)

text \<open>Running every task whatever the earlier ones returned.\<close>

lemma sum_or_first_error_Inr:
  "(\<exists>n. sum_or_first_error t e rs = Inr n) \<longleftrightarrow> e = None \<and> (\<forall>r\<in>set rs. is_ok r)"
  by (induction t e rs rule: sum_or_first_error.induct) (auto simp: is_ok_def split: option.splits)

definition never_panics :: "'w task \<Rightarrow> bool" where
  "never_panics t = (\<forall>w m. fst (t w) \<noteq> Inl (Panic m))"

lemma chunk_tasks_never_panic:
  assumes "\<And>i c w m. fst (publish i c w) \<noteq> Inl (Panic m)"
  shows "chunk_tasks L events msg force publish i chunks = Inr ts \<Longrightarrow> list_all never_panics ts"
proof (induction chunks arbitrary: i ts)
  case (Cons chunk chunks)
  have "never_panics (io_then (publish i c) (io_ret n))" for c n
    unfolding never_panics_def io_then_def io_bind_def
    using assms [of i c] by (auto split: prod.splits sum.splits) (metis fst_conv)
  with Cons show ?case by (auto simp: sum_bind_eq_Inr)
qed simp

lemma io_map_err_not_panic:
  "(\<And>d. c d \<noteq> Panic m) \<Longrightarrow> fst (io_map_err c op w) \<noteq> Inl (Panic m)"
  by (auto simp: io_map_err_def split: prod.splits sum.splits)

lemma tasks_for_key_never_panic:
  "tasks_for_key L sc key mid msg chunks = Inr ts \<Longrightarrow> list_all never_panics ts"
  by (auto simp: tasks_for_key_def sum_bind_eq_Inr sns_stream_tasks_def webhook_stream_tasks_def
      rabbitmq_stream_tasks_def kafka_stream_tasks_def redis_stream_tasks_def cloudflare_queues_stream_tasks_def
      split: stream_type.splits option.splits elim!: chunk_tasks_never_panic [rotated]
      intro!: io_map_err_not_panic)

lemma flushed_tasks_never_panic: "flushed_tasks L sc key ready = Inr ts \<Longrightarrow> list_all never_panics ts"
  by (induction L sc key ready arbitrary: ts rule: flushed_tasks.induct)
    (auto simp: sum_bind_eq_Inr dest!: tasks_for_key_never_panic)

lemma run_tasks_never_panic: "list_all never_panics ts \<Longrightarrow> Inl (Panic m) \<notin> set (fst (run_tasks ts w))"
proof (induction ts arbitrary: w)
  case (Cons t ts)
  obtain r w' where t: "t w = (r, w')" by (rule prod.exhaust)
  with Cons.prems have "r \<noteq> Inl (Panic m)" by (auto simp: never_panics_def dest: spec [of _ w])
  with Cons t show ?case by (auto simp: Let_def split: prod.splits) (metis fst_conv)
qed simp

lemma sum_or_first_error_Inl:
  "sum_or_first_error t e rs = Inl x \<Longrightarrow> e = Some x \<or> Inl x \<in> set rs"
  by (induction t e rs rule: sum_or_first_error.induct) (auto split: option.splits)

definition ready_tasks ::
  "('d::linorder, 'z) stream_lib_scheme \<Rightarrow> 'w streams_clients \<Rightarrow>
     (buffer_key \<times> (u64 \<times> json list) list) list \<Rightarrow> 'w task list" where
  "ready_tasks L sc ready = concat (map (\<lambda>(key, r). case flushed_tasks L sc key r of Inr ts \<Rightarrow> ts | Inl _ \<Rightarrow> []) ready)"

lemma dispatch_all_runs_all:
  assumes "list_all (\<lambda>(key, r). is_ok (flushed_tasks L sc key r)) ready"
  shows "snd (dispatch_all L sc n e ready w) = snd (run_tasks (ready_tasks L sc ready) w) \<and>
    ((\<exists>k. fst (dispatch_all L sc n e ready w) = Inr k) \<longleftrightarrow>
       e = None \<and> list_all is_ok (fst (run_tasks (ready_tasks L sc ready) w)))"
  using assms
proof (induction ready arbitrary: n e w)
  case Nil
  then show ?case by (simp add: ready_tasks_def split: option.splits)
next
  case (Cons x ready)
  obtain key r where x: "x = (key, r)" by (rule prod.exhaust)
  with Cons.prems obtain ts where ts: "flushed_tasks L sc key r = Inr ts"
    by (cases "flushed_tasks L sc key r") (simp_all add: is_ok_def)
  obtain rs w1 where run: "run_tasks ts w = (rs, w1)" by (rule prod.exhaust)
  have d: "dispatch_flushed L sc key r w = (sum_or_first_error 0 None rs, w1)"
    by (simp add: dispatch_flushed_def ts run)
  have all: "ready_tasks L sc ((key, r) # ready) = ts @ ready_tasks L sc ready"
    by (simp add: ready_tasks_def ts)
  have IH: "snd (dispatch_all L sc n e ready w1) = snd (run_tasks (ready_tasks L sc ready) w1) \<and>
    ((\<exists>k. fst (dispatch_all L sc n e ready w1) = Inr k) \<longleftrightarrow>
       e = None \<and> list_all is_ok (fst (run_tasks (ready_tasks L sc ready) w1)))" for n e
    using Cons by simp
  show ?case
  proof (cases "sum_or_first_error 0 None rs")
    case (Inr k)
    then have "list_all is_ok rs"
      using sum_or_first_error_Inr [of 0 None rs] by (auto simp: list_all_iff)
    with IH show ?thesis by (simp add: x d Inr all run_tasks_append run split: prod.splits)
  next
    case (Inl err)
    then have "\<not> list_all is_ok rs"
      using sum_or_first_error_Inr [of 0 None rs] by (auto simp: list_all_iff)
    moreover have "err \<noteq> Panic m" for m
      using sum_or_first_error_Inl [OF Inl] run_tasks_never_panic [OF flushed_tasks_never_panic [OF ts], of m w] run
      by auto
    ultimately show ?thesis
      using IH by (cases err) (auto simp: x d Inl all run_tasks_append run split: prod.splits option.splits)
  qed
qed

text \<open>A failing destination does not starve the others: a flush runs every publishing task of every drained
  block of every buffer, whichever of them fail, and returns \<open>Ok\<close> exactly when all of them succeeded.\<close>

theorem flush_continues_on_error:
  assumes "flush_finalized L network head (sc, w) = (r, (sc', w'))"
    and "ready = fst (drain_buffers network head (reorg_safe_distance_for sc network) (finalized_buffers sc))"
    and "list_all (\<lambda>(key, blocks). is_ok (flushed_tasks L sc' key blocks)) ready"
  shows "w' = snd (run_tasks (ready_tasks L sc' ready) w) \<and>
    (is_ok r \<longleftrightarrow> list_all is_ok (fst (run_tasks (ready_tasks L sc' ready) w)))"
proof -
  have "dispatch_all L sc' 0 None ready w = (r, w')"
    using assms(1,2) by (auto simp: flush_finalized_def Let_def split: prod.splits)
  with dispatch_all_runs_all [OF assms(3), of 0 None w] show ?thesis
    by (cases r) (auto simp: is_ok_def)
qed

theorem flush_continues_on_error_witness:
  "snd (run_tasks (ready_tasks plain_lib failing_webhook
     [(message_key WEBHOOK 0 sample_message, [(12, [J_Null])])]) 0) = (3 :: nat)"
proof -
  let ?sc = "failing_webhook\<lparr>finalized_buffers := [(message_key WEBHOOK 0 sample_message, [(30, [J_Null])])]\<rparr>"
  let ?ready = "[(message_key WEBHOOK 0 sample_message, [(12 :: u64, [J_Null])])]"
  have ready: "?ready = fst (drain_buffers ''ethereum'' 25 (reorg_safe_distance_for failing_webhook ''ethereum'')
      (finalized_buffers failing_webhook))"
    by (simp add: failing_webhook_def drain_buffers_eq reorg_safe_distance_for_def bt_retain_def final_at_def
        message_key_def sample_message_def)
  have tasks: "flushed_tasks plain_lib failing_webhook key r = flushed_tasks plain_lib ?sc key r" for key r
    by (induction r) (auto simp: tasks_for_key_def split: stream_type.splits)
  have "chunk_data plain_lib [J_Null] = [[J_Null]]"
    by (simp add: chunk_data_def plain_lib_def max_chunk_size_def)
  then have "list_all (\<lambda>(key, blocks). is_ok (flushed_tasks plain_lib ?sc key blocks)) ?ready"
    by (simp add: failing_webhook_def message_key_def sample_message_def tasks_for_key_def nth_config_def
        webhook_stream_tasks_def filter_chunk_event_data_by_conditions_def find_event_def flushed_message_def is_ok_def)
  from flush_continues_on_error [OF failing_flush ready this]
  show ?thesis by (simp add: ready_tasks_def tasks)
qed

end
