(* ===== verification/Coordinator_Correct.thy ===== *)
theory Coordinator_Correct
  imports Reorg_Coordinator Streams_Correct
begin

text \<open>
  The properties of the reorg coordinator. \<open>block_window\<close> is what the coordinator relies on from the
  window; the lemma that checked insertion keeps the stored blocks a chain of parents is proved from
  it once.
\<close>

section \<open>The window as the coordinator sees it\<close>

type_synonym block_lookup = "u64 \<Rightarrow> (b256 \<times> b256) option"

definition linked :: "block_lookup \<Rightarrow> bool" where
  "linked look = (\<forall>n h p h' p'. look n = Some (h, p) \<longrightarrow> look (n + 1) = Some (h', p') \<longrightarrow> n + 1 \<noteq> 0 \<longrightarrow> p' = h)"

definition parent_fits :: "block_lookup \<Rightarrow> u64 \<Rightarrow> b256 \<Rightarrow> bool" where
  "parent_fits look n p = (n = 0 \<or> (case look (n - 1) of None \<Rightarrow> True | Some (h, _) \<Rightarrow> h = p))"

locale block_window =
  fixes lookup :: "'s \<Rightarrow> block_lookup"
    and ins :: "'s \<Rightarrow> u64 \<Rightarrow> b256 \<Rightarrow> b256 \<Rightarrow> 's"
    and rem :: "'s \<Rightarrow> u64 \<Rightarrow> 's"
    and valid :: "'s \<Rightarrow> bool"
  assumes lookup_ins: "valid s \<Longrightarrow> lookup (ins s n h p) k = Some v \<Longrightarrow>
      (if k = n then v = (h, p) else lookup s k = Some v)"
    and lookup_rem: "lookup (rem s m) k = (if k < m then lookup s k else None)"
    and valid_ins: "valid s \<Longrightarrow> valid (ins s n h p)"
    and valid_rem: "valid s \<Longrightarrow> valid (rem s m)"
begin

lemma linked_ins:
  assumes "valid s" and "linked (lookup s)" and "parent_fits (lookup s) n p"
    and "n + 1 \<noteq> 0 \<longrightarrow> lookup s (n + 1) = None"
  shows "linked (lookup (ins s n h p))"
  unfolding linked_def
proof (intro allI impI)
  fix m a q b r
  assume m: "lookup (ins s n h p) m = Some (a, q)" and m1: "lookup (ins s n h p) (m + 1) = Some (b, r)"
    and nz: "m + 1 \<noteq> 0"
  note at = lookup_ins [OF assms(1) m] and next_at = lookup_ins [OF assms(1) m1]
  show "r = a"
  proof (cases "m + 1 = n")
    case True
    then have "m = n - 1" "m \<noteq> n" by auto
    with at have "lookup s (n - 1) = Some (a, q)" by simp
    with assms(3) nz True have "a = p" by (simp add: parent_fits_def)
    with next_at True show ?thesis by simp
  next
    case False
    with next_at have s1: "lookup s (m + 1) = Some (b, r)" by simp
    with assms(4) nz have "m \<noteq> n" by auto
    with at have "lookup s m = Some (a, q)" by simp
    with s1 nz assms(2) show ?thesis unfolding linked_def by blast
  qed
qed

lemma linked_rem: "linked (lookup s) \<Longrightarrow> linked (lookup (rem s m))"
  unfolding linked_def lookup_rem by (auto split: if_splits)

lemma lookup_ins_bound: "valid s \<Longrightarrow> \<forall>k\<in>dom (lookup s). k < m \<Longrightarrow> n < m \<Longrightarrow> k \<in> dom (lookup (ins s n h p)) \<Longrightarrow> k < m"
  using lookup_ins [of s n h p k] by (cases "k = n") auto

end

interpretation wnd: block_window wnd_get wnd_insert wnd_remove_from wnd_sorted
proof
  fix s n h p k v
  assume s: "wnd_sorted s" and "wnd_get (wnd_insert s n h p) k = Some v"
  with wnd_insert_get_Some [OF s] show "if k = n then v = (h, p) else wnd_get s k = Some v" by blast
qed (auto simp: wnd_get_remove_from)

lemma validate_parent_fits: "wnd_validate_parent w n p = Mismatch a b \<longleftrightarrow>
    n \<noteq> 0 \<and> b = p \<and> a \<noteq> p \<and> (\<exists>q. wnd_get w (n - 1) = Some (a, q))"
proof (cases "n = 0")
  case True
  then show ?thesis by (simp add: wnd_validate_parent_def checked_sub_def)
next
  case False
  then have "checked_sub n 1 = Some (n - 1)"
    by (simp add: checked_sub_def word_le_nat_alt unat_gt_0 Suc_le_eq)
  then show ?thesis using False by (auto simp: wnd_validate_parent_def wnd_get_def split: option.splits)
qed

lemma not_mismatch_fits: "(\<forall>a b. wnd_validate_parent w n p \<noteq> Mismatch a b) \<longleftrightarrow> parent_fits (wnd_get w) n p"
  by (auto simp: validate_parent_fits parent_fits_def split: option.splits)

section \<open>What each operation does to the window\<close>

definition window_sat :: "(block_chain_window \<Rightarrow> bool) \<Rightarrow> 'w reorg_coordinator \<times> 'w \<Rightarrow> bool" where
  "window_sat P = (\<lambda>(c, w). P (rc_window c))"

lemma persist_window [intro]: "io_keeps (window_sat P) (persist_and_maybe_prune E n h p)"
  by (auto simp: io_keeps_def window_sat_def persist_and_maybe_prune_def Let_def split: prod.splits sum.splits)

lemma persist_rc_window:
  "persist_and_maybe_prune E n h p (c, w) = (r, (c', w')) \<Longrightarrow> rc_window c' = rc_window c"
  by (auto simp: persist_and_maybe_prune_def Let_def split: prod.splits sum.splits if_splits)

lemma flush_window [intro]: "io_keeps (window_sat P) (flush_finalized_buffers E n)"
  by (auto simp: io_keeps_def window_sat_def flush_finalized_buffers_def split: prod.splits)

lemma ask_node_state: "snd (ask_node m f ns (c, w)) = (c, snd (snd (ask_node m f ns (c, w))))"
  by (auto simp: ask_node_def outside_def split: option.splits prod.splits)

lemma find_fork_point_state:
  "find_fork_point (c, w) = (r, (c', w')) \<Longrightarrow> c' = c"
  using ask_node_state [of "''No provider configured for fork point detection''"
      "''Failed to fetch blocks for fork point detection''" "wnd_block_numbers (rc_window c)" c w]
  by (auto simp: find_fork_point_def io_bind_def Let_def split: if_splits prod.splits sum.splits)

lemma handle_mismatch_state: "handle_mismatch n (c, w) = (r, (c', w')) \<Longrightarrow> c' = c"
  using find_fork_point_state by (auto simp: handle_mismatch_def io_bind_def split: prod.splits sum.splits)

lemma handle_mismatch_fst: "fst (snd (handle_mismatch n (c, w))) = c"
  using handle_mismatch_state by (metis prod.exhaust_sel)

lemma mismatch_window [intro]: "io_keeps (window_sat P) (handle_mismatch n)"
  by (simp add: io_keeps_def window_sat_def case_prod_unfold handle_mismatch_fst)

lemma handle_mismatch_window: "P (rc_window c) \<Longrightarrow> window_sat P (snd (handle_mismatch n (c, w)))"
  by (simp add: window_sat_def case_prod_unfold handle_mismatch_fst)

lemma insert_window_app [simp]:
  "insert_window n h p (c, w) = (Inr (), (c\<lparr>rc_window := wnd_insert (rc_window c) n h p\<rparr>, w))"
  by (simp add: insert_window_def)

lemma accept_block_window:
  assumes "P (wnd_insert (rc_window c) n h p)"
  shows "window_sat P (snd (accept_block E n h p (c, w)))"
proof -
  let ?rest = "io_then (persist_and_maybe_prune E n h p)
      (io_then (flush_finalized_buffers E n) (io_ret None)) :: (_, reorg_task option) coord_io"
  let ?c = "c\<lparr>rc_window := wnd_insert (rc_window c) n h p\<rparr>"
  have "io_keeps (window_sat P) ?rest" by blast
  moreover have "window_sat P (?c, w)" using assms by (simp add: window_sat_def)
  ultimately have "window_sat P (snd (?rest (?c, w)))" unfolding io_keeps_def by blast
  then show ?thesis by (simp add: accept_block_def io_then_Inr)
qed

section \<open>The stored blocks are a chain\<close>

definition chain_window :: "block_chain_window \<Rightarrow> bool" where
  "chain_window win = (wnd_sorted win \<and> linked (wnd_get win))"

definition head_window :: "u64 \<Rightarrow> block_chain_window \<Rightarrow> bool" where
  "head_window n win = (chain_window win \<and> (\<forall>k\<in>dom (wnd_get win). k < n))"

text \<open>The node answers a batch request with some of the blocks asked for, an ascending one in ascending order.\<close>

lemma wnd_block_numbers_sorted: "wnd_sorted win \<Longrightarrow> sorted_wrt (<) (wnd_block_numbers win)"
  by (simp add: wnd_sorted_def wnd_block_numbers_def bt_invar_def bt_keys_def)

definition answers_in_order :: "'w chain_provider option \<Rightarrow> bool" where
  "answers_in_order provider =
     (\<forall>fetch ns v bs v'. provider = Some fetch \<longrightarrow> fetch ns v = (Inr bs, v') \<longrightarrow>
        set (map rb_number bs) \<subseteq> set ns \<and> (sorted_wrt (<) ns \<longrightarrow> sorted_wrt (<) (map rb_number bs)))"

lemma chain_window_insert:
  assumes "chain_window win" and "parent_fits (wnd_get win) n p" and "n + 1 \<noteq> 0 \<longrightarrow> wnd_get win (n + 1) = None"
  shows "chain_window (wnd_insert win n h p)"
  using assms wnd.linked_ins [of win n p h] wnd.valid_ins by (simp add: chain_window_def)

lemma head_window_next: "head_window n win \<Longrightarrow> n + 1 \<noteq> 0 \<longrightarrow> wnd_get win (n + 1) = None"
proof (rule impI, rule ccontr)
  assume hw: "head_window n win" and nz: "n + 1 \<noteq> 0" and "wnd_get win (n + 1) \<noteq> None"
  then have "n + 1 < n" by (auto simp: head_window_def)
  moreover have "unat (n + 1) = Suc (unat n)" using nz unatSuc [of n] by (simp add: add.commute)
  ultimately show False by (simp add: word_less_nat_alt)
qed

lemma head_window_mono: "head_window m win \<Longrightarrow> m \<le> n \<Longrightarrow> head_window n win"
  by (auto simp: head_window_def intro: less_le_trans)

lemma head_window_insert:
  assumes "head_window m win" and "m \<le> n" and "parent_fits (wnd_get win) n p" and "n < k"
  shows "head_window k (wnd_insert win n h p)"
proof -
  have hw: "head_window n win" using assms(1,2) by (rule head_window_mono)
  have valid: "wnd_sorted win" using hw by (simp add: head_window_def chain_window_def)
  have "chain_window (wnd_insert win n h p)"
    using hw assms(3) head_window_next [OF hw] by (intro chain_window_insert) (simp_all add: head_window_def)
  moreover have "\<forall>j\<in>dom (wnd_get win). j < k" using hw assms(4) by (auto simp: head_window_def intro: less_trans)
  ultimately show ?thesis
    using wnd.lookup_ins_bound [OF valid _ assms(4)] by (auto simp: head_window_def)
qed

lemma window_sat_mono: "window_sat P x \<Longrightarrow> (\<And>win. P win \<Longrightarrow> Q win) \<Longrightarrow> window_sat Q x"
  by (auto simp: window_sat_def split: prod.splits)

lemma fill_blocks_window:
  assumes "sorted_wrt (<) (map rb_number bs)" and "\<forall>b\<in>set bs. m \<le> rb_number b \<and> rb_number b < n"
    and "head_window m win" and "m \<le> n" and "win = rc_window c"
  shows "window_sat (head_window n) (snd (fill_blocks E n bs (c, w)))"
  using assms
proof (induction bs arbitrary: m win c w)
  case Nil
  then show ?case using head_window_mono by (simp add: window_sat_def)
next
  case (Cons b bs)
  let ?k = "rb_number b"
  have start: "head_window n (rc_window c)" using Cons.prems head_window_mono by simp
  show ?case
  proof (cases "\<exists>x y. wnd_validate_parent (rc_window c) ?k (rb_parent_hash b) = Mismatch x y")
    case True
    moreover have "window_sat (head_window n) (snd (handle_mismatch n (c, w)))"
      using start by (rule handle_mismatch_window)
    ultimately show ?thesis by auto
  next
    case False
    let ?c = "c\<lparr>rc_window := wnd_insert (rc_window c) ?k (rb_hash b) (rb_parent_hash b)\<rparr>"
    have fits: "parent_fits (wnd_get (rc_window c)) ?k (rb_parent_hash b)"
      using False not_mismatch_fits by blast
    have le: "m \<le> ?k" "?k < n" using Cons.prems by auto
    have step: "fill_blocks E n (b # bs) (c, w) =
        io_then (persist_and_maybe_prune E ?k (rb_hash b) (rb_parent_hash b)) (fill_blocks E n bs) (?c, w)"
      using False by (cases "wnd_validate_parent (rc_window c) ?k (rb_parent_hash b)")
        (simp_all add: io_then_Inr)
    obtain r c1 w1 where pers: "persist_and_maybe_prune E ?k (rb_hash b) (rb_parent_hash b) (?c, w) = (r, (c1, w1))"
      by (metis prod.exhaust)
    have win1: "rc_window c1 = rc_window ?c"
      by (rule persist_rc_window [OF pers])
    have "head_window n (rc_window ?c)"
      using Cons.prems(3,5) le fits by (auto intro: head_window_insert)
    then have now: "window_sat (head_window n) (c1, w1)" using win1 by (simp add: window_sat_def)
    show ?thesis
    proof (cases r)
      case (Inl e)
      with pers now show ?thesis unfolding step by (simp add: io_then_Inl)
    next
      case (Inr u)
      have "?k + 1 \<le> n" using le(2) by (rule inc_le)
      have unatk: "unat (?k + 1) = Suc (unat ?k)" using le(2) by (rule word_succ_unat)
      have "head_window (?k + 1) (rc_window ?c)"
        using Cons.prems(3,5) le(1) fits unatk
        by (auto intro!: head_window_insert simp: word_less_nat_alt)
      moreover have "\<forall>x\<in>set bs. ?k + 1 \<le> rb_number x \<and> rb_number x < n"
        using Cons.prems(1,2) unatk by (auto simp: word_less_nat_alt word_le_nat_alt)
      ultimately have "window_sat (head_window n) (snd (fill_blocks E n bs (c1, w1)))"
        using Cons.prems(1) win1 \<open>?k + 1 \<le> n\<close>
        by (intro Cons.IH [of "?k + 1" "rc_window c1"]) simp_all
      with pers Inr show ?thesis unfolding step by (simp add: io_then_Inr)
    qed
  qed
qed

lemma fill_gap_window:
  assumes "head_window n (rc_window c)" and "\<not> wnd_is_empty (rc_window c)" and "answers_in_order (rc_provider c)"
  shows "window_sat (head_window n) (snd (fill_gap E n (c, w)))"
proof -
  from assms(2) obtain l where l: "wnd_latest_block (rc_window c) = Some l"
    by (cases "wnd_latest_block (rc_window c)") (auto simp: wnd_latest_block_eq wnd_is_empty_iff split: if_splits)
  have sorted: "wnd_sorted (rc_window c)" using assms(1) by (simp add: head_window_def chain_window_def)
  from wnd_latest_greatest [OF sorted l] have below: "\<forall>k\<in>dom (wnd_get (rc_window c)). k \<le> l"
    and "l \<in> dom (wnd_get (rc_window c))" by auto
  then have "l < n" using assms(1) by (auto simp: head_window_def)
  then have l1: "unat (l + 1) = Suc (unat l)" by (rule word_succ_unat)
  have start: "window_sat (head_window n) (c, v)" for v using assms(1) by (simp add: window_sat_def)
  have hw: "head_window (l + 1) (rc_window c)"
    using assms(1) below l1 by (force simp: head_window_def word_less_nat_alt word_le_nat_alt)
  show ?thesis
  proof (cases "l + 1 < n \<and> rc_provider c \<noteq> None")
    case True
    then obtain fetch where fetch: "rc_provider c = Some fetch" by blast
    obtain r w' where rv: "fetch (u64_range (l + 1) n) w = (r, w')" by (rule prod.exhaust)
    show ?thesis
    proof (cases r)
      case (Inr bs)
      from assms(3) fetch rv Inr have ans: "set (map rb_number bs) \<subseteq> set (u64_range (l + 1) n)"
        and ord: "sorted_wrt (<) (map rb_number bs)"
        using sorted_u64_range unfolding answers_in_order_def by blast+
      from ans have "\<forall>b\<in>set bs. l + 1 \<le> rb_number b \<and> rb_number b < n"
        by (auto simp: set_u64_range)
      from fill_blocks_window [OF ord this hw _ refl, of E w'] True fetch rv Inr l show ?thesis
        by (auto simp: fill_gap_def Let_def set_u64_range)
    qed (use True fetch rv l start in \<open>simp add: fill_gap_def Let_def\<close>)
  qed (use l start in \<open>auto simp: fill_gap_def Let_def split: option.splits\<close>)
qed


definition zero_hash_text :: string where
  "zero_hash_text = ''0x'' @ replicate 64 (CHR ''0'')"

definition toy_env :: "(int, 'w) reorg_env" where
  "toy_env = \<lparr>u256_from_dec = (\<lambda>_. Inl []), u256_from_hex = (\<lambda>_. Inl []), i256_from_dec = (\<lambda>_. Inl []),
     decimal_from = (\<lambda>_. Inl []), json_to_string = (\<lambda>_. ''null''), json_from_str = (\<lambda>_. Inl []),
     json_eq = (\<lambda>_ _. False), debug_accessor = (\<lambda>_. []), debug_json = (\<lambda>_. []), debug_literal = (\<lambda>_. []),
     filter_parser = (\<lambda>_. Inl []), format_b256 = (\<lambda>_. zero_hash_text), parse_b256 = (\<lambda>_. Inr 0),
     spawn_task = (\<lambda>_ w. w)\<rparr>"

definition toy_coordinator :: "rpc_block list \<Rightarrow> 'w reorg_coordinator" where
  "toy_coordinator chain = \<lparr>rc_network = ''ethereum'', rc_window = sample_window,
     rc_persistence = \<lparr>bp_postgres = None, bp_clickhouse = None\<rparr>,
     rc_provider = Some (\<lambda>ns w. (Inr (filter (\<lambda>b. rb_number b \<in> set ns) chain), w)),
     rc_event_tables = [], rc_derived_tables = [], rc_streams_clients = [], rc_blocks_since_flush = 0\<rparr>"

lemma toy_persist:
  "persist_and_maybe_prune toy_env n h p (toy_coordinator chain\<lparr>rc_window := win\<rparr>, w) =
     (Inr (), (toy_coordinator chain\<lparr>rc_window := win, rc_blocks_since_flush := 1\<rparr>, w))"
proof -
  have "is_hash_text zero_hash_text"
    by (simp add: is_hash_text_def zero_hash_text_def starts_with_def is_ascii_hexdigit_def is_ascii_digit_def
        char_in_def list_all_iff)
  moreover note ethereum_is_plain
  ultimately show ?thesis
    by (simp add: persist_and_maybe_prune_def toy_coordinator_def toy_env_def persistence_insert_block_def
        io_then_def io_bind_def io_opt_def ensure_def context_all_def flush_interval_def Let_def word_le_nat_alt)
qed

lemma sample_window_chain: "chain_window sample_window" "wnd_get sample_window = [10 \<mapsto> (100, 90), 11 \<mapsto> (110, 100)]"
proof -
  show get: "wnd_get sample_window = [10 \<mapsto> (100, 90), 11 \<mapsto> (110, 100)]"
    by (simp add: wnd_get_def [abs_def] sample_window_def bt_get_def fun_eq_iff)
  have "linked (wnd_get sample_window)"
    unfolding get linked_def by (auto split: if_splits)
  moreover have "wnd_sorted sample_window"
    by (simp add: wnd_sorted_def sample_window_def bt_invar_def)
  ultimately show "chain_window sample_window" by (simp add: chain_window_def)
qed

lemma toy_answers: "sorted_wrt (<) (map rb_number chain) \<Longrightarrow> answers_in_order (rc_provider (toy_coordinator chain))"
  by (auto simp: answers_in_order_def toy_coordinator_def sorted_wrt_map intro: sorted_wrt_filter)


section \<open>Detected reorgs\<close>

definition same_frame :: "'w reorg_coordinator \<Rightarrow> 'w reorg_coordinator \<times> 'w \<Rightarrow> bool" where
  "same_frame c0 = (\<lambda>(c, w).
     rc_network c = rc_network c0 \<and> rc_provider c = rc_provider c0 \<and>
     rc_event_tables c = rc_event_tables c0 \<and> rc_derived_tables c = rc_derived_tables c0 \<and>
     (wnd_sorted (rc_window c0) \<longrightarrow> wnd_sorted (rc_window c)))"

lemma same_frame_self [simp]: "same_frame c (c, w)"
  by (simp add: same_frame_def)

lemma frame_insert [intro]: "io_keeps (same_frame c0) (insert_window n h p)"
  by (auto simp: io_keeps_def same_frame_def dest: wnd_insert_ok simp: wnd_ok_def)

lemma frame_persist [intro]: "io_keeps (same_frame c0) (persist_and_maybe_prune E n h p)"
  by (auto simp: io_keeps_def same_frame_def persist_and_maybe_prune_def Let_def split: prod.splits sum.splits)

lemma frame_mismatch [intro]: "io_keeps (same_frame c0) (handle_mismatch n)"
  by (auto simp: io_keeps_def same_frame_def case_prod_unfold handle_mismatch_fst)

lemma accept_block_None: "accept_block E n h p s \<noteq> (Inr (Some t), s')"
  by (auto simp: accept_block_def io_then_eq_Inr)

lemma fill_blocks_SomeD:
  "fill_blocks E n bs (c, w) = (Inr (Some t), s') \<Longrightarrow> same_frame c0 (c, w) \<Longrightarrow>
     \<exists>d v. handle_mismatch n (d, v) = (Inr (Some t), s') \<and> same_frame c0 (d, v)"
proof (induction bs arbitrary: c w)
  case (Cons b bs)
  show ?case
  proof (cases "\<exists>x y. wnd_validate_parent (rc_window c) (rb_number b) (rb_parent_hash b) = Mismatch x y")
    case True
    with Cons.prems(1) have "handle_mismatch n (c, w) = (Inr (Some t), s')" by auto
    with Cons.prems(2) show ?thesis by blast
  next
    case False
    let ?step = "io_then (insert_window (rb_number b) (rb_hash b) (rb_parent_hash b))
      (persist_and_maybe_prune E (rb_number b) (rb_hash b) (rb_parent_hash b))"
    from False Cons.prems(1) obtain c1 w1 where step: "?step (c, w) = (Inr (), (c1, w1))"
      and rest: "fill_blocks E n bs (c1, w1) = (Inr (Some t), s')"
      by (cases "wnd_validate_parent (rc_window c) (rb_number b) (rb_parent_hash b)")
        (auto simp: io_then_eq_Inr)
    have "io_keeps (same_frame c0) ?step" by blast
    from io_keepsD [OF this Cons.prems(2) step] rest show ?thesis by (rule Cons.IH [rotated])
  qed
qed simp

lemma fill_blocks_frame [intro]: "io_keeps (same_frame c0) (fill_blocks E n bs)"
proof (induction bs)
  case Nil
  then show ?case by (simp add: io_keeps_def)
next
  case (Cons b bs)
  have "io_keeps (same_frame c0) (io_then (insert_window (rb_number b) (rb_hash b) (rb_parent_hash b))
      (io_then (persist_and_maybe_prune E (rb_number b) (rb_hash b) (rb_parent_hash b)) (fill_blocks E n bs)))"
    using Cons by blast
  moreover have "io_keeps (same_frame c0) (handle_mismatch n)" by blast
  ultimately show ?case by (auto simp: io_keeps_def split: parent_validation.splits)
qed

lemma fill_gap_frame: "fill_gap E n (c, w) = (r, (c1, w1)) \<Longrightarrow> same_frame c (c1, w1)"
  using io_keepsD [OF fill_blocks_frame same_frame_self, of E n _ c _ r "(c1, w1)"]
  by (auto simp: fill_gap_def Let_def split: if_splits option.splits prod.splits sum.splits)

lemma on_new_block_SomeD:
  assumes "on_new_block E n h p (c, w) = (Inr (Some t), s')"
  shows "\<exists>d v. handle_mismatch n (d, v) = (Inr (Some t), s') \<and> same_frame c (d, v)"
proof -
  have detect: "\<exists>d v. handle_mismatch n (d, v) = (Inr (Some t), s') \<and> same_frame c (d, v)"
    if "insert_or_detect_reorg E n h p (c1, w1) = (Inr (Some t), s')" "same_frame c (c1, w1)" for c1 w1
    using that by (auto simp: insert_or_detect_reorg_def accept_block_None split: parent_validation.splits)
  show ?thesis
  proof (cases "wnd_validate_parent (rc_window c) n p")
    case NoPreviousBlock
    with assms have "\<not> (wnd_is_empty (rc_window c) \<or> n = 0)"
      by (auto simp: on_new_block_def accept_block_None)
    with assms NoPreviousBlock obtain found c1 w1 where fill: "fill_gap E n (c, w) = (Inr found, (c1, w1))"
      and found: "(case found of Some task \<Rightarrow> io_ret (Some task) | None \<Rightarrow> insert_or_detect_reorg E n h p) (c1, w1) =
        (Inr (Some t), s')"
      by (auto simp: on_new_block_def io_bind_eq_Inr)
    show ?thesis
    proof (cases found)
      case None
      with detect found fill_gap_frame [OF fill] show ?thesis by simp
    next
      case (Some t')
      with found fill have "fill_gap E n (c, w) = (Inr (Some t), s')" by simp
      then obtain bs v where "fill_blocks E n bs (c, v) = (Inr (Some t), s')"
        by (auto simp: fill_gap_def Let_def split: if_splits option.splits prod.splits sum.splits)
      then show ?thesis by (rule fill_blocks_SomeD) simp
    qed
  next
    case Valid
    with assms show ?thesis by (simp add: on_new_block_def accept_block_None)
  next
    case (Mismatch a b)
    with assms have "handle_mismatch n (c, w) = (Inr (Some t), s')" by (simp add: on_new_block_def)
    then show ?thesis by (intro exI [of _ c] exI [of _ w]) simp
  qed
qed

lemma handle_mismatch_SomeD:
  assumes "handle_mismatch n (c, w) = (Inr (Some t), (c', w'))"
  shows "c' = c \<and> wnd_block_numbers (rc_window c) \<noteq> [] \<and>
    (\<exists>fetch blocks. rc_provider c = Some fetch \<and> fetch (wnd_block_numbers (rc_window c)) w = (Inr blocks, w') \<and>
      t = make_task c (case wnd_find_fork_point (rc_window c) (map number_hash blocks) of
              Some last_match \<Rightarrow> last_match + 1 | None \<Rightarrow> hd (wnd_block_numbers (rc_window c))) n
            (map block_entry blocks))"
proof -
  have "c' = c" using handle_mismatch_state [OF assms] .
  with assms show ?thesis
    by (auto simp: handle_mismatch_def find_fork_point_def ask_node_def outside_def with_context_def Let_def
        io_bind_eq_Inr split: if_splits option.splits prod.splits sum.splits dest!: io_map_err_eq_Inr [THEN iffD1])
qed

definition task_hashes :: "reorg_task \<Rightarrow> (u64 \<times> b256) list" where
  "task_hashes t = map (\<lambda>(n, h, _). (n, h)) (rt_canonical_blocks t)"

lemma task_hashes_entries: "rt_canonical_blocks t = map block_entry bs \<Longrightarrow> task_hashes t = map number_hash bs"
  by (simp add: task_hashes_def block_entry_def number_hash_def)

text \<open>The fork point computed from the node's answer, with the oldest stored block when nothing matches.\<close>

definition fork_facts :: "block_chain_window \<Rightarrow> (u64 \<times> b256) list \<Rightarrow> u64 \<Rightarrow> bool" where
  "fork_facts win hashes fork = ((\<forall>b. fork_match win hashes b \<longrightarrow> b < fork) \<and>
     (if \<exists>b. fork_match win hashes b then fork_match win hashes (fork - 1) else wnd_oldest_block win = Some fork))"

lemma fork_point_facts:
  assumes sorted: "sorted_wrt (<) (map fst hashes)" and top: "wnd_get win (- 1) = None"
    and ne: "wnd_block_numbers win \<noteq> []"
    and fork: "fork = (case wnd_find_fork_point win hashes of
      Some last_match \<Rightarrow> last_match + 1 | None \<Rightarrow> hd (wnd_block_numbers win))"
  shows "fork_facts win hashes fork"
proof (cases "wnd_find_fork_point win hashes")
  case None
  then show ?thesis
    using wnd_find_fork_point_None [of win hashes] ne by (simp add: fork fork_facts_def wnd_oldest_block_eq)
next
  case (Some b)
  note match = wnd_find_fork_point_Some [OF sorted Some]
  from match(1) top have "b \<noteq> - 1" by (auto simp: fork_match_def)
  then have "b + 1 \<noteq> 0" by (metis add_diff_cancel diff_0)
  then have "unat (b + 1) = Suc (unat b)" using unatSuc [of b] by (simp add: add.commute)
  with match have "fork_match win hashes b' \<Longrightarrow> b' < b + 1" for b'
    by (simp add: word_less_nat_alt word_le_nat_alt less_Suc_eq_le)
  with match(1) Some show ?thesis by (auto simp: fork fork_facts_def)
qed

lemma fork_of_mismatch:
  assumes run: "handle_mismatch n (c, w) = (Inr (Some t), (c', w'))"
    and order: "answers_in_order (rc_provider c)" and sorted: "wnd_sorted (rc_window c)"
    and top: "wnd_get (rc_window c) (- 1) = None"
  shows "fork_facts (rc_window c) (task_hashes t) (rt_fork_point t)"
proof -
  obtain fetch bs where f: "rc_provider c = Some fetch" "fetch (wnd_block_numbers (rc_window c)) w = (Inr bs, w')"
    and ne: "wnd_block_numbers (rc_window c) \<noteq> []"
    and t: "t = make_task c (case wnd_find_fork_point (rc_window c) (map number_hash bs) of
              Some last_match \<Rightarrow> last_match + 1 | None \<Rightarrow> hd (wnd_block_numbers (rc_window c))) n (map block_entry bs)"
    using handle_mismatch_SomeD [OF run] by blast
  have hashes: "task_hashes t = map number_hash bs"
    by (rule task_hashes_entries) (simp add: t make_task_def)
  have "sorted_wrt (<) (map fst (map number_hash bs))"
    using order f wnd_block_numbers_sorted [OF sorted] by (auto simp: answers_in_order_def number_hash_def comp_def)
  from fork_point_facts [OF this top ne] show ?thesis by (simp add: hashes) (simp add: t make_task_def)
qed

text \<open>C2: The task of a detected reorg is right: it is for this network and its tables, ends at the block that
  exposed the reorg, and starts just above the highest stored block the node still agrees with (at the oldest
  stored block when it agrees with none), so every stored block that is still canonical is kept.\<close>

theorem detected_reorg_task:
  assumes "on_new_block E n h p (c, w) = (Inr (Some t), (c', w'))"
    and "answers_in_order (rc_provider c)" and "wnd_sorted (rc_window c)" and "wnd_get (rc_window c') (- 1) = None"
  shows "rt_network t = rc_network c \<and> rt_event_tables t = rc_event_tables c \<and>
    rt_derived_tables t = rc_derived_tables c \<and> rt_detection_point t = n \<and>
    (\<forall>b. fork_match (rc_window c') (task_hashes t) b \<longrightarrow> b < rt_fork_point t) \<and>
    (if \<exists>b. fork_match (rc_window c') (task_hashes t) b
     then fork_match (rc_window c') (task_hashes t) (rt_fork_point t - 1)
     else wnd_oldest_block (rc_window c') = Some (rt_fork_point t))"
proof -
  obtain d v where mis: "handle_mismatch n (d, v) = (Inr (Some t), (c', w'))" and frame: "same_frame c (d, v)"
    using on_new_block_SomeD [OF assms(1)] by blast
  have d: "c' = d" using handle_mismatch_state [OF mis] .
  have "rt_network t = rc_network d" "rt_event_tables t = rc_event_tables d"
    "rt_derived_tables t = rc_derived_tables d" "rt_detection_point t = n"
    using handle_mismatch_SomeD [OF mis] by (auto simp: make_task_def)
  moreover have "answers_in_order (rc_provider d)" using assms(2) frame by (simp add: same_frame_def)
  moreover have "wnd_sorted (rc_window d)" using assms(3) frame by (simp add: same_frame_def)
  ultimately show ?thesis
    using fork_of_mismatch [OF mis] assms(4) frame d by (simp add: same_frame_def fork_facts_def)
qed

text \<open>The node's chain has replaced block 11, and a block 12 on top of the replacement arrives.\<close>

definition forked_chain :: "rpc_block list" where
  "forked_chain = [\<lparr>rb_number = 10, rb_hash = 100, rb_parent_hash = 90\<rparr>,
     \<lparr>rb_number = 11, rb_hash = 111, rb_parent_hash = 100\<rparr>]"

definition forked_task :: reorg_task where
  "forked_task = \<lparr>rt_network = ''ethereum'', rt_fork_point = 11, rt_detection_point = 12, rt_event_tables = [],
     rt_derived_tables = [], rt_canonical_blocks = [(10, 100, 90), (11, 111, 100)]\<rparr>"

lemma forked_numbers: "wnd_block_numbers sample_window = [10, 11]"
  by (simp add: wnd_block_numbers_def sample_window_def bt_keys_def)

lemma forked_run:
  "on_new_block toy_env 12 120 111 (toy_coordinator forked_chain, ()) =
     (Inr (Some forked_task), (toy_coordinator forked_chain, ()))"
proof -
  have mis: "wnd_validate_parent sample_window 12 111 = Mismatch 110 111"
    by (simp add: wnd_validate_parent_def checked_sub_def sample_window_def bt_get_def)
  have fork: "wnd_find_fork_point sample_window [(10, 100), (11, 111)] = Some 10"
    by (simp add: wnd_find_fork_point_def sample_window_def bt_get_def)
  show ?thesis
    by (simp add: on_new_block_def toy_coordinator_def mis handle_mismatch_def find_fork_point_def forked_numbers
        ask_node_def outside_def with_context_def io_map_err_def io_bind_def forked_chain_def number_hash_def
        block_entry_def fork make_task_def forked_task_def)
qed

lemma forked_order: "answers_in_order (rc_provider (toy_coordinator forked_chain))"
  by (rule toy_answers) (simp add: forked_chain_def)

theorem detected_reorg_task_witness:
  "\<exists>c'. on_new_block toy_env 12 120 111 (toy_coordinator forked_chain, ()) = (Inr (Some forked_task), (c', ())) \<and>
     fork_match (rc_window c') (task_hashes forked_task) 10 \<and> rt_fork_point forked_task = 11"
proof -
  let ?c = "toy_coordinator forked_chain :: unit reorg_coordinator"
  have "wnd_sorted (rc_window ?c)" "wnd_get (rc_window ?c) (- 1) = None"
    using sample_window_chain by (simp_all add: toy_coordinator_def chain_window_def)
  note facts = detected_reorg_task [OF forked_run forked_order this]
  have fork: "rt_fork_point forked_task = 11" by (simp add: forked_task_def)
  have "wnd_oldest_block (rc_window ?c) = Some 10"
    by (simp add: toy_coordinator_def wnd_oldest_block_eq forked_numbers)
  then have "wnd_oldest_block (rc_window ?c) \<noteq> Some 11" by simp
  with facts have "fork_match (rc_window ?c) (task_hashes forked_task) (11 - 1)"
    unfolding fork by meson
  with forked_run fork show ?thesis by (intro exI [of _ ?c]) simp
qed

end
