(* ===== verification/Reorg_Handling.thy ===== *)
theory Reorg_Handling
  imports Coordinator_Correct Streams_Correct
begin

text \<open>
  What holds after a detected reorg has been handled (\<open>handle_reorg\<close>, \<open>detect_and_handle_reorg\<close>), what a
  restart finds (\<open>validate_on_startup\<close>), and two behaviours at the edge of the design: a block of a height
  the window already holds, and a ClickHouse rewind that is interrupted.
\<close>

section \<open>The state a detection leaves\<close>

lemma on_new_block_Some_head:
  assumes run: "on_new_block E n h p (c, w) = (Inr (Some t), (c', w'))"
    and hw: "head_window n (rc_window c)" and order: "answers_in_order (rc_provider c)"
  shows "head_window n (rc_window c')"
proof (cases "wnd_validate_parent (rc_window c) n p")
  case Valid
  with run show ?thesis by (simp add: on_new_block_def accept_block_None)
next
  case (Mismatch a b)
  with run have "c' = c" by (intro handle_mismatch_state) (simp add: on_new_block_def)
  with hw show ?thesis by simp
next
  case NoPreviousBlock
  with run have ne: "\<not> (wnd_is_empty (rc_window c) \<or> n = 0)"
    by (auto simp: on_new_block_def accept_block_None)
  with run NoPreviousBlock obtain found c1 w1 where fill: "fill_gap E n (c, w) = (Inr found, (c1, w1))"
    and found: "(case found of Some task \<Rightarrow> io_ret (Some task) | None \<Rightarrow> insert_or_detect_reorg E n h p) (c1, w1) =
      (Inr (Some t), (c', w'))"
    by (auto simp: on_new_block_def io_bind_eq_Inr)
  have hw1: "head_window n (rc_window c1)"
    using fill_gap_window [OF hw _ order, of E w] ne fill by (simp add: window_sat_def)
  show ?thesis
  proof (cases found)
    case None
    with found have "handle_mismatch n (c1, w1) = (Inr (Some t), (c', w'))"
      by (auto simp: insert_or_detect_reorg_def accept_block_None split: parent_validation.splits)
    then have "c' = c1" by (rule handle_mismatch_state)
    with hw1 show ?thesis by simp
  qed (use found hw1 in simp)
qed

lemma detected_canonical:
  assumes run: "on_new_block E n h p (c, w) = (Inr (Some t), (c', w'))"
    and order: "answers_in_order (rc_provider c)" and sorted: "wnd_sorted (rc_window c)"
  shows "distinct (map fst (rt_canonical_blocks t)) \<and> rt_detection_point t = n \<and>
    (\<forall>(k, _, _)\<in>set (rt_canonical_blocks t). k \<in> dom (wnd_get (rc_window c')))"
proof -
  obtain d v where mis: "handle_mismatch n (d, v) = (Inr (Some t), (c', w'))" and frame: "same_frame c (d, v)"
    using on_new_block_SomeD [OF run] by blast
  have d: "c' = d" using handle_mismatch_state [OF mis] .
  obtain fetch bs where f: "rc_provider d = Some fetch" "fetch (wnd_block_numbers (rc_window d)) v = (Inr bs, w')"
    and t: "rt_canonical_blocks t = map block_entry bs" "rt_detection_point t = n"
    using handle_mismatch_SomeD [OF mis] by (auto simp: make_task_def)
  from order frame have "answers_in_order (rc_provider d)" by (simp add: same_frame_def)
  moreover have "sorted_wrt (<) (wnd_block_numbers (rc_window d))"
    using sorted frame by (intro wnd_block_numbers_sorted) (simp add: same_frame_def)
  ultimately have sub: "set (map rb_number bs) \<subseteq> set (wnd_block_numbers (rc_window d))"
    and ord: "sorted_wrt (<) (map rb_number bs)"
    using f unfolding answers_in_order_def by blast+
  have fst: "map fst (rt_canonical_blocks t) = map rb_number bs"
    by (simp add: t block_entry_def)
  have "distinct (map rb_number bs)" using ord by (simp add: strict_sorted_iff)
  moreover have "set (map fst (rt_canonical_blocks t)) \<subseteq> dom (wnd_get (rc_window c'))"
    using sub unfolding fst d set_block_numbers .
  ultimately show ?thesis unfolding fst [symmetric] using t(2) by auto
qed

lemma word_pred_le: "n \<noteq> 0 \<Longrightarrow> n - 1 \<le> (n :: 'a::len word)"
  by (simp add: word_le_nat_alt unat_sub unat_gt_0 Suc_le_eq)

lemma word_pred_squeeze:
  fixes f n :: "'a::len word"
  assumes "\<not> f \<le> n - 1" and "f - 1 < n" and "n \<noteq> 0"
  shows "f - 1 = n - 1"
proof -
  have "f \<noteq> 0" using assms(1) by auto
  then have f: "unat (f - 1) = unat f - 1" "0 < unat f" by (simp_all add: unat_sub unat_gt_0 word_le_nat_alt Suc_le_eq)
  have n: "unat (n - 1) = unat n - 1" "0 < unat n"
    using assms(3) by (simp_all add: unat_sub unat_gt_0 word_le_nat_alt Suc_le_eq)
  show ?thesis
    using assms(1,2) f n by (simp add: word_le_nat_alt word_less_nat_alt word_unat_eq_iff)
qed

lemma validate_stored: "n \<noteq> 0 \<Longrightarrow> wnd_get win (n - 1) = Some (p, q) \<Longrightarrow> wnd_validate_parent win n p = Valid"
  using validate_parent_fits [of win n p]
  by (auto simp: wnd_validate_parent_def checked_sub_def wnd_get_def word_le_nat_alt unat_gt_0 Suc_le_eq)

lemma answers_subset:
  "answers_in_order provider \<Longrightarrow> provider = Some fetch \<Longrightarrow> fetch ns v = (Inr bs, v') \<Longrightarrow> rb_number ` set bs \<subseteq> set ns"
  unfolding answers_in_order_def by (metis image_set)

lemma handle_reorg_InrD:
  assumes "handle_reorg E t ctx (c, w) = (Inr (), (c', w'))"
  obtains window r v where
    "task_execute (format_b256 E) t (rc_window c) (cx_postgres ctx) (cx_clickhouse ctx) (rc_provider c) w =
       (Inr (window, r), v)"
    and "rc_window c' = window"
  using assms by (auto simp: handle_reorg_def same_frame_def Let_def split: prod.splits sum.splits)

text \<open>C3: Handling a detected reorg settles it: once the task has been executed, the detector accepts the block that
  exposed the reorg, provided the node's answer named the block's parent, so presenting the block again makes
  progress and does not report the same reorg for ever.\<close>

theorem retry_accepted_after_reorg:
  assumes run: "on_new_block E n h p (c, w) = (Inr (Some t), (c1, w1))"
    and handled: "handle_reorg E t ctx (c1, w1) = (Inr (), (c2, w2))"
    and chain: "chain_window (rc_window c)" and below: "\<forall>k\<in>dom (wnd_get (rc_window c)). k < n"
    and order: "answers_in_order (rc_provider c)"
    and node: "(n - 1, p, q) \<in> set (rt_canonical_blocks t)"
  shows "wnd_validate_parent (rc_window c2) n p = Valid"
proof -
  have hw: "head_window n (rc_window c1)"
    using on_new_block_Some_head [OF run _ order] chain below by (simp add: head_window_def)
  then have sorted: "wnd_sorted (rc_window c1)" and dom: "\<And>k. k \<in> dom (wnd_get (rc_window c1)) \<Longrightarrow> k < n"
    by (auto simp: head_window_def chain_window_def)
  obtain d v where mis: "handle_mismatch n (d, v) = (Inr (Some t), (c1, w1))" and frame: "same_frame c (d, v)"
    using on_new_block_SomeD [OF run] by blast
  have d: "c1 = d" using handle_mismatch_state [OF mis] .
  have order1: "answers_in_order (rc_provider c1)" using order frame d by (simp add: same_frame_def)
  have canon: "distinct (map fst (rt_canonical_blocks t))" "rt_detection_point t = n"
    and stored: "n - 1 \<in> dom (wnd_get (rc_window c1))"
    using detected_canonical [OF run order] node chain by (auto simp: chain_window_def)
  from dom [OF stored] have n0: "n \<noteq> 0" by auto
  have "wnd_get (rc_window c1) (- 1) = None"
  proof (rule ccontr)
    assume "wnd_get (rc_window c1) (- 1) \<noteq> None"
    with dom have "- 1 < n" by blast
    then show False using word_order.extremum [of n] by simp
  qed
  note fork = fork_of_mismatch [OF mis [folded d] order1 sorted this, unfolded fork_facts_def]
  obtain window r u where exe: "task_execute (format_b256 E) t (rc_window c1) (cx_postgres ctx) (cx_clickhouse ctx)
       (rc_provider c1) w1 = (Inr (window, r), u)" and win: "rc_window c2 = window"
    using handle_reorg_InrD [OF handled] by metis
  have "\<exists>q'. wnd_get window (n - 1) = Some (p, q')"
  proof (cases "rt_fork_point t \<le> n - 1")
    case True
    then show ?thesis
      using task_window_canonical [OF exe sorted canon(1) node] canon(2) n0 by (auto simp: word_pred_le)
  next
    case False
    let ?match = "fork_match (rc_window c1) (task_hashes t)"
    have "\<exists>b. ?match b" using fork False wnd_oldest_least [OF sorted] stored by meson
    then have "?match (rt_fork_point t - 1)" using fork by meson
    moreover from this have "rt_fork_point t - 1 < n" by (intro dom) (auto simp: fork_match_def)
    ultimately have match: "?match (n - 1)" using word_pred_squeeze [OF False _ n0] by simp
    then obtain h' q' where h': "(n - 1, h') \<in> set (task_hashes t)" and get: "wnd_get (rc_window c1) (n - 1) = Some (h', q')"
      by (auto simp: fork_match_def)
    from h' obtain x where "(n - 1, h', x) \<in> set (rt_canonical_blocks t)" by (auto simp: task_hashes_def)
    from eq_key_imp_eq_value [OF canon(1) this node] have "h' = p" by simp
    moreover have "wnd_get window (n - 1) = wnd_get (rc_window c1) (n - 1)"
      by (rule task_window_below [OF exe sorted]) (use answers_subset [OF order1] False in auto)
    ultimately show ?thesis using get by simp
  qed
  with n0 show ?thesis by (auto simp: win validate_stored)
qed

definition no_databases :: "'w reorg_context" where
  "no_databases = \<lparr>cx_postgres = None, cx_clickhouse = None, cx_registry = None, cx_trace_registry = None\<rparr>"

lemma toy_fields: "rc_window (toy_coordinator chain) = sample_window" "rc_streams_clients (toy_coordinator chain) = []"
  by (simp_all add: toy_coordinator_def)

lemma forked_handled:
  "handle_reorg toy_env forked_task no_databases (toy_coordinator forked_chain, ()) =
     (Inr (), (toy_coordinator forked_chain\<lparr>rc_window := wnd_update_range sample_window [(11, 111, 100)],
        rc_streams_clients := []\<rparr>, ()))"
proof -
  have "task_execute (format_b256 (toy_env :: (int, unit) reorg_env)) forked_task sample_window None None
      (rc_provider (toy_coordinator forked_chain)) () =
    (Inr (task_window forked_task [(11, 111, 100)] sample_window,
        \<lparr>rr_events_deleted = 0, rr_affected_tx_hashes = [],
         rr_affected_tables = map affected_table_of (rt_event_tables forked_task)\<rparr>), ())"
    by (rule task_without_databases) (simp_all add: ethereum_is_plain forked_task_def task_canonical_def)
  then show ?thesis
    by (simp add: handle_reorg_def toy_fields no_databases_def task_window_def notify_registries_def
        fire_def discard_clients_def Let_def)
qed

theorem retry_accepted_after_reorg_witness:
  "\<exists>c1 c2. on_new_block toy_env 12 120 111 (toy_coordinator forked_chain, ()) = (Inr (Some forked_task), (c1, ())) \<and>
     handle_reorg toy_env forked_task no_databases (c1, ()) = (Inr (), (c2, ())) \<and>
     wnd_validate_parent (rc_window c2) 12 111 = Valid"
proof -
  let ?c = "toy_coordinator forked_chain :: unit reorg_coordinator"
  have chain: "chain_window (rc_window ?c)" and below: "\<forall>k\<in>dom (wnd_get (rc_window ?c)). k < 12"
    by (simp_all add: toy_coordinator_def sample_window_chain)
  have node: "(12 - 1, 111, 100) \<in> set (rt_canonical_blocks forked_task)" by (simp add: forked_task_def)
  from retry_accepted_after_reorg [OF forked_run forked_handled chain below forked_order node]
    forked_run forked_handled show ?thesis by blast
qed

section \<open>What handling a reorg does to the streams\<close>

lemma publish_reorg_keeps_clients: "fst (publish_reorg E t depth n hashes tables clients w) = clients"
proof (induction clients arbitrary: w)
  case (Cons x clients)
  then show ?case
    by (cases x) (auto simp: Let_def split: prod.splits dest!: stream_reorg_state, (metis fst_conv)+)
qed simp

lemma publish_reorg_state:
  "publish_reorg E t depth n hashes tables clients w = (clients', w') \<Longrightarrow> clients' = clients"
  by (metis fst_conv publish_reorg_keeps_clients)

text \<open>The buffers after the blocks \<open>[f, d]\<close> of a network have been reverted.\<close>

definition reverted :: "string \<Rightarrow> u64 \<Rightarrow> u64 \<Rightarrow> finalized_buffers \<Rightarrow> finalized_buffers \<Rightarrow> bool" where
  "reverted network f d = list_all2 (\<lambda>(key, old) (key', new). key' = key \<and>
     (\<forall>n. fb_events new n = (if bk_network key = network \<and> f \<le> n \<and> n \<le> d then [] else fb_events old n)))"

lemma discard_buffers_reverted: "reverted network f d bufs (discard_buffers network f d bufs)"
  unfolding reverted_def discard_buffers_def
  by (auto simp: list_all2_conv_all_nth fb_discard_range_eq fb_events_def or_default_def split: prod.splits)

text \<open>C20: Handling a reorg takes exactly the reverted blocks out of the streams: in every client, the buffers of the
  affected network lose the events of blocks from the fork point to the detection point and nothing else,
  publishing the notification included; when the rollback fails the coordinator is left as it was, so the
  events are still held for the next attempt.\<close>

theorem handled_reorg_reverts_streams:
  assumes "handle_reorg E t ctx (c, w) = (r, (c', w'))"
  shows "case r of
      Inl _ \<Rightarrow> c' = c
    | Inr _ \<Rightarrow> list_all2 (rel_option (\<lambda>sc sc'.
          reverted (rt_network t) (rt_fork_point t) (rt_detection_point t) (finalized_buffers sc) (finalized_buffers sc') \<and>
          reorg_safe_distances sc' = reorg_safe_distances sc))
        (rc_streams_clients c) (rc_streams_clients c')"
proof (cases r)
  case (Inl e)
  with assms show ?thesis by (auto simp: handle_reorg_def Let_def split: prod.splits sum.splits)
next
  case (Inr u)
  have "rc_streams_clients c' =
      discard_clients (rt_network t) (rt_fork_point t) (rt_detection_point t) (rc_streams_clients c)"
    using assms unfolding Inr
    by (auto simp: handle_reorg_def Let_def split: prod.splits sum.splits dest!: publish_reorg_state)
  then show ?thesis
    by (auto simp: Inr discard_clients_def list_all2_conv_all_nth discard_finalized_def discard_buffers_reverted
        option.rel_map intro!: option.rel_refl)
qed

definition buffering_coordinator :: "nat reorg_coordinator" where
  "buffering_coordinator = (toy_coordinator forked_chain)\<lparr>rc_streams_clients := [None, Some failing_webhook]\<rparr>"

lemma no_database_handled:
  assumes "validate_sql_value (rt_network t) ''reorg task network'' = Inr ()"
    and "task_canonical t (rc_provider c) w = (Inr canonical, w1)"
  shows "\<exists>c' w'. handle_reorg E t no_databases (c, w) = (Inr (), (c', w'))"
  using task_without_databases [OF assms] by (simp add: handle_reorg_def no_databases_def Let_def split: prod.splits)

theorem handled_reorg_reverts_streams_witness:
  "\<exists>c' w' sc'. handle_reorg toy_env forked_task no_databases (buffering_coordinator, 0) = (Inr (), (c', w')) \<and>
     rc_streams_clients c' = [None, Some sc'] \<and>
     list_all (\<lambda>(key, buffer). fb_events buffer 12 = [] \<and> fb_events buffer 30 = [J_Null]) (finalized_buffers sc')"
proof -
  obtain c' w' where run: "handle_reorg toy_env forked_task no_databases (buffering_coordinator, 0) = (Inr (), (c', w'))"
  proof -
    have "validate_sql_value (rt_network forked_task) ''reorg task network'' = Inr ()"
      by (simp add: forked_task_def ethereum_is_plain)
    moreover have "task_canonical forked_task (rc_provider buffering_coordinator) 0 = (Inr [(11, 111, 100)], 0)"
      by (simp add: forked_task_def task_canonical_def)
    ultimately show thesis using no_database_handled [of forked_task buffering_coordinator 0 _ 0 toy_env] that by blast
  qed
  from handled_reorg_reverts_streams [OF run] obtain sc' where sc': "rc_streams_clients c' = [None, Some sc']"
    and rev: "reverted ''ethereum'' 11 12 (finalized_buffers failing_webhook) (finalized_buffers sc')"
    by (auto simp: buffering_coordinator_def forked_task_def list_all2_Cons1 option_rel_Some1)
  from rev have "list_all (\<lambda>(key, buffer). fb_events buffer 12 = [] \<and> fb_events buffer 30 = [J_Null]) (finalized_buffers sc')"
    by (auto simp: reverted_def failing_webhook_def list_all2_Cons1 message_key_def sample_message_def fb_events_def
        or_default_def bt_get_def)
  with run sc' show ?thesis by blast
qed

section \<open>Validation at startup\<close>

text \<open>On startup the stored window is judged by the node's answer about its blocks: no task means the newest
  stored block is still canonical; otherwise the task ends at the newest stored block and starts just above
  the highest block the node agrees with, or at the oldest stored block when there is none. Nothing is
  written.\<close>

theorem startup_validation:
  assumes node: "rc_provider c = Some fetch" "fetch (wnd_block_numbers (rc_window c)) w = (Inr bs, w')"
    and order: "answers_in_order (rc_provider c)"
    and window: "wnd_sorted (rc_window c)" "wnd_get (rc_window c) (- 1) = None"
    and latest: "wnd_latest_block (rc_window c) = Some latest"
  shows "\<exists>found. validate_on_startup (c, w) = (Inr found, (c, w')) \<and>
    (found = None \<longleftrightarrow> fork_match (rc_window c) (map number_hash bs) latest) \<and>
    (\<forall>t. found = Some t \<longrightarrow> rt_network t = rc_network c \<and> rt_detection_point t = latest \<and>
       rt_fork_point t \<le> latest \<and>
       (\<forall>b. fork_match (rc_window c) (map number_hash bs) b \<longrightarrow> b < rt_fork_point t) \<and>
       (if \<exists>b. fork_match (rc_window c) (map number_hash bs) b
        then fork_match (rc_window c) (map number_hash bs) (rt_fork_point t - 1)
        else wnd_oldest_block (rc_window c) = Some (rt_fork_point t)))"
proof -
  let ?hs = "map number_hash bs"
  let ?find = "wnd_find_fork_point (rc_window c) ?hs"
  have ne: "wnd_block_numbers (rc_window c) \<noteq> []" using latest by (auto simp: wnd_latest_block_eq split: if_splits)
  then have oldest: "wnd_oldest_block (rc_window c) = Some (hd (wnd_block_numbers (rc_window c)))"
    by (simp add: wnd_oldest_block_eq)
  define found where "found = (case ?find of
      Some last_match \<Rightarrow> if latest \<le> last_match then None else Some (make_task c (last_match + 1) latest [])
    | None \<Rightarrow> Some (make_task c (hd (wnd_block_numbers (rc_window c))) latest []))"
  have run: "validate_on_startup (c, w) = (Inr found, (c, w'))"
    using node ne latest oldest
    by (simp add: validate_on_startup_def ask_node_def outside_def with_context_def io_map_err_def io_bind_def found_def
        split: option.split)
  have sorted: "sorted_wrt (<) (map fst ?hs)"
    using order node wnd_block_numbers_sorted [OF window(1)] by (auto simp: answers_in_order_def number_hash_def comp_def)
  have top: "b \<le> latest" if "fork_match (rc_window c) ?hs b" for b
    using wnd_latest_greatest [OF window(1) latest] that by (auto simp: fork_match_def)
  have facts: "fork_facts (rc_window c) ?hs (case ?find of Some b \<Rightarrow> b + 1 | None \<Rightarrow> hd (wnd_block_numbers (rc_window c)))"
    by (rule fork_point_facts [OF sorted window(2) ne refl])
  have "found = None \<longleftrightarrow> fork_match (rc_window c) ?hs latest"
  proof (cases ?find)
    case None
    then show ?thesis using wnd_find_fork_point_None [of "rc_window c" ?hs] by (simp add: found_def)
  next
    case (Some b)
    note match = wnd_find_fork_point_Some [OF sorted Some]
    from top [OF match(1)] match have "latest \<le> b \<longleftrightarrow> fork_match (rc_window c) ?hs latest"
      by (metis antisym)
    then show ?thesis by (simp add: found_def Some)
  qed
  moreover have "rt_network t = rc_network c \<and> rt_detection_point t = latest \<and> rt_fork_point t \<le> latest \<and>
      fork_facts (rc_window c) ?hs (rt_fork_point t)" if "found = Some t" for t
  proof (cases ?find)
    case None
    with that facts wnd_oldest_least [OF window(1) oldest] wnd_latest_greatest [OF window(1) latest]
    show ?thesis by (auto simp: found_def make_task_def)
  next
    case (Some b)
    with that have "b < latest" by (auto simp: found_def split: if_splits)
    then have "b + 1 \<le> latest" by (rule inc_le)
    moreover from that Some have "t = make_task c (b + 1) latest []" by (simp add: found_def split: if_splits)
    ultimately show ?thesis using Some facts by (simp add: make_task_def)
  qed
  ultimately show ?thesis using run by (simp add: fork_facts_def)
qed

theorem startup_validation_witness:
  "\<exists>t. validate_on_startup (toy_coordinator forked_chain, ()) = (Inr (Some t), (toy_coordinator forked_chain, ())) \<and>
     rt_detection_point t = 11 \<and> rt_fork_point t \<le> 11"
proof -
  let ?c = "toy_coordinator forked_chain :: unit reorg_coordinator"
  have win: "rc_window ?c = sample_window" by (simp add: toy_coordinator_def)
  have node: "rc_provider ?c = Some (\<lambda>ns w. (Inr (filter (\<lambda>b. rb_number b \<in> set ns) forked_chain), w))"
    by (simp add: toy_coordinator_def)
  have ans: "(\<lambda>ns w. (Inr (filter (\<lambda>b. rb_number b \<in> set ns) forked_chain), w)) (wnd_block_numbers (rc_window ?c)) () =
      (Inr forked_chain, ())"
    unfolding win forked_numbers by (simp add: forked_chain_def)
  have stored: "wnd_sorted (rc_window ?c)" "wnd_get (rc_window ?c) (- 1) = None"
    "wnd_latest_block (rc_window ?c) = Some 11"
    using sample_window_chain by (simp_all add: win chain_window_def wnd_latest_block_eq forked_numbers)
  have "\<not> fork_match (rc_window ?c) (map number_hash forked_chain) 11"
    unfolding win by (auto simp: fork_match_def sample_window_chain forked_chain_def number_hash_def)
  with startup_validation [OF node ans forked_order stored] show ?thesis
    by (metis option.exhaust)
qed

section \<open>A block of a height already stored\<close>

lemma accept_block_stores:
  assumes "accept_block E n h p (c, w) = (Inr found, (c', w'))"
  shows "found = None \<and> rc_window c' = wnd_insert (rc_window c) n h p"
proof -
  have "window_sat (\<lambda>win. win = wnd_insert (rc_window c) n h p) (snd (accept_block E n h p (c, w)))"
    by (rule accept_block_window) simp
  with assms accept_block_None [of E n h p "(c, w)"] show ?thesis by (cases found) (auto simp: window_sat_def)
qed

text \<open>C38: A block that replaces the stored block of its own height, with the same parent, is accepted like a new
  one: no reorg is reported, the stored hash is overwritten, and the successor of the replacement then extends
  the window, so the events indexed from the replaced block are never reverted.\<close>

theorem same_height_block_accepted:
  assumes "wnd_ok (rc_window c)" and "wnd_get (rc_window c) n = Some (h0, p)" and "h \<noteq> h0"
    and "wnd_validate_parent (rc_window c) n p = Valid" and "n + 1 \<noteq> 0"
    and "on_new_block E n h p (c, w) = (Inr found, (c', w'))"
  shows "found = None \<and> wnd_get (rc_window c') n = Some (h, p) \<and>
    wnd_validate_parent (rc_window c') (n + 1) h = Valid"
proof -
  have "accept_block E n h p (c, w) = (Inr found, (c', w'))"
    using assms(4,6) by (simp add: on_new_block_def)
  from accept_block_stores [OF this] have f: "found = None" and win: "rc_window c' = wnd_insert (rc_window c) n h p"
    by auto
  have get: "wnd_get (rc_window c') n = Some (h, p)"
    using wnd_get_insert_same [OF assms(1)] assms(2) by (simp add: win)
  moreover have "wnd_validate_parent (rc_window c') (n + 1) h = Valid"
    by (rule validate_stored [OF assms(5)]) (use get in simp)
  ultimately show ?thesis using f by simp
qed

theorem same_height_block_accepted_witness:
  "\<exists>c'. on_new_block toy_env 11 999 100 (toy_coordinator [], ()) = (Inr None, (c', ())) \<and>
     wnd_get (rc_window c') 11 = Some (999, 100) \<and> wnd_validate_parent (rc_window c') 12 999 = Valid"
proof -
  let ?c = "toy_coordinator [] :: unit reorg_coordinator"
  let ?win = "wnd_insert sample_window 11 999 100"
  have ok: "wnd_ok (rc_window ?c)"
    by (simp add: toy_fields wnd_ok_def sample_window_def bt_invar_def wnd_sorted_def wnd_len_def)
  have get: "wnd_get (rc_window ?c) 11 = Some (110, 100)"
    by (simp add: toy_fields sample_window_chain)
  have valid: "wnd_validate_parent (rc_window ?c) 11 100 = Valid"
    by (simp add: toy_fields wnd_validate_parent_def checked_sub_def sample_window_def bt_get_def)
  have run: "on_new_block toy_env 11 999 100 (?c, ()) =
      (Inr None, (?c\<lparr>rc_window := ?win, rc_blocks_since_flush := 1, rc_streams_clients := []\<rparr>, ()))"
    using toy_persist [where n = 11 and h = 999 and p = 100 and chain = "[]" and win = ?win and w = "()"] valid
    by (simp add: on_new_block_def toy_fields accept_block_def io_then_Inr flush_finalized_buffers_def)
  from same_height_block_accepted [OF ok get _ valid _ run] run show ?thesis by auto
qed

section \<open>An interrupted ClickHouse rewind\<close>

definition rewound_row_sql :: "string \<Rightarrow> string \<Rightarrow> u64 \<Rightarrow> string \<Rightarrow> string" where
  "rewound_row_sql table network b detail_key = ''INSERT INTO rindexer_internal.'' @ table @
     '' (network, detail_key, last_synced_block) VALUES ('' @ squoted (ch_escape network) @ '', '' @
     squoted (ch_escape detail_key) @ '', '' @ show_word b @ '')''"

lemma rewind_checkpoint_run:
  assumes "ch_query_detail_keys c (''SELECT detail_key FROM rindexer_internal.'' @ table @
        '' FINAL WHERE network = '' @ squoted (ch_escape network)) w = (Inr ks, w)"
    and "ch_execute c (''ALTER TABLE rindexer_internal.'' @ table @
        '' DELETE WHERE network = '' @ squoted (ch_escape network) @ '' SETTINGS mutations_sync = 1'') w = (Inr (), v)"
  shows "ch_rewind_checkpoint c network b table w = io_for (\<lambda>k. ch_execute c (rewound_row_sql table network b k)) ks v"
  using assms by (simp add: ch_rewind_checkpoint_def Let_def io_bind_def io_then_def rewound_row_sql_def)

lemma io_for_single_fails: "io_for f [x] w = (Inl e, w') \<Longrightarrow> f x w = (Inl e, w')"
  by (auto simp: io_then_def io_bind_def split: prod.splits sum.splits)


text \<open>A checkpoint table whose inserts fail while the connection is down.\<close>

definition failing_ch :: "(string list \<times> nat) ch_client" where
  "failing_ch = \<lparr>ch_execute = (\<lambda>sql (ks, n). if starts_with ''ALTER'' sql then (Inr (), ([], n))
       else (Inl ''connection reset'', (ks, Suc n))),
     ch_query_detail_keys = (\<lambda>_ (ks, n). (Inr ks, (ks, n))), ch_query_count_hashes = (\<lambda>_ s. (Inr (0, []), s))\<rparr>"


end
