(* ===== verification/Filter_Correct.thy ===== *)
theory Filter_Correct
  imports Filter_Eval
begin

text \<open>
  The properties of filter evaluation: the two evaluators agree, table references need a row, the
  256-bit arithmetic is exact or an error, comparisons and logical operators obey the laws a filter
  author relies on, and the one place where they do not (signed values against negative literals).
\<close>

section \<open>The two evaluators\<close>

definition ok_part :: "'e + 'a \<Rightarrow> 'a option" where
  "ok_part r = (case r of Inl _ \<Rightarrow> None | Inr x \<Rightarrow> Some x)"

lemma ok_part_simps [simp]: "ok_part (Inl e) = None" "ok_part (Inr x) = Some x"
  by (simp_all add: ok_part_def)

lemma ok_part_bind [simp]: "ok_part (sum_bind r f) = Option.bind (ok_part r) (\<lambda>x. ok_part (f x))"
  by (cases r) simp_all

lemma ok_part_ok_or [simp]: "ok_part (ok_or e x) = x"
  by (cases x) (simp_all add: ok_or_def)

lemma arith_table_irrelevant:
  "\<not> arith_has_table_references a \<Longrightarrow>
     evaluate_arithmetic_expr_with_table L a d t = evaluate_arithmetic_expr_with_table L a d t'"
proof (induction a)
  case (Variable path)
  then show ?case by (cases "source path") (simp_all add: resolve_path_with_table_def select_data_def)
qed simp_all

lemma evaluate_without_table: "evaluate L e d = evaluate_with_table_data L e d None"
proof (induction e)
  case (Logical l operator r)
  then show ?case by (cases operator) (simp_all cong: if_cong)
qed simp_all

lemma table_irrelevant:
  "\<not> has_table_references e \<Longrightarrow> evaluate_with_table_data L e d t = evaluate_with_table_data L e d None"
proof (induction e)
  case (Condition c)
  then show ?case
    using arith_table_irrelevant [of "cond_left c" L d t None] arith_table_irrelevant [of "cond_right c" L d t None]
    by (simp add: evaluate_condition_with_table_def)
next
  case (Logical l operator r)
  then show ?case by (cases operator) (simp_all cong: if_cong)
qed simp

text \<open>C31: \<open>evaluate\<close> is \<open>evaluate_with_table_data\<close> without a row, and for an expression without \<open>@\<close>
  references the row makes no difference, errors included.\<close>

theorem evaluators_agree:
  "evaluate L e d = evaluate_with_table_data L e d None \<and>
   (\<not> has_table_references e \<longrightarrow> evaluate_with_table_data L e d t = evaluate L e d)"
  using evaluate_without_table table_irrelevant by metis

definition toy_dec :: "string \<Rightarrow> string + u256" where
  "toy_dec s = (if s \<noteq> [] \<and> list_all is_ascii_digit s \<and> read_nat s < 2 ^ 256
                then Inr (of_nat (read_nat s)) else Inl ''invalid digit'')"

text \<open>A library whose integer parser reads exactly the unsigned decimal numerals below \<open>2 ^ 256\<close>.\<close>

definition toy_lib :: "int filter_lib" where
  "toy_lib = \<lparr>u256_from_dec = toy_dec, u256_from_hex = (\<lambda>_. Inl ''invalid digit''),
     i256_from_dec = (\<lambda>s. case strip_prefix ''-'' s of
                        Some r \<Rightarrow> (case toy_dec r of Inl e \<Rightarrow> Inl e | Inr n \<Rightarrow> Inr (- n))
                      | None \<Rightarrow> toy_dec s),
     decimal_from = (\<lambda>_. Inl ''invalid digit''), json_to_string = (\<lambda>_. []),
     json_from_str = (\<lambda>_. Inl ''unsupported''), json_eq = (\<lambda>_ _. False), debug_accessor = (\<lambda>_. []),
     debug_json = (\<lambda>_. []), debug_literal = (\<lambda>_. [])\<rparr>"

lemmas toy_simps = toy_lib_def toy_dec_def string_to_u256_def string_to_i256_def trim_def is_space_def
  strip_hex_def strip_prefix_def starts_with_def char_in_def is_ascii_digit_def read_nat_def
  digit_value_def map_err_def

definition value_above :: "string \<Rightarrow> expression" where
  "value_above n = Condition \<lparr>cond_left = Variable (Simple ''value'' From_Event), cond_operator = Cmp_Gt,
     cond_right = Literal (Lit_Number n)\<rparr>"

definition value_event :: "string \<Rightarrow> json" where
  "value_event s = J_Object [(''value'', J_String s)]"

lemmas eval_simps = value_above_def value_event_def evaluate_condition_with_table_def
  resolve_path_with_table_def select_data_def ok_or_def resolved_value_def compare_arith_def

theorem evaluators_agree_witness:
  "evaluate_with_table_data toy_lib (value_above ''7'') (value_event ''10'') (Some J_Null) = Inr True"
proof -
  have "evaluate toy_lib (value_above ''7'') (value_event ''10'') = Inr True"
    by (simp add: eval_simps toy_simps)
  with evaluators_agree [of toy_lib "value_above ''7''" "value_event ''10''" "Some J_Null"]
  show ?thesis by (simp add: value_above_def)
qed

section \<open>References to a missing row\<close>

lemma table_reference_needs_row:
  "arith_has_table_references a \<Longrightarrow> ok_part (evaluate_arithmetic_expr_with_table L a d None) = None"
proof (induction a)
  case (Variable path)
  then show ?case by (simp add: resolve_path_with_table_def select_data_def)
next
  case (Binary l operator r)
  then show ?case by (auto simp: bind_eq_None_conv)
qed simp

text \<open>A condition about the current row never holds, and never fails to hold, when there is no row: its
  evaluation is an error, whichever side of it and however deep the \<open>@\<close> reference is.\<close>

theorem missing_row_is_an_error:
  assumes "has_table_references (Condition c)"
  shows "\<exists>err. evaluate_with_table_data L (Condition c) d None = Inl err"
proof -
  have "ok_part (evaluate_condition_with_table L c d None) = None"
    using assms table_reference_needs_row [of "cond_left c" L d] table_reference_needs_row [of "cond_right c" L d]
    by (auto simp: evaluate_condition_with_table_def bind_eq_None_conv)
  then show ?thesis by (cases "evaluate_condition_with_table L c d None") simp_all
qed

theorem missing_row_is_an_error_witness:
  "\<exists>err. evaluate_with_table_data toy_lib (Condition \<lparr>cond_left = Literal (Lit_Number ''1''),
     cond_operator = Cmp_Lt, cond_right = Variable (Simple ''supply'' From_Table)\<rparr>) (value_event ''10'') None = Inl err"
  by (rule missing_row_is_an_error) simp

section \<open>Arithmetic\<close>

text \<open>The value of an expression in the natural numbers, where subtraction below zero, division by zero
  and results of \<open>2 ^ 256\<close> or more have no value.\<close>

fun nat_operator :: "arithmetic_operator \<Rightarrow> nat \<Rightarrow> nat \<Rightarrow> nat option" where
  "nat_operator Ar_Add a b = Some (a + b)"
| "nat_operator Ar_Subtract a b = (if b \<le> a then Some (a - b) else None)"
| "nat_operator Ar_Multiply a b = Some (a * b)"
| "nat_operator Ar_Divide a b = (if b = 0 then None else Some (a div b))"
| "nat_operator Ar_Power a b = Some (a ^ b)"

definition below_2_256 :: "nat \<Rightarrow> nat option" where
  "below_2_256 n = (if n < 2 ^ 256 then Some n else None)"

fun number_of :: "arithmetic_value \<Rightarrow> nat option" where
  "number_of (Number n) = Some (unat n)"
| "number_of (Other _ _) = None"

fun exact_value ::
  "('d, 'z) filter_lib_scheme \<Rightarrow> arithmetic_expr \<Rightarrow> json \<Rightarrow> json option \<Rightarrow> nat option" where
  "exact_value L (Binary l operator r) d t =
     Option.bind (exact_value L l d t) (\<lambda>a. Option.bind (exact_value L r d t) (\<lambda>b.
     Option.bind (nat_operator operator a b) below_2_256))"
| "exact_value L leaf d t = Option.bind (ok_part (evaluate_arithmetic_expr_with_table L leaf d t)) number_of"

lemma apply_operator_exact:
  "map_option unat (ok_part (apply_operator operator l r)) =
     Option.bind (nat_operator operator (unat l) (unat r)) below_2_256"
proof (cases operator)
  case Ar_Add
  then show ?thesis
    by (auto simp: below_2_256_def checked_add_def unat_word_ariths)
next
  case Ar_Subtract
  moreover have "unat l - unat r < 2 ^ 256" using unsigned_less [of l, where 'a = nat] by simp
  ultimately show ?thesis
    by (auto simp: below_2_256_def checked_sub_def unat_sub word_le_nat_alt)
next
  case Ar_Multiply
  then show ?thesis
    by (auto simp: below_2_256_def checked_mul_def unat_word_ariths)
next
  case Ar_Divide
  moreover have "unat l div unat r < 2 ^ 256"
    by (rule le_less_trans [OF div_le_dividend]) (use unsigned_less [of l, where 'a = nat] in simp)
  ultimately show ?thesis
    by (auto simp: below_2_256_def checked_div_def unat_div unat_eq_zero)
next
  case Ar_Power
  then show ?thesis
    by (auto simp: below_2_256_def checked_pow_def unat_of_nat simp del: of_nat_power)
qed


section \<open>Logic\<close>

text \<open>Negation is classical on results and transparent to errors: double negation cancels and De Morgan's
  laws hold for the short-circuiting connectives, whichever operand fails.\<close>

theorem negation_laws:
  "evaluate_with_table_data L (Not_Expr (Not_Expr e)) d t = evaluate_with_table_data L e d t \<and>
   evaluate_with_table_data L (Not_Expr (Logical l Log_And r)) d t =
     evaluate_with_table_data L (Logical (Not_Expr l) Log_Or (Not_Expr r)) d t \<and>
   evaluate_with_table_data L (Not_Expr (Logical l Log_Or r)) d t =
     evaluate_with_table_data L (Logical (Not_Expr l) Log_And (Not_Expr r)) d t"
  by (cases "evaluate_with_table_data L e d t"; cases "evaluate_with_table_data L l d t";
      cases "evaluate_with_table_data L r d t"; simp)

fun negate_operator :: "comparison_operator \<Rightarrow> comparison_operator" where
  "negate_operator Cmp_Eq = Cmp_Ne"
| "negate_operator Cmp_Ne = Cmp_Eq"
| "negate_operator Cmp_Gt = Cmp_Lte"
| "negate_operator Cmp_Lte = Cmp_Gt"
| "negate_operator Cmp_Gte = Cmp_Lt"
| "negate_operator Cmp_Lt = Cmp_Gte"

lemma compare_ordered_negate: "compare_ordered_values l (negate_operator operator) r = (\<not> compare_ordered_values l operator r)"
  by (cases operator) auto

lemma ok_part_eq_or_ne:
  "ok_part (eq_or_ne operator m b) =
     (if operator = Cmp_Eq then Some b else if operator = Cmp_Ne then Some (\<not> b) else None)"
  by (cases operator) (simp_all add: eq_or_ne_def)

lemma map_option_bind_Not: "map_option Not (Option.bind x f) = Option.bind x (\<lambda>y. map_option Not (f y))"
  by (cases x) simp_all

lemma compare_array_negate:
  "ok_part (compare_array L s (negate_operator operator) lit) = map_option Not (ok_part (compare_array L s operator lit))"
  by (cases operator)
    (auto simp: compare_array_def map_option_bind_Not ok_part_eq_or_ne Let_def intro!: Option.bind_cong)

lemma compare_address_negate:
  "ok_part (compare_address L s (negate_operator operator) lit) = map_option Not (ok_part (compare_address L s operator lit))"
  by (cases operator)
    (auto simp: compare_address_def map_option_bind_Not ok_part_eq_or_ne Let_def intro!: Option.bind_cong)

lemma compare_string_negate:
  "ok_part (compare_string L s (negate_operator operator) lit) = map_option Not (ok_part (compare_string L s operator lit))"
  by (cases operator)
    (auto simp: compare_string_def map_option_bind_Not ok_part_eq_or_ne Let_def intro!: Option.bind_cong)

lemma compare_boolean_negate:
  "ok_part (compare_boolean L s (negate_operator operator) lit) = map_option Not (ok_part (compare_boolean L s operator lit))"
  by (cases operator)
    (auto simp: compare_boolean_def map_option_bind_Not ok_part_eq_or_ne Let_def intro!: Option.bind_cong)

lemma compare_u256_negate:
  "ok_part (compare_u256 L s (negate_operator operator) lit) = map_option Not (ok_part (compare_u256 L s operator lit))"
  by (simp add: compare_u256_def map_option_bind_Not compare_ordered_negate)

lemma compare_i256_negate:
  "ok_part (compare_i256 L s (negate_operator operator) lit) = map_option Not (ok_part (compare_i256 L s operator lit))"
  by (simp add: compare_i256_def map_option_bind_Not compare_ordered_negate)

lemma compare_fixed_point_negate:
  "ok_part (compare_fixed_point L s (negate_operator operator) lit) = map_option Not (ok_part (compare_fixed_point L s operator lit))"
  by (simp add: compare_fixed_point_def map_option_bind_Not compare_ordered_negate)

lemmas compare_negates = compare_array_negate compare_address_negate compare_string_negate
  compare_boolean_negate compare_u256_negate compare_i256_negate compare_fixed_point_negate

lemma compare_final_negate:
  "ok_part (compare_final_values L k s (negate_operator operator) lit) =
     map_option Not (ok_part (compare_final_values L k s operator lit))"
  unfolding compare_final_values_def Let_def by (simp add: compare_negates)

text \<open>Every comparison operator has its negation: for all six operators and all kinds of values, the
  condition with the opposite operator yields the opposite result, and one evaluates exactly when the
  other does.\<close>

theorem comparison_negation:
  "ok_part (evaluate_with_table_data L (Condition (c\<lparr>cond_operator := negate_operator (cond_operator c)\<rparr>)) d t) =
   ok_part (evaluate_with_table_data L (Not_Expr (Condition c)) d t)"
proof -
  have "ok_part (compare_arith L (negate_operator operator) x y) = map_option Not (ok_part (compare_arith L operator x y))"
    for operator x y
    by (cases x; cases y) (simp_all add: compare_arith_def compare_final_negate compare_ordered_negate)
  then have cond: "ok_part (evaluate_condition_with_table L (c\<lparr>cond_operator := negate_operator (cond_operator c)\<rparr>) d t) =
      map_option Not (ok_part (evaluate_condition_with_table L c d t))"
    by (simp add: evaluate_condition_with_table_def map_option_bind_Not)
  then show ?thesis
    by (cases "evaluate_condition_with_table L c d t") simp_all
qed

section \<open>Signed values against negative literals\<close>

text \<open>A non-negative value compared with a negative literal is an evaluation error, not a result: the value
  parses as an unsigned number, which routes the comparison to unsigned parsing of the literal. So
  \<open>$tick > -100\<close> fails for every event whose \<open>tick\<close> is not negative, although it is true of them.\<close>

theorem negative_literal_needs_negative_value:
  assumes no_sign: "\<And>s. ok_part (u256_from_dec L (CHR ''-'' # s)) = None"
    and number: "string_to_u256 L v = Inr n"
    and literal: "list_all is_ascii_digit digits" and ne: "digits \<noteq> []"
    and signed: "string_to_i256 L v = Inr a" "string_to_i256 L (CHR ''-'' # digits) = Inr b" "sint b < sint a"
    and shown: "string_to_u256 L (show_word n) = Inr n"
  shows "(\<exists>msg. evaluate L (value_above (CHR ''-'' # digits)) (value_event v) = Inl (ParseError msg)) \<and>
    compare_final_values L ''int256'' v Cmp_Gt (Lit_Number (CHR ''-'' # digits)) = Inr True"
proof -
  have space: "\<not> is_space c" if "is_ascii_digit c \<or> c = CHR ''-''" for c
    using that by (auto simp: is_space_def is_ascii_digit_def char_in_def)
  have "\<not> is_space (last (CHR ''-'' # digits))"
    using literal ne last_in_set [of digits] by (intro space) (auto simp: list_all_iff)
  then have "dropWhile is_space (rev (CHR ''-'' # digits)) = rev (CHR ''-'' # digits)"
    by (cases digits rule: rev_cases) (simp_all add: ne)
  moreover have "dropWhile is_space (CHR ''-'' # digits) = CHR ''-'' # digits"
    by (simp add: space)
  ultimately have trimmed: "trim (CHR ''-'' # digits) = CHR ''-'' # digits"
    by (simp add: trim_def)
  obtain e where neg: "string_to_u256 L (CHR ''-'' # digits) = Inl e"
    using no_sign [of digits] trimmed
    by (cases "u256_from_dec L (CHR ''-'' # digits)")
      (simp_all add: string_to_u256_def strip_hex_def strip_prefix_def starts_with_def map_err_def)
  have kind: "to_lowercase ''uint256'' = ''uint256''" "to_lowercase ''int256'' = ''int256''"
    by (simp_all add: to_lowercase_def to_ascii_lowercase_def char_in_def)
  have "\<exists>msg. evaluate L (value_above (CHR ''-'' # digits)) (value_event v) = Inl (ParseError msg)"
    using number neg shown kind
    by (simp add: eval_simps compare_final_values_def signed_integer_kinds_def unsigned_integer_kinds_def
        compare_u256_def parse_side_def map_err_def expect_number_def)
  moreover have "compare_final_values L ''int256'' v Cmp_Gt (Lit_Number (CHR ''-'' # digits)) = Inr True"
    using signed kind
    by (simp add: compare_final_values_def signed_integer_kinds_def compare_i256_def parse_side_def
        map_err_def expect_number_def)
  ultimately show ?thesis by blast
qed

theorem negative_literal_needs_negative_value_witness:
  "(\<exists>msg. evaluate toy_lib (value_above ''-100'') (value_event ''50'') = Inl (ParseError msg)) \<and>
   compare_final_values toy_lib ''int256'' ''50'' Cmp_Gt (Lit_Number ''-100'') = Inr True"
proof (rule negative_literal_needs_negative_value)
  show "ok_part (u256_from_dec toy_lib (CHR ''-'' # s)) = None" for s
    by (simp add: toy_simps)
  show "string_to_u256 toy_lib ''50'' = Inr 50" and "string_to_i256 toy_lib ''50'' = Inr 50"
    and "string_to_i256 toy_lib ''-100'' = Inr (- 100)"
    by (simp_all add: toy_simps)
  show "sint (- 100 :: u256) < sint (50 :: u256)" by simp
  have "show_word (50 :: u256) = ''50''" by code_simp
  then show "string_to_u256 toy_lib (show_word (50 :: u256)) = Inr 50" by (simp add: toy_simps)
qed (simp_all add: is_ascii_digit_def char_in_def)

end
