(* ===== verification/Filter_Parser.thy ===== *)
theory Filter_Parser
  imports Filter_Legacy
begin

text \<open>
  \<open>core/src/event/filter/parsing.rs\<close>: the grammar of filter expressions and of computed columns, a
  backtracking recursive descent. A reader takes the remaining input and returns what it read with the
  input left, or nothing, in which case the caller goes on from where it was: that is what \<open>alt\<close>, \<open>opt\<close>,
  \<open>peek\<close> and \<open>repeat\<close> do with the recoverable errors of this grammar, which has no other. Error texts are
  left out. A parenthesis or a negation recurses on a shorter input, so the nested readers carry a fuel that
  starts above the length of the input (\<open>Filter_Parser_Correct\<close> shows that more makes no difference).
\<close>

section \<open>Reading\<close>

type_synonym 'a reader = "string \<Rightarrow> ('a \<times> string) option"

definition blank :: "char \<Rightarrow> bool" where
  "blank c = (c = CHR '' '' \<or> c = CHR 0x09)"

definition space0 :: "string \<Rightarrow> string" where
  "space0 s = dropWhile blank s"

definition reads :: "'a reader \<Rightarrow> ('a \<Rightarrow> 'b reader) \<Rightarrow> 'b reader" where
  "reads p f s = (case p s of None \<Rightarrow> None | Some (x, r) \<Rightarrow> f x r)"

definition reads_as :: "('a \<Rightarrow> 'b) \<Rightarrow> 'a reader \<Rightarrow> 'b reader" where
  "reads_as f p s = (case p s of None \<Rightarrow> None | Some (x, r) \<Rightarrow> Some (f x, r))"

definition or_else :: "'a reader \<Rightarrow> 'a reader \<Rightarrow> 'a reader" where
  "or_else p q s = (case p s of None \<Rightarrow> q s | Some x \<Rightarrow> Some x)"

definition spaced :: "'a reader \<Rightarrow> 'a reader" where
  "spaced p s = (case p (space0 s) of None \<Rightarrow> None | Some (x, r) \<Rightarrow> Some (x, space0 r))"

definition token_as :: "string \<Rightarrow> 'a \<Rightarrow> 'a reader" where
  "token_as t x s = (case strip_prefix t s of None \<Rightarrow> None | Some r \<Rightarrow> Some (x, r))"

definition parens :: "'a reader \<Rightarrow> 'a reader" where
  "parens p s =
     (case strip_prefix ''('' s of
        None \<Rightarrow> None
      | Some r \<Rightarrow>
          (case p (space0 r) of
             None \<Rightarrow> None
           | Some (x, r') \<Rightarrow> token_as '')'' x (space0 r')))"

text \<open>\<open>repeat(0.., p).fold\<close>: as long as \<open>p\<close> reads something; a \<open>p\<close> that succeeds on nothing is an error.\<close>

function repeat_fold :: "'b reader \<Rightarrow> ('a \<Rightarrow> 'b \<Rightarrow> 'a) \<Rightarrow> 'a \<Rightarrow> 'a reader" where
  "repeat_fold p f acc s =
     (case p s of
        None \<Rightarrow> Some (acc, s)
      | Some (x, r) \<Rightarrow> if length r < length s then repeat_fold p f (f acc x) r else None)"
  by pat_completeness auto
termination by (relation "measure (\<lambda>(p, f, acc, s). length s)") auto

declare repeat_fold.simps [simp del]

definition digit1 :: "string reader" where
  "digit1 s =
     (let ds = takeWhile is_ascii_digit s in if ds = [] then None else Some (ds, drop (length ds) s))"

definition ident_char :: "char \<Rightarrow> bool" where
  "ident_char c = (is_ascii_alphanumeric c \<or> c = CHR ''_'')"

definition ident_token :: "string reader" where
  "ident_token s =
     (case s of
        [] \<Rightarrow> None
      | c # r \<Rightarrow>
          if is_ascii_alphabetic c \<or> c = CHR ''_''
          then (let cs = takeWhile ident_char r in Some (c # cs, drop (length cs) r))
          else None)"

definition ends_at :: "string \<Rightarrow> string \<Rightarrow> bool" where
  "ends_at delimiters s = (case s of [] \<Rightarrow> True | c # _ \<Rightarrow> blank c \<or> c \<in> set delimiters)"

definition common_delimiters :: string where
  "common_delimiters = '')(,=!><&|]+-*/''"

definition is_keyword :: "string \<Rightarrow> bool" where
  "is_keyword ident = (map to_ascii_lowercase ident \<in> {''true'', ''false''})"

section \<open>Literals\<close>

definition keyword_literal :: "string \<Rightarrow> bool \<Rightarrow> literal_value reader" where
  "keyword_literal word b s =
     (case strip_prefix word s of
        None \<Rightarrow> None
      | Some r \<Rightarrow> if ends_at common_delimiters r then Some (Lit_Bool b, r) else None)"

definition parse_boolean :: "literal_value reader" where
  "parse_boolean = or_else (keyword_literal ''true'' True) (keyword_literal ''false'' False)"

definition read_sign :: "string \<Rightarrow> string \<times> string" where
  "read_sign s =
     (case s of c # r \<Rightarrow> if c = CHR ''+'' \<or> c = CHR ''-'' then ([c], r) else ([], s) | [] \<Rightarrow> ([], s))"

definition read_fraction :: "string \<Rightarrow> string \<times> string" where
  "read_fraction s =
     (case strip_prefix ''.'' s of
        None \<Rightarrow> ([], s)
      | Some r \<Rightarrow> (case digit1 r of None \<Rightarrow> ([], s) | Some (ds, r') \<Rightarrow> (CHR ''.'' # ds, r')))"

definition parse_number_or_fixed_str :: "literal_value reader" where
  "parse_number_or_fixed_str s =
     (let (sign, s1) = read_sign s in
      case digit1 s1 of
        None \<Rightarrow> None
      | Some (ds, s2) \<Rightarrow>
          (let (fraction, s3) = read_fraction s2 in
           if ends_at common_delimiters s3 then Some (Lit_Number (sign @ ds @ fraction), s3) else None))"

definition parse_hex_string :: "literal_value reader" where
  "parse_hex_string s =
     (case or_else (token_as ''0x'' ''0x'') (token_as ''0X'' ''0X'') s of
        None \<Rightarrow> None
      | Some (start, r) \<Rightarrow>
          (let hs = takeWhile is_ascii_hexdigit r; r' = drop (length hs) r in
           if hs \<noteq> [] \<and> ends_at common_delimiters r' then Some (Lit_Str (start @ hs), r') else None))"

text \<open>The content is the slice between the quotes, escape sequences and all.\<close>

fun quoted_content :: "char \<Rightarrow> string \<Rightarrow> string \<times> string" where
  "quoted_content q [] = ([], [])"
| "quoted_content q [c] = (if c = q \<or> c = CHR 0x5C then ([], [c]) else ([c], []))"
| "quoted_content q (c # d # s) =
     (if c = CHR 0x5C then
        (if d = q \<or> d = CHR 0x5C then (let (t, r) = quoted_content q s in (c # d # t, r))
         else ([], c # d # s))
      else if c = q then ([], c # d # s)
      else (let (t, r) = quoted_content q (d # s) in (c # t, r)))"

definition parse_quoted_string :: "literal_value reader" where
  "parse_quoted_string s =
     (case s of
        [] \<Rightarrow> None
      | open_quote # r \<Rightarrow>
          if open_quote = CHR 0x27 \<or> open_quote = CHR 0x22
          then (let (content, r') = quoted_content open_quote r
                in token_as [open_quote] (Lit_Str content) r')
          else None)"

definition parse_numeric_or_quoted_literal :: "literal_value reader" where
  "parse_numeric_or_quoted_literal =
     spaced (or_else parse_quoted_string (or_else parse_boolean
       (or_else parse_hex_string parse_number_or_fixed_str)))"

section \<open>Variables\<close>

definition parse_index :: "accessor reader" where
  "parse_index s =
     (case strip_prefix ''['' s of
        None \<Rightarrow> None
      | Some r \<Rightarrow>
          (case digit1 r of
             None \<Rightarrow> None
           | Some (ds, r') \<Rightarrow>
               if read_nat ds < 2 ^ 64 then token_as '']'' (Acc_Index (read_nat ds)) r' else None))"

definition parse_key :: "accessor reader" where
  "parse_key s =
     (case strip_prefix ''.'' s of
        None \<Rightarrow> None
      | Some r \<Rightarrow>
          (case or_else ident_token digit1 r of
             None \<Rightarrow> None
           | Some (key, r') \<Rightarrow> if ends_at ''[.=!><)('' r' then Some (Acc_Key key, r') else None))"

definition parse_accessor :: "accessor reader" where
  "parse_accessor = or_else parse_index parse_key"

definition read_source :: "string \<Rightarrow> variable_source \<times> string" where
  "read_source s =
     (case strip_prefix ''@'' s of
        Some r \<Rightarrow> (From_Table, r)
      | None \<Rightarrow> (case strip_prefix ''$'' s of Some r \<Rightarrow> (From_Event, r) | None \<Rightarrow> (From_Event, s)))"

definition variable_name :: "(string \<Rightarrow> bool) \<Rightarrow> (string \<times> variable_source) reader" where
  "variable_name number_ends s =
     (let (src, s1) = read_source s in
      case or_else ident_token
             (\<lambda>s. case digit1 s of
                Some (ds, r) \<Rightarrow> if number_ends r then Some (ds, r) else None | None \<Rightarrow> None) s1 of
        Some (ident, r) \<Rightarrow> if is_keyword ident then None else Some ((ident, src), r)
      | None \<Rightarrow> None)"

definition parse_base_variable_name :: "(string \<times> variable_source) reader" where
  "parse_base_variable_name =
     variable_name (\<lambda>r. ends_at ''[.><+-*/)'' r \<or> starts_with ''=='' r \<or> starts_with ''!='' r)"

definition parse_base_variable_name_with_dollar :: "(string \<times> variable_source) reader" where
  "parse_base_variable_name_with_dollar = variable_name (ends_at ''[.+-*/)'')"

definition with_accessors :: "(string \<times> variable_source) reader \<Rightarrow> condition_left reader" where
  "with_accessors base =
     reads base (\<lambda>(name, src).
       reads_as (\<lambda>accs. if accs = [] then Simple name src
                        else Path \<lparr>vp_base = name, vp_accessors = accs, vp_source = src\<rparr>)
         (repeat_fold parse_accessor (\<lambda>accs acc. accs @ [acc]) []))"

definition parse_condition_lhs :: "condition_left reader" where
  "parse_condition_lhs = with_accessors parse_base_variable_name"

definition parse_condition_lhs_with_dollar :: "condition_left reader" where
  "parse_condition_lhs_with_dollar = with_accessors parse_base_variable_name_with_dollar"

section \<open>Operators\<close>

definition parse_comparison_operator :: "comparison_operator reader" where
  "parse_comparison_operator =
     spaced (or_else (token_as ''>='' Cmp_Gte) (or_else (token_as ''<='' Cmp_Lte)
       (or_else (token_as ''=='' Cmp_Eq) (or_else (token_as ''!='' Cmp_Ne)
         (or_else (token_as ''>'' Cmp_Gt) (token_as ''<'' Cmp_Lt))))))"

definition parse_additive_operator :: "arithmetic_operator reader" where
  "parse_additive_operator = spaced (or_else (token_as ''+'' Ar_Add) (token_as ''-'' Ar_Subtract))"

definition parse_multiplicative_operator :: "arithmetic_operator reader" where
  "parse_multiplicative_operator = spaced (or_else (token_as ''*'' Ar_Multiply) (token_as ''/'' Ar_Divide))"

definition parse_power_operator :: "arithmetic_operator reader" where
  "parse_power_operator = spaced (token_as ''^'' Ar_Power)"

definition parse_and_operator :: "logical_operator reader" where
  "parse_and_operator = spaced (token_as ''&&'' Log_And)"

definition parse_or_operator :: "logical_operator reader" where
  "parse_or_operator = spaced (token_as ''||'' Log_Or)"

text \<open>One precedence level: an operand, then operators of the level with operands, folded to the left.\<close>

definition binary_level :: "('e \<Rightarrow> 'o \<Rightarrow> 'e \<Rightarrow> 'e) \<Rightarrow> 'o reader \<Rightarrow> 'e reader \<Rightarrow> 'e reader" where
  "binary_level mk operator operand =
     reads operand (repeat_fold (reads operator (\<lambda>op. reads_as (Pair op) operand)) (\<lambda>acc (op, right). mk acc op right))"

section \<open>Arithmetic\<close>

definition parse_power_expr :: "arithmetic_expr reader \<Rightarrow> arithmetic_expr reader" where
  "parse_power_expr primary = binary_level Binary parse_power_operator primary"

definition parse_multiplicative_expr :: "arithmetic_expr reader \<Rightarrow> arithmetic_expr reader" where
  "parse_multiplicative_expr primary =
     binary_level Binary parse_multiplicative_operator (parse_power_expr primary)"

definition parse_additive_expr :: "arithmetic_expr reader \<Rightarrow> arithmetic_expr reader" where
  "parse_additive_expr primary = binary_level Binary parse_additive_operator (parse_multiplicative_expr primary)"

fun arithmetic_primary :: "condition_left reader \<Rightarrow> nat \<Rightarrow> arithmetic_expr reader" where
  "arithmetic_primary lhs 0 = (\<lambda>s. None)"
| "arithmetic_primary lhs (Suc n) =
     spaced (or_else (parens (parse_additive_expr (arithmetic_primary lhs n)))
       (or_else (reads_as Literal parse_numeric_or_quoted_literal) (reads_as Variable lhs)))"

definition parse_arithmetic_primary :: "nat \<Rightarrow> arithmetic_expr reader" where
  "parse_arithmetic_primary = arithmetic_primary parse_condition_lhs"

definition parse_arithmetic_expr :: "arithmetic_expr reader" where
  "parse_arithmetic_expr s = parse_additive_expr (parse_arithmetic_primary (Suc (length s))) s"

definition parse_arithmetic_primary_with_dollar :: "nat \<Rightarrow> arithmetic_expr reader" where
  "parse_arithmetic_primary_with_dollar = arithmetic_primary parse_condition_lhs_with_dollar"

definition parse_arithmetic_expr_with_dollar :: "arithmetic_expr reader" where
  "parse_arithmetic_expr_with_dollar s =
     parse_additive_expr (parse_arithmetic_primary_with_dollar (Suc (length s))) s"

definition to_the_end :: "'a reader \<Rightarrow> string \<Rightarrow> 'a option" where
  "to_the_end p s = (case p s of Some (x, []) \<Rightarrow> Some x | _ \<Rightarrow> None)"

definition parse_arithmetic_expression :: "string \<Rightarrow> arithmetic_expr option" where
  "parse_arithmetic_expression = to_the_end parse_arithmetic_expr_with_dollar"

section \<open>Conditions and expressions\<close>

definition parse_condition :: "expression reader" where
  "parse_condition =
     reads parse_arithmetic_expr (\<lambda>l. reads parse_comparison_operator (\<lambda>op.
       reads_as (\<lambda>r. Condition \<lparr>cond_left = l, cond_operator = op, cond_right = r\<rparr>) parse_arithmetic_expr))"

definition parse_and_expression :: "expression reader \<Rightarrow> expression reader" where
  "parse_and_expression trm = binary_level Logical parse_and_operator trm"

definition parse_or_expression :: "expression reader \<Rightarrow> expression reader" where
  "parse_or_expression trm = binary_level Logical parse_or_operator (parse_and_expression trm)"

definition parse_expression :: "expression reader \<Rightarrow> expression reader" where
  "parse_expression trm = spaced (parse_or_expression trm)"

fun parse_term :: "nat \<Rightarrow> expression reader" where
  "parse_term 0 = (\<lambda>s. None)"
| "parse_term (Suc n) =
     spaced (or_else
       (\<lambda>s. case strip_prefix ''!'' s of
          Some r \<Rightarrow> reads_as Not_Expr (parse_term n) (space0 r) | None \<Rightarrow> None)
       (or_else (parens (parse_expression (parse_term n))) parse_condition))"

definition parse :: "string \<Rightarrow> expression option" where
  "parse s = to_the_end (parse_expression (parse_term (Suc (length s)))) s"

text \<open>The parser the filter module calls.\<close>

definition filter_parse :: parser where
  "filter_parse s = (case parse s of Some e \<Rightarrow> Inr e | None \<Rightarrow> Inl ''parse error'')"

end
