(* ===== verification/Filter_Parser_Correct.thy ===== *)
theory Filter_Parser_Correct
  imports Filter_Parser
begin

text \<open>
  The parser reads what a printer with the usual precedences writes: \<open>||\<close> binds weaker than \<open>&&\<close>, \<open>+\<close> and \<open>-\<close>
  weaker than \<open>*\<close> and \<open>/\<close>, these weaker than \<open>^\<close>, operators of one level associate to the left, and
  parentheses are written only where a reading without them would differ. The precedence climbing is
  treated once, in the locale of operator tables, for arithmetic and for logical operators.
\<close>

section \<open>Precedence climbing\<close>

fun climb :: "('e \<Rightarrow> 'o \<Rightarrow> 'e \<Rightarrow> 'e) \<Rightarrow> 'o reader list \<Rightarrow> 'e reader \<Rightarrow> 'e reader" where
  "climb mk [] prim = prim"
| "climb mk (op # ops) prim = binary_level mk op (climb mk ops prim)"

definition right_operand :: "'o reader \<Rightarrow> 'e reader \<Rightarrow> ('o \<times> 'e) reader" where
  "right_operand op operand = reads op (\<lambda>x. reads_as (Pair x) operand)"

definition fold_right_operand :: "('e \<Rightarrow> 'o \<Rightarrow> 'e \<Rightarrow> 'e) \<Rightarrow> 'e \<Rightarrow> 'o \<times> 'e \<Rightarrow> 'e" where
  "fold_right_operand mk = (\<lambda>acc (op, right). mk acc op right)"

text \<open>What the levels do once a first operand has been read.\<close>

fun conts :: "('e \<Rightarrow> 'o \<Rightarrow> 'e \<Rightarrow> 'e) \<Rightarrow> 'o reader list \<Rightarrow> 'e reader \<Rightarrow> 'e \<Rightarrow> 'e reader" where
  "conts mk [] prim e s = Some (e, s)"
| "conts mk (op # ops) prim e s =
     (case conts mk ops prim e s of
        None \<Rightarrow> None
      | Some (x, r) \<Rightarrow> repeat_fold (right_operand op (climb mk ops prim)) (fold_right_operand mk) x r)"

lemma climb_Cons: "climb mk (op # ops) prim s =
    (case climb mk ops prim s of
       None \<Rightarrow> None
     | Some (x, r) \<Rightarrow> repeat_fold (right_operand op (climb mk ops prim)) (fold_right_operand mk) x r)"
  unfolding climb.simps binary_level_def reads_def right_operand_def fold_right_operand_def by (rule refl)

lemma climb_prim: "prim s = Some (e, r) \<Longrightarrow> climb mk ops prim s = conts mk ops prim e r"
proof (induction ops)
  case (Cons op ops)
  then show ?case by (simp only: climb_Cons conts.simps)
qed simp

definition none_of :: "'o reader list \<Rightarrow> string \<Rightarrow> bool" where
  "none_of ops s = list_all (\<lambda>op. op s = None) ops"

lemma right_operand_None: "op s = None \<Longrightarrow> right_operand op p s = None"
  by (simp add: right_operand_def reads_def)

lemma conts_stop: "none_of ops s \<Longrightarrow> conts mk ops prim e s = Some (e, s)"
  by (induction ops) (auto simp: none_of_def repeat_fold.simps [of _ _ _ s] right_operand_None)

lemma conts_step:
  assumes "op s = Some (x, s1)" and "climb mk ys prim s1 = Some (y, r)" and "length r < length s"
    and "none_of ys s" and "none_of ys r"
  shows "conts mk (xs @ op # ys) prim e s = conts mk (xs @ op # ys) prim (mk e x y) r"
proof (induction xs)
  case Nil
  have "right_operand op (climb mk ys prim) s = Some ((x, y), r)"
    using assms(1,2) by (simp add: right_operand_def reads_def reads_as_def)
  with assms(3) show ?case
    by (simp add: conts_stop [OF assms(4)] conts_stop [OF assms(5)] repeat_fold.simps [of _ _ _ s] fold_right_operand_def)
qed simp

lemma repeat_fold_cong:
  assumes "\<And>t. length t \<le> length s \<Longrightarrow> p t = q t"
  shows "repeat_fold p f a s = repeat_fold q f a s"
  using assms
proof (induction p f a s rule: repeat_fold.induct)
  case (1 p f a s)
  show ?case
  proof (cases "p s")
    case None
    with 1(2) [of s] show ?thesis by (simp add: repeat_fold.simps [of _ _ _ s])
  next
    case (Some z)
    obtain x r where z: "z = (x, r)" by (rule prod.exhaust)
    have "repeat_fold p f (f a x) r = repeat_fold q f (f a x) r" if "length r < length s"
      using 1(1) [OF Some z [symmetric] that] 1(2) that by simp
    with Some z 1(2) [of s] show ?thesis by (auto simp: repeat_fold.simps [of _ _ _ s])
  qed
qed

section \<open>Operator tables\<close>

locale operator_table =
  fixes ops :: "'o reader list" and rank :: "'o \<Rightarrow> nat" and sym :: "'o \<Rightarrow> string"
  assumes reads_operator: "j < length ops \<Longrightarrow> (ops ! j) (sym x @ t) = (if j = rank x then Some (x, space0 t) else None)"
    and rank_bound: "rank x < length ops"
    and sym_starts: "space0 (CHR '' '' # sym x @ t) = sym x @ t"
begin

lemma other_ranks: "rank x < j \<Longrightarrow> none_of (drop j ops) (sym x @ t)"
  by (auto simp: none_of_def list_all_length reads_operator)

lemma operator_step:
  assumes "climb mk (drop (Suc (rank x)) ops) prim (space0 t) = Some (y, r)" and "length r \<le> length t"
    and "none_of (drop (Suc (rank x)) ops) r" and "k \<le> rank x" and "sym x \<noteq> []"
  shows "conts mk (drop k ops) prim e (sym x @ t) = conts mk (drop k ops) prim (mk e x y) r"
proof -
  let ?xs = "take (rank x - k) (drop k ops)"
  have split: "drop k ops = ?xs @ ops ! rank x # drop (Suc (rank x)) ops"
    using assms(4) rank_bound [of x] id_take_nth_drop [of "rank x - k" "drop k ops"] by simp
  from assms(2,5) have shorter: "length r < length (sym x @ t)" by (cases "sym x") auto
  have "conts mk (?xs @ ops ! rank x # drop (Suc (rank x)) ops) prim e (sym x @ t) =
      conts mk (?xs @ ops ! rank x # drop (Suc (rank x)) ops) prim (mk e x y) r"
    by (rule conts_step [OF _ assms(1) shorter])
      (use assms rank_bound other_ranks [of x "Suc (rank x)" t] in \<open>auto simp: reads_operator\<close>)
  then show ?thesis by (simp only: split [symmetric])
qed

end

fun arith_rank :: "arithmetic_operator \<Rightarrow> nat" where
  "arith_rank Ar_Add = 0"
| "arith_rank Ar_Subtract = 0"
| "arith_rank Ar_Multiply = 1"
| "arith_rank Ar_Divide = 1"
| "arith_rank Ar_Power = 2"

fun arith_sym :: "arithmetic_operator \<Rightarrow> string" where
  "arith_sym Ar_Add = ''+''"
| "arith_sym Ar_Subtract = ''-''"
| "arith_sym Ar_Multiply = ''*''"
| "arith_sym Ar_Divide = ''/''"
| "arith_sym Ar_Power = ''^''"

definition arith_ops :: "arithmetic_operator reader list" where
  "arith_ops = [parse_additive_operator, parse_multiplicative_operator, parse_power_operator]"

fun logical_rank :: "logical_operator \<Rightarrow> nat" where
  "logical_rank Log_Or = 0"
| "logical_rank Log_And = 1"

fun logical_sym :: "logical_operator \<Rightarrow> string" where
  "logical_sym Log_Or = ''||''"
| "logical_sym Log_And = ''&&''"

definition logical_ops :: "logical_operator reader list" where
  "logical_ops = [parse_or_operator, parse_and_operator]"

lemmas reader_defs = spaced_def or_else_def token_as_def strip_prefix_def starts_with_def

lemma space0_simps [simp]:
  "space0 [] = []" "space0 (c # s) = (if blank c then space0 s else c # s)"
  by (simp_all add: space0_def)

lemma blank_simps [simp]: "blank c \<longleftrightarrow> c = CHR '' '' \<or> c = CHR 0x09"
  by (simp add: blank_def)

interpretation arith: operator_table arith_ops arith_rank arith_sym
proof
  fix j x t
  assume "j < length arith_ops"
  then have "j = 0 \<or> j = 1 \<or> j = 2" by (auto simp: arith_ops_def)
  then show "(arith_ops ! j) (arith_sym x @ t) = (if j = arith_rank x then Some (x, space0 t) else None)"
    by (cases x) (auto simp: arith_ops_def parse_additive_operator_def parse_multiplicative_operator_def
        parse_power_operator_def reader_defs)
next
  fix x t
  show "arith_rank x < length arith_ops" by (cases x) (simp_all add: arith_ops_def)
  show "space0 (CHR '' '' # arith_sym x @ t) = arith_sym x @ t" by (cases x) simp_all
qed

interpretation logical: operator_table logical_ops logical_rank logical_sym
proof
  fix j x t
  assume "j < length logical_ops"
  then have "j = 0 \<or> j = 1" by (auto simp: logical_ops_def)
  then show "(logical_ops ! j) (logical_sym x @ t) = (if j = logical_rank x then Some (x, space0 t) else None)"
    by (cases x) (auto simp: logical_ops_def parse_or_operator_def parse_and_operator_def reader_defs)
next
  fix x t
  show "logical_rank x < length logical_ops" by (cases x) (simp_all add: logical_ops_def)
  show "space0 (CHR '' '' # logical_sym x @ t) = logical_sym x @ t" by (cases x) simp_all
qed

lemma parse_additive_climb: "parse_additive_expr prim = climb Binary arith_ops prim"
  by (simp add: arith_ops_def parse_additive_expr_def parse_multiplicative_expr_def parse_power_expr_def)

lemma parse_or_climb: "parse_or_expression trm = climb Logical logical_ops trm"
  by (simp add: logical_ops_def parse_or_expression_def parse_and_expression_def)

section \<open>The printer\<close>

fun show_literal :: "literal_value \<Rightarrow> string" where
  "show_literal (Lit_Bool b) = (if b then ''true'' else ''false'')"
| "show_literal (Lit_Str s) = [CHR 0x27] @ s @ [CHR 0x27]"
| "show_literal (Lit_Number s) = s"

fun show_accessor :: "accessor \<Rightarrow> string" where
  "show_accessor (Acc_Index i) = ''['' @ show_nat i @ '']''"
| "show_accessor (Acc_Key k) = ''.'' @ k"

definition show_variable :: "condition_left \<Rightarrow> string" where
  "show_variable v = (case source v of From_Event \<Rightarrow> ''$'' | From_Table \<Rightarrow> ''@'') @ base_name v @
     concat (map show_accessor (accessors v))"

fun show_arith :: "nat \<Rightarrow> arithmetic_expr \<Rightarrow> string" where
  "show_arith m (Literal l) = show_literal l"
| "show_arith m (Variable v) = show_variable v"
| "show_arith m (Binary l op r) =
     (let t = show_arith (arith_rank op) l @ '' '' @ arith_sym op @ '' '' @ show_arith (Suc (arith_rank op)) r
      in if arith_rank op < m then ''('' @ t @ '')'' else t)"

fun show_comparison :: "comparison_operator \<Rightarrow> string" where
  "show_comparison Cmp_Eq = ''==''"
| "show_comparison Cmp_Ne = ''!=''"
| "show_comparison Cmp_Gt = ''>''"
| "show_comparison Cmp_Gte = ''>=''"
| "show_comparison Cmp_Lt = ''<''"
| "show_comparison Cmp_Lte = ''<=''"

fun show_expr :: "nat \<Rightarrow> expression \<Rightarrow> string" where
  "show_expr m (Condition c) =
     show_arith 0 (cond_left c) @ '' '' @ show_comparison (cond_operator c) @ '' '' @ show_arith 0 (cond_right c)"
| "show_expr m (Not_Expr e) = ''!'' @ show_expr 2 e"
| "show_expr m (Logical l op r) =
     (let t = show_expr (logical_rank op) l @ '' '' @ logical_sym op @ '' '' @ show_expr (Suc (logical_rank op)) r
      in if logical_rank op < m then ''('' @ t @ '')'' else t)"

text \<open>The trees a text can stand for: names are identifiers other than \<open>true\<close> and \<open>false\<close>, numbers are
  decimal, string literals hold no quote or backslash, indices fit a \<open>usize\<close>.\<close>

definition name_text :: "string \<Rightarrow> bool" where
  "name_text s = (case s of [] \<Rightarrow> False
     | c # r \<Rightarrow> (is_ascii_alphabetic c \<or> c = CHR ''_'') \<and> list_all ident_char r)"

definition digits_text :: "string \<Rightarrow> bool" where
  "digits_text s = (s \<noteq> [] \<and> list_all is_ascii_digit s)"

definition number_text :: "string \<Rightarrow> bool" where
  "number_text s =
     (\<exists>sign ds fraction. s = sign @ ds @ fraction \<and> sign \<in> {[], ''+'', ''-''} \<and> digits_text ds \<and>
        (fraction = [] \<or> (\<exists>fs. fraction = CHR ''.'' # fs \<and> digits_text fs)))"

fun literal_ok :: "literal_value \<Rightarrow> bool" where
  "literal_ok (Lit_Bool b) = True"
| "literal_ok (Lit_Str s) = list_all (\<lambda>c. c \<noteq> CHR 0x27 \<and> c \<noteq> CHR 0x5C) s"
| "literal_ok (Lit_Number s) = number_text s"

fun accessor_ok :: "accessor \<Rightarrow> bool" where
  "accessor_ok (Acc_Index i) = (i < 2 ^ 64)"
| "accessor_ok (Acc_Key k) = (name_text k \<or> digits_text k)"

fun variable_ok :: "condition_left \<Rightarrow> bool" where
  "variable_ok (Simple name src) = (name_text name \<and> \<not> is_keyword name)"
| "variable_ok (Path p) =
     (name_text (vp_base p) \<and> \<not> is_keyword (vp_base p) \<and> vp_accessors p \<noteq> [] \<and> list_all accessor_ok (vp_accessors p))"

fun arith_ok :: "arithmetic_expr \<Rightarrow> bool" where
  "arith_ok (Literal l) = literal_ok l"
| "arith_ok (Variable v) = variable_ok v"
| "arith_ok (Binary l op r) = (arith_ok l \<and> arith_ok r)"

fun expr_ok :: "expression \<Rightarrow> bool" where
  "expr_ok (Condition c) = (arith_ok (cond_left c) \<and> arith_ok (cond_right c))"
| "expr_ok (Not_Expr e) = expr_ok e"
| "expr_ok (Logical l op r) = (expr_ok l \<and> expr_ok r)"

section \<open>Reading tokens\<close>

abbreviation stops :: "string \<Rightarrow> bool" where
  "stops \<equiv> ends_at '')''"

lemma ends_at_mono: "ends_at A s \<Longrightarrow> set A \<subseteq> set B \<Longrightarrow> ends_at B s"
  by (auto simp: ends_at_def split: list.splits)

lemma stops_common: "stops s \<Longrightarrow> ends_at common_delimiters s"
  by (erule ends_at_mono) (simp add: common_delimiters_def)

lemma stops_cases: "stops s \<longleftrightarrow> s = [] \<or> (\<exists>c r. s = c # r \<and> (blank c \<or> c = CHR '')''))"
  by (cases s) (auto simp: ends_at_def)

lemma takeWhile_token:
  assumes "list_all P xs" and "case s of [] \<Rightarrow> True | c # _ \<Rightarrow> \<not> P c"
  shows "takeWhile P (xs @ s) = xs"
  using assms by (induction xs) (auto split: list.splits)

lemma stops_not_ident: "stops (c # r) \<Longrightarrow> \<not> ident_char c \<and> \<not> is_ascii_digit c"
  by (auto simp: ends_at_def ident_char_def is_ascii_alphanumeric_def is_ascii_digit_def is_ascii_alphabetic_def
      char_in_def)

lemma stops_digit: "stops s \<Longrightarrow> case s of [] \<Rightarrow> True | c # _ \<Rightarrow> \<not> is_ascii_digit c"
  and stops_ident: "stops s \<Longrightarrow> case s of [] \<Rightarrow> True | c # _ \<Rightarrow> \<not> ident_char c"
  using stops_not_ident by (auto split: list.splits)

lemma digit_starts: "is_ascii_digit c \<Longrightarrow> c \<noteq> CHR '' '' \<and> c \<noteq> CHR 0x09 \<and> c \<noteq> CHR ''('' \<and> c \<noteq> CHR ''!'' \<and>
    c \<noteq> CHR ''$'' \<and> c \<noteq> CHR ''@'' \<and> c \<noteq> CHR 0x27 \<and> c \<noteq> CHR 0x22 \<and> c \<noteq> CHR ''t'' \<and> c \<noteq> CHR ''f'' \<and>
    c \<noteq> CHR ''+'' \<and> c \<noteq> CHR ''-'' \<and> c \<noteq> CHR ''x'' \<and> c \<noteq> CHR ''X''"
  by (auto simp: is_ascii_digit_def char_in_def)

lemma digit1_token:
  assumes "digits_text ds" and "case s of [] \<Rightarrow> True | c # _ \<Rightarrow> \<not> is_ascii_digit c"
  shows "digit1 (ds @ s) = Some (ds, s)"
  using assms takeWhile_token [of is_ascii_digit ds s] by (simp add: digit1_def digits_text_def)

lemma ident_token_name:
  assumes "name_text name" and "case s of [] \<Rightarrow> True | c # _ \<Rightarrow> \<not> ident_char c"
  shows "ident_token (name @ s) = Some (name, s)"
  using assms takeWhile_token [of ident_char "tl name" s]
  by (cases name) (auto simp: ident_token_def name_text_def Let_def)

lemma quoted_content_plain:
  "q \<noteq> CHR 0x5C \<Longrightarrow> list_all (\<lambda>c. c \<noteq> q \<and> c \<noteq> CHR 0x5C) s \<Longrightarrow> quoted_content q (s @ q # r) = (s, q # r)"
proof (induction q s rule: quoted_content.induct)
  case (1 q)
  then show ?case by (cases r) auto
next
  case (2 q c)
  then show ?case by (cases r) auto
next
  case (3 q c d s)
  then show ?case by auto
qed

lemma strip_prefix_Cons [simp]:
  "strip_prefix (c # p) s = (case s of [] \<Rightarrow> None | d # r \<Rightarrow> if c = d then strip_prefix p r else None)"
  "strip_prefix [] s = Some s"
  by (auto simp: strip_prefix_def starts_with_def split: list.splits)

lemma token_append [simp]: "token_as t x (t @ s) = Some (x, s)"
  by (simp add: token_as_def strip_prefix_def starts_with_def)

lemma or_else_Some: "p s = Some x \<Longrightarrow> or_else p q s = Some x"
  and or_else_None: "p s = None \<Longrightarrow> or_else p q s = q s"
  by (simp_all add: or_else_def)

lemma spaced_Some: "space0 s = t \<Longrightarrow> p t = Some (x, r) \<Longrightarrow> spaced p s = Some (x, space0 r)"
  by (simp add: spaced_def)

section \<open>Literals\<close>

lemma number_text_cases:
  assumes "number_text s"
  obtains sign ds fraction where "s = sign @ ds @ fraction" "sign \<in> {[], ''+'', ''-''}" "digits_text ds"
    "fraction = [] \<or> (\<exists>fs. fraction = CHR ''.'' # fs \<and> digits_text fs)"
  using assms unfolding number_text_def by blast

lemma number_starts: "number_text s \<Longrightarrow> \<exists>c r. s = c # r \<and> (is_ascii_digit c \<or> c = CHR ''+'' \<or> c = CHR ''-'')"
  by (erule number_text_cases) (auto simp: digits_text_def neq_Nil_conv)

lemma read_sign_token:
  assumes "sign \<in> {[], ''+'', ''-''}" and "digits_text ds"
  shows "read_sign (sign @ ds @ s) = (sign, ds @ s)"
proof -
  obtain d ds' where "ds = d # ds'" "is_ascii_digit d" using assms(2) by (cases ds) (auto simp: digits_text_def)
  then show ?thesis
    using assms(1) digit_starts [of d] by (auto simp: read_sign_def)
qed

lemma parse_number_token:
  assumes "number_text s" and "stops r"
  shows "parse_number_or_fixed_str (s @ r) = Some (Lit_Number s, r)"
proof -
  obtain sign ds fraction where s: "s = sign @ ds @ fraction" "sign \<in> {[], ''+'', ''-''}" "digits_text ds"
    and fraction: "fraction = [] \<or> (\<exists>fs. fraction = CHR ''.'' # fs \<and> digits_text fs)"
    using assms(1) by (rule number_text_cases)
  note end_digit = stops_digit [OF assms(2)]
  have dot: "\<not> is_ascii_digit (CHR ''.'')" by (simp add: is_ascii_digit_def char_in_def)
  have d: "digit1 (ds @ fraction @ r) = Some (ds, fraction @ r)"
    using s(3) by (rule digit1_token) (use fraction end_digit dot in auto)
  have "read_fraction (fraction @ r) = (fraction, r)"
  proof (cases "fraction = []")
    case True
    with assms(2) show ?thesis by (auto simp: read_fraction_def stops_cases split: list.splits)
  next
    case False
    then obtain fs where "fraction = CHR ''.'' # fs" "digits_text fs" using fraction by blast
    with digit1_token [OF _ end_digit] show ?thesis by (simp add: read_fraction_def)
  qed
  with d read_sign_token [OF s(2,3), of "fraction @ r"] stops_common [OF assms(2)] show ?thesis
    by (simp add: parse_number_or_fixed_str_def s(1))
qed

lemma quoted_None: "s = c # r \<Longrightarrow> c \<noteq> CHR 0x27 \<and> c \<noteq> CHR 0x22 \<Longrightarrow> parse_quoted_string s = None"
  by (simp add: parse_quoted_string_def)

lemma hex_None_number:
  assumes "number_text s" and "stops r"
  shows "parse_hex_string (s @ r) = None"
proof -
  obtain sign ds fraction where s: "s = sign @ ds @ fraction" "sign \<in> {[], ''+'', ''-''}" "digits_text ds"
    and fraction: "fraction = [] \<or> (\<exists>fs. fraction = CHR ''.'' # fs \<and> digits_text fs)"
    using assms(1) by (rule number_text_cases)
  obtain d ds' where ds: "ds = d # ds'" "list_all is_ascii_digit ds'"
    using s(3) by (cases ds) (auto simp: digits_text_def)
  have "d' \<noteq> CHR ''x'' \<and> d' \<noteq> CHR ''X''" if "ds' @ fraction @ r = d' # t" for d' t
    using that ds(2) fraction assms(2) digit_starts [of d']
    by (cases ds'; cases fraction) (auto simp: stops_cases)
  then have "or_else (token_as ''0x'' ''0x'') (token_as ''0X'' ''0X'') (s @ r) = None"
    using s(2) ds(1) by (auto simp: s(1) or_else_def token_as_def split: list.splits)
  then show ?thesis by (simp add: parse_hex_string_def)
qed

lemma boolean_None: "s = c # r \<Longrightarrow> c \<noteq> CHR ''t'' \<Longrightarrow> c \<noteq> CHR ''f'' \<Longrightarrow> parse_boolean s = None"
  by (simp add: parse_boolean_def or_else_def keyword_literal_def)

lemma literal_starts:
  "literal_ok l \<Longrightarrow> \<exists>c t. show_literal l = c # t \<and> \<not> blank c \<and> c \<noteq> CHR ''('' \<and> c \<noteq> CHR ''!''"
proof (cases l)
  case (Lit_Number t)
  assume "literal_ok l"
  with Lit_Number number_starts [of t] digit_starts show ?thesis by fastforce
qed auto

lemma literal_token:
  assumes "literal_ok l" and "stops r"
  shows "parse_numeric_or_quoted_literal (show_literal l @ r) = Some (l, space0 r)"
  unfolding parse_numeric_or_quoted_literal_def
proof (rule spaced_Some [of _ "show_literal l @ r"])
  show "space0 (show_literal l @ r) = show_literal l @ r"
    using literal_starts [OF assms(1)] by auto
  show "or_else parse_quoted_string (or_else parse_boolean (or_else parse_hex_string parse_number_or_fixed_str))
      (show_literal l @ r) = Some (l, r)"
  proof (cases l)
    case (Lit_Bool b)
    then show ?thesis
      using stops_common [OF assms(2)]
      by (simp add: or_else_def parse_quoted_string_def parse_boolean_def keyword_literal_def)
  next
    case (Lit_Str t)
    with assms(1) quoted_content_plain [of "CHR 0x27" t r] show ?thesis
      by (simp add: or_else_def parse_quoted_string_def token_as_def)
  next
    case (Lit_Number t)
    with assms(1) have t: "number_text t" by simp
    obtain c t' where c: "t = c # t'" "is_ascii_digit c \<or> c = CHR ''+'' \<or> c = CHR ''-''"
      using number_starts [OF t] by blast
    then have "c \<noteq> CHR 0x27 \<and> c \<noteq> CHR 0x22" "c \<noteq> CHR ''t''" "c \<noteq> CHR ''f''"
      using digit_starts [of c] by auto
    with c(1) quoted_None [of "t @ r"] boolean_None [of "t @ r"] hex_None_number [OF t assms(2)]
      parse_number_token [OF t assms(2)] show ?thesis
      by (simp add: Lit_Number or_else_def)
  qed
qed

section \<open>Variables\<close>

lemma accessor_start: "accessor_ok a \<Longrightarrow> \<exists>t. show_accessor a = CHR ''['' # t \<or> show_accessor a = CHR ''.'' # t"
  by (cases a) auto

lemma show_nat_digits_text: "digits_text (show_nat i)"
  using show_nat_digits by (auto simp: digits_text_def list_all_iff)

lemma digits_not_ident: "digits_text ds \<Longrightarrow> ident_token (ds @ s) = None"
  by (cases ds) (auto simp: digits_text_def ident_token_def is_ascii_digit_def is_ascii_alphabetic_def char_in_def)

lemma key_ends: "ends_at '')[.'' (c # r) \<Longrightarrow> \<not> ident_char c \<and> \<not> is_ascii_digit c"
  by (auto simp: ends_at_def ident_char_def is_ascii_alphanumeric_def is_ascii_digit_def is_ascii_alphabetic_def
      char_in_def)

lemma accessor_token:
  assumes "accessor_ok a" and "ends_at '')[.'' s"
  shows "parse_accessor (show_accessor a @ s) = Some (a, s)"
proof (cases a)
  case (Acc_Index i)
  have "digit1 (show_nat i @ '']'' @ s) = Some (show_nat i, '']'' @ s)"
    by (rule digit1_token [OF show_nat_digits_text]) (simp add: is_ascii_digit_def char_in_def)
  with assms(1) Acc_Index show ?thesis
    by (simp add: parse_accessor_def or_else_def parse_index_def token_as_def)
next
  case (Acc_Key k)
  have next_char: "case s of [] \<Rightarrow> True | c # _ \<Rightarrow> \<not> ident_char c" "case s of [] \<Rightarrow> True | c # _ \<Rightarrow> \<not> is_ascii_digit c"
    using assms(2) key_ends by (auto split: list.splits)
  have "or_else ident_token digit1 (k @ s) = Some (k, s)"
  proof (cases "name_text k")
    case True
    then show ?thesis by (simp add: or_else_def ident_token_name next_char)
  next
    case False
    with assms(1) Acc_Key have "digits_text k" by simp
    then show ?thesis by (simp add: or_else_def digits_not_ident digit1_token next_char)
  qed
  moreover have "ends_at ''[.=!><)('' s" using assms(2) by (rule ends_at_mono) simp
  ultimately show ?thesis
    by (simp add: Acc_Key parse_accessor_def or_else_def parse_index_def parse_key_def)
qed

lemma accessors_follow: "list_all accessor_ok accs \<Longrightarrow> stops s \<Longrightarrow> ends_at '')[.'' (concat (map show_accessor accs) @ s)"
proof (cases accs)
  case (Cons a accs')
  assume "list_all accessor_ok accs"
  with Cons accessor_start [of a] show ?thesis by (auto simp: ends_at_def)
qed (auto elim: ends_at_mono)

lemma accessors_token:
  "list_all accessor_ok accs \<Longrightarrow> stops s \<Longrightarrow>
     repeat_fold parse_accessor (\<lambda>accs acc. accs @ [acc]) done (concat (map show_accessor accs) @ s) = Some (done @ accs, s)"
proof (induction accs arbitrary: "done")
  case Nil
  then have "parse_accessor s = None"
    by (auto simp: parse_accessor_def or_else_def parse_index_def parse_key_def stops_cases)
  then show ?case by (simp add: repeat_fold.simps [of _ _ _ s])
next
  case (Cons a accs)
  let ?rest = "concat (map show_accessor accs) @ s"
  have "parse_accessor (show_accessor a @ ?rest) = Some (a, ?rest)"
    using Cons.prems accessors_follow [of accs s] by (intro accessor_token) simp_all
  moreover have "length ?rest < length (show_accessor a @ ?rest)"
    using accessor_start [of a] Cons.prems by auto
  ultimately show ?case using Cons by (simp add: repeat_fold.simps [of _ _ _ "show_accessor a @ ?rest"])
qed

lemma variable_token:
  assumes "variable_ok v" and "stops s"
  shows "with_accessors (variable_name number_ends) (show_variable v @ s) = Some (v, s)"
proof -
  have v: "name_text (base_name v)" "\<not> is_keyword (base_name v)" "list_all accessor_ok (accessors v)"
    using assms(1) by (cases v; simp)+
  let ?rest = "concat (map show_accessor (accessors v)) @ s"
  have "case ?rest of [] \<Rightarrow> True | c # _ \<Rightarrow> \<not> ident_char c"
    using accessors_follow [OF v(3) assms(2)] key_ends by (auto split: list.splits)
  from ident_token_name [OF v(1) this]
  have "variable_name number_ends (show_variable v @ s) = Some ((base_name v, source v), ?rest)"
    using v(2) by (cases "source v") (simp_all add: variable_name_def read_source_def show_variable_def or_else_def)
  with accessors_token [OF v(3) assms(2), of "[]"] assms(1) show ?thesis
    by (cases v) (auto simp: with_accessors_def reads_def reads_as_def)
qed

lemma variable_starts: "\<exists>c t. show_variable v = c # t \<and> (c = CHR ''$'' \<or> c = CHR ''@'')"
  by (cases "source v") (auto simp: show_variable_def)

lemma not_a_literal:
  assumes "s = c # t" and "c = CHR ''$'' \<or> c = CHR ''@''"
  shows "parse_numeric_or_quoted_literal s = None"
proof -
  have "takeWhile is_ascii_digit s = []" using assms by (auto simp: is_ascii_digit_def char_in_def)
  then show ?thesis
    using assms by (auto simp: parse_numeric_or_quoted_literal_def spaced_def or_else_def parse_quoted_string_def
        parse_boolean_def keyword_literal_def parse_hex_string_def token_as_def parse_number_or_fixed_str_def
        read_sign_def digit1_def)
qed

section \<open>Arithmetic\<close>

lemma show_arith_starts:
  "arith_ok e \<Longrightarrow> \<exists>c t. show_arith m e = c # t \<and> \<not> blank c \<and> c \<noteq> CHR ''!''"
proof (induction e arbitrary: m)
  case (Variable v)
  obtain c t where "show_variable v = c # t" "c = CHR ''$'' \<or> c = CHR ''@''" using variable_starts [of v] by blast
  then show ?case by auto
next
  case (Literal l)
  then show ?case using literal_starts [of l] by auto
next
  case (Binary l op r)
  then obtain c t where "show_arith (arith_rank op) l = c # t" "\<not> blank c" "c \<noteq> CHR ''!''" by force
  then show ?case by (simp add: Let_def)
qed

lemma show_arith_unspaced: "arith_ok e \<Longrightarrow> space0 (show_arith m e @ s) = show_arith m e @ s"
  using show_arith_starts [of e m] by auto

lemma none_of_drop: "none_of ops s \<Longrightarrow> none_of (drop k ops) s"
  by (auto simp: none_of_def list_all_iff dest: in_set_dropD)

lemma none_of_drop_mono: "none_of (drop j ops) s \<Longrightarrow> j \<le> k \<Longrightarrow> none_of (drop k ops) s"
  using none_of_drop [of "drop j ops" s "k - j"] by simp

lemma arith_none_after_paren: "none_of (drop k arith_ops) (CHR '')'' # s)"
  by (rule none_of_drop) (simp add: none_of_def arith_ops_def parse_additive_operator_def
      parse_multiplicative_operator_def parse_power_operator_def reader_defs)

definition reads_variables :: "condition_left reader \<Rightarrow> bool" where
  "reads_variables lhs = (\<forall>v s. variable_ok v \<longrightarrow> stops s \<longrightarrow> lhs (show_variable v @ s) = Some (v, s))"

lemma both_read_variables: "reads_variables parse_condition_lhs" "reads_variables parse_condition_lhs_with_dollar"
  by (simp_all add: reads_variables_def parse_condition_lhs_def parse_condition_lhs_with_dollar_def
      parse_base_variable_name_def parse_base_variable_name_with_dollar_def variable_token)

lemma primary_literal:
  assumes "literal_ok l" and "stops s"
  shows "arithmetic_primary lhs (Suc n) (show_literal l @ s) = Some (Literal l, space0 s)"
proof -
  obtain c t where c: "show_literal l = c # t" "\<not> blank c" "c \<noteq> CHR ''(''" using literal_starts [OF assms(1)] by blast
  then have "parens p (show_literal l @ s) = None" for p :: "arithmetic_expr reader" by (simp add: parens_def)
  moreover have "space0 (space0 s) = space0 s" by (simp add: space0_def)
  ultimately show ?thesis
    using c literal_token [OF assms] by (simp add: spaced_def or_else_def reads_as_def)
qed

lemma primary_variable:
  assumes "variable_ok v" and "stops s" and "reads_variables lhs"
  shows "arithmetic_primary lhs (Suc n) (show_variable v @ s) = Some (Variable v, space0 s)"
proof -
  obtain c t where c: "show_variable v = c # t" "c = CHR ''$'' \<or> c = CHR ''@''" using variable_starts [of v] by blast
  then have "parens p (show_variable v @ s) = None" for p :: "arithmetic_expr reader" by (auto simp: parens_def)
  moreover have "parse_numeric_or_quoted_literal (show_variable v @ s) = None"
    using c by (intro not_a_literal [of _ c "t @ s"]) simp_all
  moreover have "lhs (show_variable v @ s) = Some (v, s)" using assms by (simp add: reads_variables_def)
  ultimately show ?thesis
    using c by (auto simp: spaced_def or_else_def reads_as_def)
qed

lemma primary_parens:
  assumes "parse_additive_expr (arithmetic_primary lhs n) (t @ '')'' @ s) = Some (e, '')'' @ s)"
    and "space0 (t @ '')'' @ s) = t @ '')'' @ s"
  shows "arithmetic_primary lhs (Suc n) (''('' @ t @ '')'' @ s) = Some (e, space0 s)"
  using assms by (simp add: spaced_def or_else_def parens_def token_as_def)

lemma arith_reads:
  assumes "reads_variables lhs"
  shows "arith_ok e \<Longrightarrow> length (show_arith m e) < n \<Longrightarrow> k \<le> m \<Longrightarrow> stops s \<Longrightarrow>
    none_of (drop (Suc m) arith_ops) (space0 s) \<Longrightarrow>
    climb Binary (drop k arith_ops) (arithmetic_primary lhs n) (show_arith m e @ s) =
    conts Binary (drop k arith_ops) (arithmetic_primary lhs n) e (space0 s)"
proof (induction e arbitrary: m n k s)
  case (Variable v)
  then obtain n' where "n = Suc n'" by (cases n) auto
  with Variable primary_variable [OF _ _ assms] show ?case by (intro climb_prim) simp
next
  case (Literal l)
  then obtain n' where "n = Suc n'" by (cases n) auto
  with Literal primary_literal show ?case by (intro climb_prim) simp
next
  case (Binary l op r)
  let ?j = "arith_rank op"
  let ?t = "show_arith ?j l @ '' '' @ arith_sym op @ '' '' @ show_arith (Suc ?j) r"
  have core: "climb Binary (drop k arith_ops) (arithmetic_primary lhs n) (?t @ s) =
      conts Binary (drop k arith_ops) (arithmetic_primary lhs n) (Binary l op r) (space0 s)"
    if n: "length ?t < n" and k: "k \<le> ?j" and s: "stops s" "none_of (drop (Suc ?j) arith_ops) (space0 s)" for n k s
  proof -
    let ?prim = "arithmetic_primary lhs n"
    let ?right = "show_arith (Suc ?j) r @ s"
    let ?rest = "'' '' @ arith_sym op @ '' '' @ ?right"
    have rest: "space0 ?rest = arith_sym op @ '' '' @ ?right" by (cases op) simp_all
    have after: "none_of (drop (Suc ?j) arith_ops) (space0 ?rest)"
      unfolding rest by (rule arith.other_ranks) simp
    have left: "climb Binary (drop k arith_ops) ?prim (show_arith ?j l @ ?rest) =
        conts Binary (drop k arith_ops) ?prim l (space0 ?rest)"
      by (rule Binary.IH(1) [OF _ _ k _ after]) (use Binary.prems n in \<open>auto simp: ends_at_def\<close>)
    have "climb Binary (drop (Suc ?j) arith_ops) ?prim ?right =
        conts Binary (drop (Suc ?j) arith_ops) ?prim r (space0 s)"
      by (rule Binary.IH(2)) (use Binary.prems n s none_of_drop_mono [OF s(2)] in auto)
    then have right: "climb Binary (drop (Suc ?j) arith_ops) ?prim (space0 ('' '' @ ?right)) = Some (r, space0 s)"
      using Binary.prems(1) by (simp add: show_arith_unspaced conts_stop [OF s(2)])
    have "length (space0 s) \<le> length ('' '' @ ?right)"
      using length_dropWhile_le [of blank s] by (simp add: space0_def)
    from arith.operator_step [OF right this s(2) k] left show ?thesis
      unfolding rest by (cases op) simp_all
  qed
  show ?case
  proof (cases "?j < m")
    case False
    with core [of n k s] Binary.prems none_of_drop_mono [OF Binary.prems(5), of "Suc ?j"] show ?thesis
      by (simp add: Let_def)
  next
    case True
    then obtain n' where n': "n = Suc n'" "length ?t < n'" using Binary.prems(2) by (cases n) (auto simp: Let_def)
    have "climb Binary (drop 0 arith_ops) (arithmetic_primary lhs n') (?t @ '')'' @ s) =
        conts Binary (drop 0 arith_ops) (arithmetic_primary lhs n') (Binary l op r) (space0 ('')'' @ s))"
      by (rule core) (use n' arith_none_after_paren in \<open>auto simp: ends_at_def\<close>)
    also have "\<dots> = Some (Binary l op r, '')'' @ s)"
      using conts_stop [OF arith_none_after_paren [of 0]] by simp
    finally have "arithmetic_primary lhs n (''('' @ ?t @ '')'' @ s) = Some (Binary l op r, space0 s)"
      unfolding n'(1) using Binary.prems(1)
      by (intro primary_parens) (simp_all add: parse_additive_climb show_arith_unspaced)
    then show ?thesis using True by (intro climb_prim) (simp add: Let_def)
  qed
qed

lemma arith_expr_reads:
  assumes "reads_variables lhs" and "arith_ok e" and "length (show_arith 0 e) < n" and "stops s"
    and "none_of arith_ops (space0 s)"
  shows "parse_additive_expr (arithmetic_primary lhs n) (show_arith 0 e @ s) = Some (e, space0 s)"
  using arith_reads [OF assms(1-3), of 0 s] assms(4,5) none_of_drop [OF assms(5), of 1]
  by (simp add: parse_additive_climb conts_stop)

section \<open>Conditions\<close>

lemma climb_None: "prim s = None \<Longrightarrow> climb mk ops prim s = None"
  by (induction ops) (simp_all add: climb_Cons del: climb.simps(2))

lemma comparison_token:
  "parse_comparison_operator (show_comparison op @ '' '' @ t) = Some (op, space0 t)"
  by (cases op) (simp_all add: parse_comparison_operator_def spaced_def or_else_def token_as_def)

lemma comparison_starts:
  "space0 ('' '' @ show_comparison op @ t) = show_comparison op @ t" "none_of arith_ops (show_comparison op @ t)"
  by (cases op; simp add: none_of_def arith_ops_def parse_additive_operator_def parse_multiplicative_operator_def
      parse_power_operator_def reader_defs)+

lemma condition_token:
  assumes "arith_ok l" and "arith_ok r" and "stops s" and "none_of arith_ops (space0 s)"
  shows "parse_condition (show_arith 0 l @ '' '' @ show_comparison op @ '' '' @ show_arith 0 r @ s) =
    Some (Condition \<lparr>cond_left = l, cond_operator = op, cond_right = r\<rparr>, space0 s)"
proof -
  let ?right = "show_arith 0 r @ s"
  let ?rest = "'' '' @ show_comparison op @ '' '' @ ?right"
  have "parse_arithmetic_expr (show_arith 0 l @ ?rest) = Some (l, space0 ?rest)"
    unfolding parse_arithmetic_expr_def parse_arithmetic_primary_def
    by (rule arith_expr_reads [OF both_read_variables(1) assms(1)])
      (use comparison_starts [of op "'' '' @ ?right"] in \<open>auto simp: ends_at_def\<close>)
  moreover have "parse_arithmetic_expr ?right = Some (r, space0 s)"
    unfolding parse_arithmetic_expr_def parse_arithmetic_primary_def
    by (rule arith_expr_reads [OF both_read_variables(1) assms(2) _ assms(3,4)]) simp
  moreover have "parse_comparison_operator (space0 ?rest) = Some (op, ?right)"
    using comparison_token [of op ?right] comparison_starts(1) [of op "'' '' @ ?right"] assms(2)
    by (simp add: show_arith_unspaced)
  ultimately show ?thesis
    by (simp add: parse_condition_def reads_def reads_as_def)
qed

text \<open>A condition may start with a parenthesis of its arithmetic: reading it as a parenthesised expression fails,
  because what the parenthesis holds is not a condition, and the reader goes on to read a condition.\<close>

lemma arithmetic_is_no_expression:
  "arith_ok a \<Longrightarrow> stops s \<Longrightarrow> parens (parse_expression (parse_term n)) (show_arith m a @ s) = None"
proof (induction a arbitrary: m s n)
  case (Variable v)
  obtain c t where "show_variable v = c # t" "c = CHR ''$'' \<or> c = CHR ''@''" using variable_starts [of v] by blast
  then show ?case by (auto simp: parens_def)
next
  case (Literal l)
  then show ?case using literal_starts [of l] by (auto simp: parens_def)
next
  case (Binary l op r)
  let ?j = "arith_rank op"
  let ?e = "Binary l op r"
  let ?t = "show_arith ?j l @ '' '' @ arith_sym op @ '' '' @ show_arith (Suc ?j) r"
  have t: "show_arith 0 ?e = ?t" by (simp add: Let_def)
  have left: "parens (parse_expression (parse_term n')) (?t @ s') = None" for n' s'
    using Binary.IH(1) [of "'' '' @ arith_sym op @ '' '' @ show_arith (Suc ?j) r @ s'" n' ?j] Binary.prems
    by (simp add: ends_at_def)
  show ?case
  proof (cases "?j < m")
    case False
    with left [of n s] show ?thesis by (simp add: Let_def)
  next
    case True
    let ?u = "?t @ '')'' @ s"
    have "parse_arithmetic_expr ?u = Some (?e, '')'' @ s)"
      using arith_expr_reads [OF both_read_variables(1) Binary.prems(1), of "Suc (length ?u)" "'')'' @ s"]
        arith_none_after_paren [of 0 s]
      unfolding parse_arithmetic_expr_def parse_arithmetic_primary_def t by (simp add: ends_at_def)
    then have cond: "parse_condition ?u = None"
      by (simp add: parse_condition_def reads_def parse_comparison_operator_def reader_defs)
    obtain c t' where c: "?t = c # t'" "\<not> blank c" "c \<noteq> CHR ''!''"
      using show_arith_starts [OF Binary.prems(1), of 0] unfolding t by blast
    then have u: "space0 ?u = ?u" "strip_prefix ''!'' ?u = None" by simp_all
    have "parse_term n ?u = None"
      by (cases n) (simp_all add: spaced_def or_else_def u [simplified] left [simplified] cond [simplified])
    then have "parse_expression (parse_term n) ?u = None"
      by (simp add: parse_expression_def spaced_def u [simplified] parse_or_climb climb_None)
    then show ?thesis using True u(1) by (simp add: Let_def parens_def)
  qed
qed

section \<open>Expressions\<close>

lemma logical_none_after_paren: "none_of (drop k logical_ops) (CHR '')'' # s)"
  by (rule none_of_drop) (simp add: none_of_def logical_ops_def parse_or_operator_def parse_and_operator_def reader_defs)

lemma logical_sym_no_arith: "none_of arith_ops (logical_sym op @ t)"
  by (cases op; simp add: none_of_def arith_ops_def parse_additive_operator_def parse_multiplicative_operator_def
      parse_power_operator_def reader_defs)

lemma show_expr_starts: "expr_ok e \<Longrightarrow> \<exists>c t. show_expr m e = c # t \<and> \<not> blank c"
proof (induction e arbitrary: m)
  case (Condition c)
  then obtain a t where "show_arith 0 (cond_left c) = a # t" "\<not> blank a"
    using show_arith_starts [of "cond_left c" 0] by auto
  then show ?case by simp
next
  case (Logical l op r)
  then obtain c t where "show_expr (logical_rank op) l = c # t" "\<not> blank c" by force
  then show ?case by (simp add: Let_def)
qed simp

lemma show_expr_unspaced: "expr_ok e \<Longrightarrow> space0 (show_expr m e @ s) = show_expr m e @ s"
  using show_expr_starts [of e m] by auto

lemma term_condition:
  assumes "expr_ok (Condition c)" and "stops s" and "none_of arith_ops (space0 s)"
  shows "parse_term (Suc n) (show_expr m (Condition c) @ s) = Some (Condition c, space0 s)"
proof -
  let ?rest = "'' '' @ show_comparison (cond_operator c) @ '' '' @ show_arith 0 (cond_right c) @ s"
  obtain a t where a: "show_arith 0 (cond_left c) = a # t" "\<not> blank a" "a \<noteq> CHR ''!''"
    using show_arith_starts [of "cond_left c" 0] assms(1) by auto
  have "parens (parse_expression (parse_term n)) (show_arith 0 (cond_left c) @ ?rest) = None"
    using assms(1) by (intro arithmetic_is_no_expression) (simp_all add: ends_at_def)
  moreover have "parse_condition (show_arith 0 (cond_left c) @ ?rest) = Some (Condition c, space0 s)"
    using condition_token [of "cond_left c" "cond_right c" s "cond_operator c"] assms by simp
  moreover have "space0 (space0 s) = space0 s" by (simp add: space0_def)
  ultimately show ?thesis using a by (simp add: spaced_def or_else_def)
qed

lemma term_parens:
  assumes "parse_expression (parse_term n) (t @ '')'' @ s) = Some (e, '')'' @ s)"
    and "space0 (t @ '')'' @ s) = t @ '')'' @ s"
  shows "parse_term (Suc n) (''('' @ t @ '')'' @ s) = Some (e, space0 s)"
  using assms by (simp add: spaced_def or_else_def parens_def token_as_def)

lemma expr_reads:
  "expr_ok e \<Longrightarrow> length (show_expr m e) < n \<Longrightarrow> k \<le> m \<Longrightarrow> stops s \<Longrightarrow> none_of arith_ops (space0 s) \<Longrightarrow>
    none_of (drop (Suc m) logical_ops) (space0 s) \<Longrightarrow>
    climb Logical (drop k logical_ops) (parse_term n) (show_expr m e @ s) =
    conts Logical (drop k logical_ops) (parse_term n) e (space0 s)"
proof (induction e arbitrary: m n k s)
  case (Condition c)
  then obtain n' where "n = Suc n'" by (cases n) auto
  with Condition show ?case by (intro climb_prim) (simp only: term_condition)
next
  case (Not_Expr e)
  then obtain n' where n': "n = Suc n'" "length (show_expr 2 e) < n'" by (cases n) auto
  have "climb Logical (drop 2 logical_ops) (parse_term n') (show_expr 2 e @ s) =
      conts Logical (drop 2 logical_ops) (parse_term n') e (space0 s)"
    by (rule Not_Expr.IH) (use Not_Expr.prems n' in \<open>simp_all add: logical_ops_def none_of_def\<close>)
  then have "parse_term n' (show_expr 2 e @ s) = Some (e, space0 s)" by (simp add: logical_ops_def)
  then have "parse_term n (show_expr m (Not_Expr e) @ s) = Some (Not_Expr e, space0 s)"
    using Not_Expr.prems(1) n'(1)
    by (simp add: spaced_def or_else_def reads_as_def show_expr_unspaced) (simp add: space0_def)
  then show ?case by (rule climb_prim)
next
  case (Logical l op r)
  let ?j = "logical_rank op"
  let ?e = "Logical l op r"
  let ?t = "show_expr ?j l @ '' '' @ logical_sym op @ '' '' @ show_expr (Suc ?j) r"
  have core: "climb Logical (drop k logical_ops) (parse_term n) (?t @ s) =
      conts Logical (drop k logical_ops) (parse_term n) ?e (space0 s)"
    if n: "length ?t < n" and k: "k \<le> ?j"
      and s: "stops s" "none_of arith_ops (space0 s)" "none_of (drop (Suc ?j) logical_ops) (space0 s)" for n k s
  proof -
    let ?right = "show_expr (Suc ?j) r @ s"
    let ?rest = "'' '' @ logical_sym op @ '' '' @ ?right"
    have rest: "space0 ?rest = logical_sym op @ '' '' @ ?right" by (cases op) simp_all
    have after: "none_of (drop (Suc ?j) logical_ops) (space0 ?rest)"
      unfolding rest by (rule logical.other_ranks) simp
    have left: "climb Logical (drop k logical_ops) (parse_term n) (show_expr ?j l @ ?rest) =
        conts Logical (drop k logical_ops) (parse_term n) l (space0 ?rest)"
      by (rule Logical.IH(1) [OF _ _ k _ _ after])
        (use Logical.prems n logical_sym_no_arith [of op "'' '' @ ?right"] in \<open>auto simp: ends_at_def rest [simplified]\<close>)
    have "climb Logical (drop (Suc ?j) logical_ops) (parse_term n) ?right =
        conts Logical (drop (Suc ?j) logical_ops) (parse_term n) r (space0 s)"
      by (rule Logical.IH(2)) (use Logical.prems n s none_of_drop_mono [OF s(3)] in auto)
    then have right: "climb Logical (drop (Suc ?j) logical_ops) (parse_term n) (space0 ('' '' @ ?right)) = Some (r, space0 s)"
      using Logical.prems(1) by (simp add: show_expr_unspaced conts_stop [OF s(3)])
    have "length (space0 s) \<le> length ('' '' @ ?right)"
      using length_dropWhile_le [of blank s] by (simp add: space0_def)
    from logical.operator_step [OF right this s(3) k] left show ?thesis
      unfolding rest by (cases op) simp_all
  qed
  show ?case
  proof (cases "?j < m")
    case False
    with core [of n k s] Logical.prems none_of_drop_mono [OF Logical.prems(6), of "Suc ?j"] show ?thesis
      by (simp add: Let_def)
  next
    case True
    then obtain n' where n': "n = Suc n'" "length ?t < n'" using Logical.prems(2) by (cases n) (auto simp: Let_def)
    have "climb Logical (drop 0 logical_ops) (parse_term n') (?t @ '')'' @ s) =
        conts Logical (drop 0 logical_ops) (parse_term n') ?e (space0 ('')'' @ s))"
      by (rule core) (use n' logical_none_after_paren arith_none_after_paren [of 0] in \<open>auto simp: ends_at_def\<close>)
    also have "\<dots> = Some (?e, '')'' @ s)"
      using conts_stop [OF logical_none_after_paren [of 0]] by simp
    finally have "parse_expression (parse_term n') (?t @ '')'' @ s) = Some (?e, '')'' @ s)"
      using Logical.prems(1) by (simp add: parse_expression_def spaced_def parse_or_climb show_expr_unspaced)
    then have "parse_term n (''('' @ ?t @ '')'' @ s) = Some (?e, space0 s)"
      unfolding n'(1) by (rule term_parens) (use Logical.prems(1) in \<open>simp add: show_expr_unspaced\<close>)
    then show ?thesis using True by (intro climb_prim) (simp add: Let_def)
  qed
qed

section \<open>Properties\<close>

lemma logical_none_at_end [simp]: "none_of (drop k logical_ops) []"
  by (rule none_of_drop_mono [of 0, simplified])
    (simp_all add: none_of_def logical_ops_def parse_or_operator_def parse_and_operator_def reader_defs)

text \<open>C33: The parser reads back what it can be given: for every filter expression, the text with the usual
  precedences and only the parentheses these require parses to exactly that expression, whatever its shape,
  variables, accessors, literals and operators.\<close>

theorem parse_reads_printed_expression:
  assumes "expr_ok e"
  shows "parse (show_expr 0 e) = Some e"
proof -
  have "climb Logical (drop 0 logical_ops) (parse_term (Suc (length (show_expr 0 e)))) (show_expr 0 e @ []) =
      conts Logical (drop 0 logical_ops) (parse_term (Suc (length (show_expr 0 e)))) e (space0 [])"
    by (rule expr_reads [OF assms])
      (simp_all add: ends_at_def none_of_def arith_ops_def logical_ops_def parse_additive_operator_def
        parse_multiplicative_operator_def parse_power_operator_def parse_or_operator_def parse_and_operator_def reader_defs)
  also have "\<dots> = Some (e, [])"
    using conts_stop [OF logical_none_at_end [of 0]] by simp
  finally show ?thesis
    using show_expr_unspaced [OF assms, of 0 "[]"]
    by (simp add: parse_def to_the_end_def parse_expression_def spaced_def parse_or_climb)
qed

lemma number_text_one: "number_text ''1''"
  unfolding number_text_def
  by (intro exI [of _ "[]"] exI [of _ "''1''"] conjI) (simp_all add: digits_text_def is_ascii_digit_def char_in_def)

theorem parse_reads_printed_expression_witness:
  "parse ''!$paid == true && ($from == 'x' || @total > 1)'' =
    Some (Logical
      (Not_Expr (Condition \<lparr>cond_left = Variable (Simple ''paid'' From_Event), cond_operator = Cmp_Eq,
         cond_right = Literal (Lit_Bool True)\<rparr>))
      Log_And
      (Logical
        (Condition \<lparr>cond_left = Variable (Simple ''from'' From_Event), cond_operator = Cmp_Eq,
           cond_right = Literal (Lit_Str ''x'')\<rparr>)
        Log_Or
        (Condition \<lparr>cond_left = Variable (Simple ''total'' From_Table), cond_operator = Cmp_Gt,
           cond_right = Literal (Lit_Number ''1'')\<rparr>)))"
  using parse_reads_printed_expression [of "Logical
      (Not_Expr (Condition \<lparr>cond_left = Variable (Simple ''paid'' From_Event), cond_operator = Cmp_Eq,
         cond_right = Literal (Lit_Bool True)\<rparr>))
      Log_And
      (Logical
        (Condition \<lparr>cond_left = Variable (Simple ''from'' From_Event), cond_operator = Cmp_Eq,
           cond_right = Literal (Lit_Str ''x'')\<rparr>)
        Log_Or
        (Condition \<lparr>cond_left = Variable (Simple ''total'' From_Table), cond_operator = Cmp_Gt,
           cond_right = Literal (Lit_Number ''1'')\<rparr>))"] number_text_one
  by (simp add: name_text_def is_keyword_def to_ascii_lowercase_def is_ascii_alphabetic_def char_in_def ident_char_def
      is_ascii_alphanumeric_def show_variable_def Let_def)

text \<open>A computed column reads back in the same way: the printed text of every arithmetic expression parses to
  that expression, so precedence and left association are those of the evaluator's tree.\<close>

theorem computed_column_reads_back:
  assumes "arith_ok e"
  shows "parse_arithmetic_expression (show_arith 0 e) = Some e"
proof -
  have "parse_additive_expr (arithmetic_primary parse_condition_lhs_with_dollar (Suc (length (show_arith 0 e))))
      (show_arith 0 e @ []) = Some (e, space0 [])"
    by (rule arith_expr_reads [OF both_read_variables(2) assms])
      (simp_all add: ends_at_def none_of_def arith_ops_def parse_additive_operator_def
        parse_multiplicative_operator_def parse_power_operator_def reader_defs)
  then show ?thesis
    by (simp add: parse_arithmetic_expression_def to_the_end_def parse_arithmetic_expr_with_dollar_def
        parse_arithmetic_primary_with_dollar_def)
qed

theorem computed_column_reads_back_witness:
  "parse_arithmetic_expression ''($amount - 1) * $amount'' =
    Some (Binary (Binary (Variable (Simple ''amount'' From_Event)) Ar_Subtract (Literal (Lit_Number ''1'')))
      Ar_Multiply (Variable (Simple ''amount'' From_Event)))"
  using computed_column_reads_back [of "Binary (Binary (Variable (Simple ''amount'' From_Event)) Ar_Subtract
      (Literal (Lit_Number ''1''))) Ar_Multiply (Variable (Simple ''amount'' From_Event))"] number_text_one
  by (simp add: name_text_def is_keyword_def to_ascii_lowercase_def is_ascii_alphabetic_def char_in_def ident_char_def
      is_ascii_alphanumeric_def show_variable_def Let_def)

end
