(* ===== verification/Filter_Parser_Total.thy ===== *)
theory Filter_Parser_Total
  imports Filter_Parser_Correct
begin

text \<open>
  The fuel of \<open>Filter_Parser\<close> is never what makes a text unreadable: every reader leaves at most what it was
  given, so a nested reader is only ever asked for shorter texts, and readers that agree on these agree on
  the whole. The last section shows which operators the lookaheads of \<open>parsing.rs\<close> turn away.
\<close>

named_theorems shrinking \<open>readers that leave at most what they were given\<close>
named_theorems agreeing \<open>combinators that preserve agreement on short texts\<close>

definition shrinks :: "'a reader \<Rightarrow> bool" where
  "shrinks p = (\<forall>s x r. p s = Some (x, r) \<longrightarrow> length r \<le> length s)"

definition agree_below :: "nat \<Rightarrow> 'a reader \<Rightarrow> 'a reader \<Rightarrow> bool" where
  "agree_below m p q = (\<forall>s. length s < m \<longrightarrow> p s = q s)"

section \<open>Readers leave at most what they were given\<close>

lemma shrinksI: "(\<And>s x r. p s = Some (x, r) \<Longrightarrow> length r \<le> length s) \<Longrightarrow> shrinks p"
  by (auto simp: shrinks_def)

lemma shrinksD: "shrinks p \<Longrightarrow> p s = Some (x, r) \<Longrightarrow> length r \<le> length s"
  by (auto simp: shrinks_def)

lemma space0_shrinks: "length (space0 s) \<le> length s"
  by (simp add: space0_def length_dropWhile_le)

lemma strip_prefix_shrinks: "strip_prefix p s = Some r \<Longrightarrow> length s = length p + length r"
  by (auto simp: strip_prefix_def starts_with_def split: if_splits)
    (metis append_take_drop_id length_append length_drop)

lemma reads_shrinks [shrinking]: "shrinks p \<Longrightarrow> (\<And>x. shrinks (f x)) \<Longrightarrow> shrinks (reads p f)"
  by (rule shrinksI) (fastforce simp: reads_def dest: shrinksD split: option.splits)

lemma reads_as_shrinks [shrinking]: "shrinks p \<Longrightarrow> shrinks (reads_as f p)"
  by (rule shrinksI) (auto simp: reads_as_def dest: shrinksD split: option.splits)

lemma or_else_shrinks [shrinking]: "shrinks p \<Longrightarrow> shrinks q \<Longrightarrow> shrinks (or_else p q)"
  by (rule shrinksI) (auto simp: or_else_def dest: shrinksD split: option.splits)

lemma spaced_shrinks [shrinking]: "shrinks p \<Longrightarrow> shrinks (spaced p)"
  by (rule shrinksI)
    (auto simp: spaced_def dest!: shrinksD split: option.splits intro: order_trans [OF space0_shrinks] order_trans [OF _ space0_shrinks])

lemma token_as_shrinks [shrinking]: "shrinks (token_as t x)"
  by (rule shrinksI) (auto simp: token_as_def dest: strip_prefix_shrinks split: option.splits)

lemma parens_shrinks [shrinking]: "shrinks p \<Longrightarrow> shrinks (parens p)"
proof (rule shrinksI)
  fix s x r
  assume p: "shrinks p" and "parens p s = Some (x, r)"
  then obtain a y b where "strip_prefix ''('' s = Some a" and "p (space0 a) = Some (y, b)"
    and "token_as '')'' y (space0 b) = Some (x, r)"
    by (auto simp: parens_def simp del: strip_prefix_Cons split: option.splits)
  then show "length r \<le> length s"
    using strip_prefix_shrinks [of "''(''" s a] shrinksD [OF p, of "space0 a"] space0_shrinks [of a] space0_shrinks [of b]
      shrinksD [OF token_as_shrinks, of "'')''" y "space0 b"] by fastforce
qed

lemma repeat_fold_shrinks [shrinking]: "shrinks (repeat_fold p f a)"
proof (rule shrinksI)
  fix s x r
  show "repeat_fold p f a s = Some (x, r) \<Longrightarrow> length r \<le> length s"
  proof (induction p f a s rule: repeat_fold.induct)
    case (1 p f a s)
    then show ?case
      by (cases "p s") (fastforce simp: repeat_fold.simps [of p f a s] split: if_splits)+
  qed
qed

lemma binary_level_shrinks [shrinking]: "shrinks p \<Longrightarrow> shrinks (binary_level mk operator p)"
  unfolding binary_level_def by (intro shrinking)

lemma digit1_shrinks [shrinking]: "shrinks digit1"
  by (rule shrinksI) (auto simp: digit1_def Let_def split: if_splits)

lemma ident_token_shrinks [shrinking]: "shrinks ident_token"
  by (rule shrinksI) (auto simp: ident_token_def Let_def split: list.splits if_splits)

lemma keyword_literal_shrinks [shrinking]: "shrinks (keyword_literal word b)"
  by (rule shrinksI) (auto simp: keyword_literal_def dest: strip_prefix_shrinks split: option.splits if_splits)

lemma read_sign_shrinks: "read_sign s = (sign, r) \<Longrightarrow> length r \<le> length s"
  by (auto simp: read_sign_def split: list.splits if_splits)

lemma read_fraction_shrinks: "read_fraction s = (t, r) \<Longrightarrow> length r \<le> length s"
  using shrinksD [OF digit1_shrinks]
  by (fastforce simp: read_fraction_def simp del: strip_prefix_Cons dest: strip_prefix_shrinks split: option.splits)

lemma parse_number_shrinks [shrinking]: "shrinks parse_number_or_fixed_str"
  using shrinksD [OF digit1_shrinks]
  by (intro shrinksI) (fastforce simp: parse_number_or_fixed_str_def Let_def dest!: read_fraction_shrinks read_sign_shrinks
      split: prod.splits option.splits if_splits)

lemma parse_hex_shrinks [shrinking]: "shrinks parse_hex_string"
proof (rule shrinksI)
  fix s x r
  assume "parse_hex_string s = Some (x, r)"
  then obtain t r' where "or_else (token_as ''0x'' ''0x'') (token_as ''0X'' ''0X'') s = Some (t, r')"
    and "length r \<le> length r'"
    by (auto simp: parse_hex_string_def Let_def split: option.splits if_splits)
  moreover have "shrinks (or_else (token_as ''0x'' ''0x'') (token_as ''0X'' ''0X''))" by (intro shrinking)
  ultimately show "length r \<le> length s" by (fastforce dest: shrinksD)
qed

lemma quoted_content_shrinks: "quoted_content q s = (t, r) \<Longrightarrow> length r \<le> length s"
  by (induction q s arbitrary: t rule: quoted_content.induct) (fastforce split: if_splits prod.splits)+

lemma parse_quoted_shrinks [shrinking]: "shrinks parse_quoted_string"
proof (rule shrinksI)
  fix s x r
  assume "parse_quoted_string s = Some (x, r)"
  then obtain q s' t r' where "s = q # s'" and "quoted_content q s' = (t, r')"
    and "token_as [q] (Lit_Str t) r' = Some (x, r)"
    by (auto simp: parse_quoted_string_def split: list.splits if_splits prod.splits)
  then show "length r \<le> length s"
    using quoted_content_shrinks [of q s' t r'] shrinksD [OF token_as_shrinks, of "[q]" "Lit_Str t" r' x r] by simp
qed

lemma parse_literal_shrinks [shrinking]: "shrinks parse_numeric_or_quoted_literal"
  unfolding parse_numeric_or_quoted_literal_def parse_boolean_def by (intro shrinking)

lemma read_source_shrinks: "read_source s = (src, r) \<Longrightarrow> length r \<le> length s"
  by (auto simp: read_source_def split: list.splits if_splits option.splits)

lemma variable_name_shrinks [shrinking]: "shrinks (variable_name ends)"
proof (rule shrinksI)
  fix s x r
  assume "variable_name ends s = Some (x, r)"
  then obtain src s1 i where "read_source s = (src, s1)"
    and "ident_token s1 = Some (i, r) \<or> digit1 s1 = Some (i, r)"
    by (auto simp: variable_name_def or_else_def Let_def split: prod.splits option.splits if_splits)
  then show "length r \<le> length s"
    using shrinksD [OF digit1_shrinks] shrinksD [OF ident_token_shrinks] read_source_shrinks by (meson order_trans)
qed

lemma with_accessors_shrinks [shrinking]: "shrinks base \<Longrightarrow> shrinks (with_accessors base)"
  unfolding with_accessors_def by (intro shrinking) (auto intro: shrinking split: prod.splits)

lemma parse_condition_lhs_shrinks [shrinking]:
  "shrinks parse_condition_lhs" "shrinks parse_condition_lhs_with_dollar"
  unfolding parse_condition_lhs_def parse_base_variable_name_def parse_condition_lhs_with_dollar_def
    parse_base_variable_name_with_dollar_def
  by (intro shrinking)+

lemma arithmetic_primary_shrinks [shrinking]: "shrinks lhs \<Longrightarrow> shrinks (arithmetic_primary lhs n)"
proof (induction n)
  case 0
  show ?case by (simp add: shrinks_def)
next
  case (Suc n)
  then show ?case
    unfolding arithmetic_primary.simps parse_additive_expr_def parse_multiplicative_expr_def parse_power_expr_def
    by (intro shrinking) auto
qed

lemma parse_additive_shrinks [shrinking]: "shrinks p \<Longrightarrow> shrinks (parse_additive_expr p)"
  unfolding parse_additive_expr_def parse_multiplicative_expr_def parse_power_expr_def by (intro shrinking)

lemma parse_arithmetic_expr_shrinks [shrinking]: "shrinks parse_arithmetic_expr"
proof (rule shrinksI)
  fix s :: string and x r
  have "shrinks (parse_additive_expr (arithmetic_primary parse_condition_lhs (Suc (length s))))" by (intro shrinking)
  moreover assume "parse_arithmetic_expr s = Some (x, r)"
  ultimately show "length r \<le> length s"
    unfolding parse_arithmetic_expr_def parse_arithmetic_primary_def by (rule shrinksD)
qed

lemma parse_condition_shrinks [shrinking]: "shrinks parse_condition"
  unfolding parse_condition_def parse_comparison_operator_def by (intro shrinking)

lemma parse_expression_shrinks [shrinking]: "shrinks trm \<Longrightarrow> shrinks (parse_expression trm)"
  unfolding parse_expression_def parse_or_expression_def parse_and_expression_def by (intro shrinking)

lemma negation_shrinks [shrinking]:
  assumes "shrinks p"
  shows "shrinks (\<lambda>s. case strip_prefix ''!'' s of Some r \<Rightarrow> reads_as Not_Expr p (space0 r) | None \<Rightarrow> None)"
proof (rule shrinksI)
  fix s x r
  assume "(case strip_prefix ''!'' s of Some r \<Rightarrow> reads_as Not_Expr p (space0 r) | None \<Rightarrow> None) = Some (x, r)"
  then obtain r' where "strip_prefix ''!'' s = Some r'" and "reads_as Not_Expr p (space0 r') = Some (x, r)"
    by (auto simp del: strip_prefix_Cons split: option.splits)
  then show "length r \<le> length s"
    using strip_prefix_shrinks [of "''!''" s r'] space0_shrinks [of r'] shrinksD [OF reads_as_shrinks [OF assms]] by fastforce
qed

lemma parse_term_shrinks [shrinking]: "shrinks (parse_term n)"
proof (induction n)
  case 0
  show ?case by (simp add: shrinks_def)
next
  case (Suc n)
  show ?case unfolding parse_term.simps by (intro shrinking Suc.IH)
qed

section \<open>Agreement on short texts\<close>

lemma agree_belowD: "agree_below m p q \<Longrightarrow> length s < m \<Longrightarrow> p s = q s"
  by (simp add: agree_below_def)

lemma agree_refl [agreeing]: "agree_below m p p"
  by (simp add: agree_below_def)

lemma agree_reads_as [agreeing]: "agree_below m p q \<Longrightarrow> agree_below m (reads_as f p) (reads_as f q)"
  by (simp add: agree_below_def reads_as_def)

lemma agree_or_else [agreeing]:
  "agree_below m p q \<Longrightarrow> agree_below m p' q' \<Longrightarrow> agree_below m (or_else p p') (or_else q q')"
  by (simp add: agree_below_def or_else_def split: option.split)

lemma agree_spaced [agreeing]: "agree_below m p q \<Longrightarrow> agree_below m (spaced p) (spaced q)"
  using order_le_less_trans [OF space0_shrinks] by (simp add: agree_below_def spaced_def)

lemma agree_parens [agreeing]: "agree_below m p q \<Longrightarrow> agree_below (Suc m) (parens p) (parens q)"
  using order_le_less_trans [OF space0_shrinks]
  by (fastforce simp: agree_below_def parens_def simp del: strip_prefix_Cons dest: strip_prefix_shrinks split: option.split)

lemma agree_reads:
  assumes "agree_below m p q" and "shrinks p" and "\<And>x. agree_below m (f x) (g x)"
  shows "agree_below m (reads p f) (reads q g)"
  unfolding agree_below_def
proof (intro allI impI)
  fix s :: string
  assume s: "length s < m"
  show "reads p f s = reads q g s"
  proof (cases "p s")
    case None
    then show ?thesis using agree_belowD [OF assms(1) s] by (simp add: reads_def)
  next
    case (Some z)
    obtain x r where z: "z = (x, r)" by (rule prod.exhaust)
    with Some shrinksD [OF assms(2), of s x r] s have "length r < m" by simp
    from agree_belowD [OF assms(3) this, of x] show ?thesis
      using Some z agree_belowD [OF assms(1) s] by (simp add: reads_def)
  qed
qed

lemma agree_repeat_fold: "agree_below m p q \<Longrightarrow> agree_below m (repeat_fold p f a) (repeat_fold q f a)"
  unfolding agree_below_def by (intro allI impI repeat_fold_cong) simp

lemma agree_binary_level [agreeing]:
  assumes "agree_below m p q" and "shrinks p" and "shrinks operator"
  shows "agree_below m (binary_level mk operator p) (binary_level mk operator q)"
  unfolding binary_level_def
  by (intro agree_reads agree_repeat_fold agree_reads_as agree_refl assms)

lemma operators_shrink [shrinking]:
  "shrinks parse_additive_operator" "shrinks parse_multiplicative_operator" "shrinks parse_power_operator"
  "shrinks parse_and_operator" "shrinks parse_or_operator"
  unfolding parse_additive_operator_def parse_multiplicative_operator_def parse_power_operator_def
    parse_and_operator_def parse_or_operator_def
  by (intro shrinking)+

lemma agree_additive [agreeing]:
  "agree_below m p q \<Longrightarrow> shrinks p \<Longrightarrow> agree_below m (parse_additive_expr p) (parse_additive_expr q)"
  unfolding parse_additive_expr_def parse_multiplicative_expr_def parse_power_expr_def
  by (intro agreeing shrinking)

lemma agree_expression [agreeing]:
  "agree_below m p q \<Longrightarrow> shrinks p \<Longrightarrow> agree_below m (parse_expression p) (parse_expression q)"
  unfolding parse_expression_def parse_or_expression_def parse_and_expression_def
  by (intro agreeing shrinking)

lemma agree_Suc_mono: "agree_below (Suc m) p q \<Longrightarrow> agree_below m p q"
  by (simp add: agree_below_def)

lemma agree_negation:
  "agree_below m p q \<Longrightarrow> agree_below (Suc m)
    (\<lambda>s. case strip_prefix ''!'' s of Some r \<Rightarrow> reads_as Not_Expr p (space0 r) | None \<Rightarrow> None)
    (\<lambda>s. case strip_prefix ''!'' s of Some r \<Rightarrow> reads_as Not_Expr q (space0 r) | None \<Rightarrow> None)"
  using order_le_less_trans [OF space0_shrinks]
  by (fastforce simp: agree_below_def reads_as_def simp del: strip_prefix_Cons dest: strip_prefix_shrinks split: option.split)

lemma arithmetic_primary_fuel: "shrinks lhs \<Longrightarrow> agree_below n (arithmetic_primary lhs n) (arithmetic_primary lhs (Suc n))"
proof (induction n)
  case 0
  show ?case by (simp add: agree_below_def)
next
  case (Suc n)
  then show ?case
    unfolding arithmetic_primary.simps(2) [of lhs n] arithmetic_primary.simps(2) [of lhs "Suc n"]
    by (intro agreeing shrinking)
qed

lemma parse_term_fuel: "agree_below n (parse_term n) (parse_term (Suc n))"
proof (induction n)
  case 0
  show ?case by (simp add: agree_below_def)
next
  case (Suc n)
  show ?case
    unfolding parse_term.simps(2) [of n] parse_term.simps(2) [of "Suc n"]
    by (intro agreeing agree_negation shrinking Suc.IH [unfolded parse_term.simps(2) [of n]])
qed

lemma fuel_monotone:
  assumes "\<And>n. agree_below n (p n) (p (Suc n))" and "m \<le> n"
  shows "agree_below m (p m) (p n)"
  using assms(2)
proof (induction n rule: dec_induct)
  case base
  show ?case by (rule agree_refl)
next
  case (step n)
  with assms(1) [of n] show ?case by (simp add: agree_below_def)
qed

section \<open>Properties of the fuel\<close>

text \<open>The fuel is enough: a reader of expressions, of arithmetic or of computed columns gives on every
  text what it gives with any larger fuel, so no text is turned away, or read differently, for want of it.\<close>

theorem parser_fuel_suffices:
  assumes "length s < n"
  shows "parse_expression (parse_term n) s = parse_expression (parse_term (Suc (length s))) s
    \<and> parse_additive_expr (parse_arithmetic_primary n) s = parse_arithmetic_expr s
    \<and> parse_additive_expr (parse_arithmetic_primary_with_dollar n) s = parse_arithmetic_expr_with_dollar s"
proof (intro conjI)
  have n: "Suc (length s) \<le> n" using assms by simp
  have "agree_below (Suc (length s)) (parse_expression (parse_term (Suc (length s)))) (parse_expression (parse_term n))"
    by (intro agreeing shrinking fuel_monotone [OF parse_term_fuel n])
  then show "parse_expression (parse_term n) s = parse_expression (parse_term (Suc (length s))) s"
    by (rule agree_belowD [symmetric]) simp
  have arith: "parse_additive_expr (arithmetic_primary lhs n) s =
      parse_additive_expr (arithmetic_primary lhs (Suc (length s))) s" if "shrinks lhs" for lhs
  proof -
    have "agree_below (Suc (length s)) (parse_additive_expr (arithmetic_primary lhs (Suc (length s))))
        (parse_additive_expr (arithmetic_primary lhs n))"
      using that by (intro agreeing shrinking fuel_monotone [OF arithmetic_primary_fuel n])
    then show ?thesis by (rule agree_belowD [symmetric]) simp
  qed
  show "parse_additive_expr (parse_arithmetic_primary n) s = parse_arithmetic_expr s"
    unfolding parse_arithmetic_expr_def parse_arithmetic_primary_def by (intro arith shrinking)
  show "parse_additive_expr (parse_arithmetic_primary_with_dollar n) s = parse_arithmetic_expr_with_dollar s"
    unfolding parse_arithmetic_expr_with_dollar_def parse_arithmetic_primary_with_dollar_def by (intro arith shrinking)
qed

theorem parser_fuel_suffices_witness:
  "parse_expression (parse_term 12) ''!(a > 1)'' = parse_expression (parse_term 9) ''!(a > 1)''"
  using parser_fuel_suffices [of "''!(a > 1)''" 12] by (simp add: eval_nat_numeral del: parse_term.simps)

section \<open>What the lookaheads turn away\<close>

definition operator_char :: "char \<Rightarrow> bool" where
  "operator_char c = (c \<in> set ''+-*/^&|,'')"

lemma operator_char_no_ident: "operator_char c \<Longrightarrow> \<not> ident_char c \<and> \<not> is_ascii_digit c"
  by (auto simp: operator_char_def ident_char_def is_ascii_alphanumeric_def is_ascii_digit_def is_ascii_alphabetic_def
      char_in_def)

lemma key_before_operator:
  assumes "name_text k" and "operator_char c"
  shows "repeat_fold parse_accessor f accs (''.'' @ k @ c # t) = Some (accs, ''.'' @ k @ c # t)"
proof -
  have "ident_token (k @ c # t) = Some (k, c # t)"
    using assms operator_char_no_ident [of c] by (intro ident_token_name) simp_all
  moreover have "\<not> ends_at ''[.=!><)('' (c # t)"
    using assms(2) by (auto simp: ends_at_def operator_char_def)
  ultimately have "parse_accessor (''.'' @ k @ c # t) = None"
    by (simp add: parse_accessor_def or_else_def parse_index_def parse_key_def)
  then show ?thesis by (simp add: repeat_fold.simps)
qed

lemma path_before_operator:
  assumes "name_text a" and "\<not> is_keyword a" and "name_text k" and "operator_char c"
  shows "with_accessors (variable_name number_ends) (''$'' @ a @ ''.'' @ k @ c # t) =
    Some (Simple a From_Event, ''.'' @ k @ c # t)"
proof -
  have "ident_token (a @ ''.'' @ k @ c # t) = Some (a, ''.'' @ k @ c # t)"
    using assms(1) by (intro ident_token_name) (simp_all add: ident_char_def is_ascii_alphanumeric_def
        is_ascii_digit_def is_ascii_alphabetic_def char_in_def)
  then have "variable_name number_ends (''$'' @ a @ ''.'' @ k @ c # t) = Some ((a, From_Event), ''.'' @ k @ c # t)"
    using assms(2) by (simp add: variable_name_def read_source_def or_else_def)
  then show ?thesis
    by (simp add: with_accessors_def reads_def reads_as_def key_before_operator [OF assms(3,4), simplified])
qed

lemma primary_before_operator:
  assumes "name_text a" and "\<not> is_keyword a" and "name_text k" and "operator_char c"
    and "lhs = with_accessors (variable_name number_ends)"
  shows "parse_additive_expr (arithmetic_primary lhs (Suc n)) (''$'' @ a @ ''.'' @ k @ c # t) =
    Some (Variable (Simple a From_Event), ''.'' @ k @ c # t)"
proof -
  let ?s = "''$'' @ a @ ''.'' @ k @ c # t"
  have "parse_numeric_or_quoted_literal ?s = None" by (rule not_a_literal) auto
  then have "arithmetic_primary lhs (Suc n) ?s = Some (Variable (Simple a From_Event), ''.'' @ k @ c # t)"
    using path_before_operator [OF assms(1-4), of number_ends t] assms(5)
    by (simp add: spaced_def or_else_def parens_def reads_as_def)
  then show ?thesis
    unfolding parse_additive_climb
    by (subst climb_prim, assumption, intro conts_stop)
      (simp add: none_of_def arith_ops_def parse_additive_operator_def parse_multiplicative_operator_def
        parse_power_operator_def reader_defs)
qed

text \<open>C34: A key that is followed by an arithmetic operator, a logical operator or a comma without a space is
  not read: whatever comes after it, neither the filter parser nor that of computed columns accepts the text.
  Behind a variable without a key the same operators are accepted.\<close>

theorem key_before_operator_rejected:
  assumes "name_text a" and "\<not> is_keyword a" and "name_text k" and "operator_char c"
  shows "parse (''$'' @ a @ ''.'' @ k @ c # t) = None \<and>
    parse_arithmetic_expression (''$'' @ a @ ''.'' @ k @ c # t) = None"
proof
  let ?s = "''$'' @ a @ ''.'' @ k @ c # t"
  have "parse_arithmetic_expr ?s = Some (Variable (Simple a From_Event), ''.'' @ k @ c # t)"
    unfolding parse_arithmetic_expr_def parse_arithmetic_primary_def parse_condition_lhs_def parse_base_variable_name_def
    by (rule primary_before_operator [OF assms refl])
  moreover have "parse_comparison_operator (''.'' @ k @ c # t) = None"
    by (simp add: parse_comparison_operator_def reader_defs)
  ultimately have "parse_condition ?s = None" by (simp add: parse_condition_def reads_def)
  then have "parse_term (Suc n) ?s = None" for n by (simp add: spaced_def or_else_def parens_def)
  then show "parse ?s = None"
    by (simp add: parse_def to_the_end_def parse_expression_def spaced_def parse_or_climb climb_None del: parse_term.simps)
  show "parse_arithmetic_expression ?s = None"
    using primary_before_operator [OF assms refl, of "ends_at ''[.+-*/)''" "length ?s" t]
    by (simp add: parse_arithmetic_expression_def to_the_end_def parse_arithmetic_expr_with_dollar_def
        parse_arithmetic_primary_with_dollar_def parse_condition_lhs_with_dollar_def
        parse_base_variable_name_with_dollar_def del: arithmetic_primary.simps)
qed

theorem key_before_operator_rejected_witness:
  "parse ''$a.b+1 > 2'' = None \<and> parse_arithmetic_expression ''$a.b+1 > 2'' = None \<and>
    name_text ''a'' \<and> operator_char (CHR ''+'')"
  using key_before_operator_rejected [of "''a''" "''b''" "CHR ''+''" "''1 > 2''"]
  by (simp add: name_text_def is_keyword_def to_ascii_lowercase_def is_ascii_alphabetic_def char_in_def operator_char_def)

end
