(* ===== verification/Event_Filter.thy ===== *)
theory Event_Filter
  imports Prelude
begin

text \<open>
  \<open>core/src/event/rindexer_event_filter.rs\<close> and the topic conversion of \<open>core/src/manifest/contract.rs\<close>:
  what is asked of a node for one event. A topic position accepts any of a set of values, the empty set
  accepts everything (\<open>FilterSet\<close>); several alternatives for the same event become separate queries. The
  addresses of a factory come from its stored events, which is an argument. A \<open>HashSet\<close> is a list without
  repetitions, in the order it happens to iterate.
\<close>

type_synonym address = "160 word"

datatype 'a value_or_array = Value_Of 'a | Array_Of "'a list"

type_synonym topic = "b256 list"
type_synonym topics = "topic \<times> topic \<times> topic \<times> topic"

record event_input_indexed_filters =
  ix_event_name :: string
  ix_indexed_1 :: "string list option"
  ix_indexed_2 :: "string list option"
  ix_indexed_3 :: "string list option"

definition no_topics :: topics where
  "no_topics = ([], [], [], [])"

definition topics_of :: "(string \<Rightarrow> b256) \<Rightarrow> event_input_indexed_filters \<Rightarrow> topics" where
  "topics_of parse_topic input =
     (let topic = (\<lambda>indexed. case indexed of Some values \<Rightarrow> map parse_topic values | None \<Rightarrow> [])
      in ([], topic (ix_indexed_1 input), topic (ix_indexed_2 input), topic (ix_indexed_3 input)))"

record address_details =
  ad_address :: "address value_or_array"
  ad_indexed_filters :: "event_input_indexed_filters list option"

record filter_details =
  fd_events :: "string value_or_array"
  fd_indexed_filters :: "event_input_indexed_filters list option"

record simple_event_filter =
  sf_address :: "address value_or_array option"
  sf_topic_id :: b256
  sf_topics :: topics
  sf_additional_topics :: "topics list"
  sf_current_block :: u64
  sf_next_block :: u64

record factory_filter =
  ff_project_path :: string
  ff_indexer_name :: string
  ff_factory_address :: "address value_or_array"
  ff_factory_contract_name :: string
  ff_factory_event_name :: string
  ff_factory_input_name :: "string value_or_array"
  ff_network :: string
  ff_topic_id :: b256
  ff_topics :: topics
  ff_current_block :: u64
  ff_next_block :: u64

datatype event_filter =
  Address_Filter simple_event_filter
| Filter_Filter simple_event_filter
| Factory_Filter factory_filter

fun values_of :: "'a value_or_array \<Rightarrow> 'a list" where
  "values_of (Value_Of x) = [x]"
| "values_of (Array_Of xs) = xs"

definition new_address_filter ::
  "(string \<Rightarrow> b256) \<Rightarrow> b256 \<Rightarrow> string \<Rightarrow> address_details \<Rightarrow> u64 \<Rightarrow> u64 \<Rightarrow> event_filter" where
  "new_address_filter parse_topic topic_id event_name details current_block next_block =
     (let index_filter = (case ad_indexed_filters details of
            Some indexed_filters \<Rightarrow> find (\<lambda>n. ix_event_name n = event_name) indexed_filters | None \<Rightarrow> None)
      in Filter_Filter
           \<lparr>sf_address = Some (ad_address details), sf_topic_id = topic_id,
            sf_topics = (case index_filter of Some f \<Rightarrow> topics_of parse_topic f | None \<Rightarrow> no_topics),
            sf_additional_topics = [], sf_current_block = current_block, sf_next_block = next_block\<rparr>)"

definition new_filter ::
  "(string \<Rightarrow> b256) \<Rightarrow> b256 \<Rightarrow> string \<Rightarrow> filter_details \<Rightarrow> u64 \<Rightarrow> u64 \<Rightarrow> event_filter" where
  "new_filter parse_topic topic_id event_name details current_block next_block =
     (let same_event_topics =
            map (topics_of parse_topic) (filter (\<lambda>f. ix_event_name f = event_name)
              (case fd_indexed_filters details of Some fs \<Rightarrow> fs | None \<Rightarrow> []))
      in Filter_Filter
           \<lparr>sf_address = None, sf_topic_id = topic_id,
            sf_topics = (case same_event_topics of t # _ \<Rightarrow> t | [] \<Rightarrow> no_topics),
            sf_additional_topics = tl same_event_topics, sf_current_block = current_block, sf_next_block = next_block\<rparr>)"

fun event_signature :: "event_filter \<Rightarrow> b256" where
  "event_signature (Address_Filter f) = sf_topic_id f"
| "event_signature (Filter_Filter f) = sf_topic_id f"
| "event_signature (Factory_Filter f) = ff_topic_id f"

text \<open>The ordered topic alternatives; there is always at least one.\<close>

fun topic_sets :: "event_filter \<Rightarrow> topics list" where
  "topic_sets (Address_Filter f) = sf_topics f # sf_additional_topics f"
| "topic_sets (Filter_Filter f) = sf_topics f # sf_additional_topics f"
| "topic_sets (Factory_Filter f) = [ff_topics f]"

fun filter_to_block :: "event_filter \<Rightarrow> u64" where
  "filter_to_block (Address_Filter f) = sf_next_block f"
| "filter_to_block (Filter_Filter f) = sf_next_block f"
| "filter_to_block (Factory_Filter f) = ff_next_block f"

fun filter_from_block :: "event_filter \<Rightarrow> u64" where
  "filter_from_block (Address_Filter f) = sf_current_block f"
| "filter_from_block (Filter_Filter f) = sf_current_block f"
| "filter_from_block (Factory_Filter f) = ff_current_block f"

fun set_from_block :: "u64 \<Rightarrow> event_filter \<Rightarrow> event_filter" where
  "set_from_block b (Address_Filter f) = Address_Filter (f\<lparr>sf_current_block := b\<rparr>)"
| "set_from_block b (Filter_Filter f) = Filter_Filter (f\<lparr>sf_current_block := b\<rparr>)"
| "set_from_block b (Factory_Filter f) = Factory_Filter (f\<lparr>ff_current_block := b\<rparr>)"

fun set_to_block :: "u64 \<Rightarrow> event_filter \<Rightarrow> event_filter" where
  "set_to_block b (Address_Filter f) = Address_Filter (f\<lparr>sf_next_block := b\<rparr>)"
| "set_to_block b (Filter_Filter f) = Filter_Filter (f\<lparr>sf_next_block := b\<rparr>)"
| "set_to_block b (Factory_Filter f) = Factory_Filter (f\<lparr>ff_next_block := b\<rparr>)"

definition simple_contract_address :: "simple_event_filter \<Rightarrow> address list option" where
  "simple_contract_address f = map_option (\<lambda>a. remdups (values_of a)) (sf_address f)"

text \<open>The lookup of the contracts a factory has deployed; the code panics when it fails.\<close>

type_synonym ('w, 'e) factory_lookup = "factory_filter \<Rightarrow> string list \<Rightarrow> ('w, 'e, address list option) io"

definition factory_contract_address :: "('w, 'e) factory_lookup \<Rightarrow> factory_filter \<Rightarrow> ('w, 'e, address list option) io" where
  "factory_contract_address known f =
     io_bind (known f (values_of (ff_factory_input_name f))) (\<lambda>found. io_ret (map_option remdups found))"

fun contract_addresses :: "('w, 'e) factory_lookup \<Rightarrow> event_filter \<Rightarrow> ('w, 'e, address list option) io" where
  "contract_addresses known (Address_Filter f) = io_ret (simple_contract_address f)"
| "contract_addresses known (Filter_Filter f) = io_ret (simple_contract_address f)"
| "contract_addresses known (Factory_Filter f) = factory_contract_address known f"

lemma filter_blocks [simp]:
  "filter_from_block (set_from_block b f) = b" "filter_to_block (set_from_block b f) = filter_to_block f"
  "filter_from_block (set_to_block b f) = filter_from_block f" "filter_to_block (set_to_block b f) = b"
  by (cases f; simp)+

lemma filter_other_fields [simp]:
  "event_signature (set_from_block b f) = event_signature f" "topic_sets (set_from_block b f) = topic_sets f"
  "event_signature (set_to_block b f) = event_signature f" "topic_sets (set_to_block b f) = topic_sets f"
  by (cases f; simp)+

lemma contract_addresses_distinct: "io_ensures (\<lambda>a. \<forall>as. a = Some as \<longrightarrow> distinct as) (contract_addresses known f)"
  by (cases f) (auto simp: io_ensures_def simple_contract_address_def factory_contract_address_def io_bind_eq_Inr)

section \<open>Which events the alternatives ask for\<close>

text \<open>The values of the topics of a log, without its signature.\<close>

definition topics_match :: "topics \<Rightarrow> b256 list \<Rightarrow> bool" where
  "topics_match = (\<lambda>(_, t1, t2, t3) values.
     \<forall>(i, t) \<in> {(0, t1), (1, t2), (2, t3)}. t = [] \<or> i < length values \<and> values ! i \<in> set t)"

lemma topics_match_none [simp]: "topics_match no_topics values"
  by (simp add: topics_match_def no_topics_def)

definition alternatives :: "string \<Rightarrow> event_input_indexed_filters list option \<Rightarrow> event_input_indexed_filters list" where
  "alternatives event_name fs = filter (\<lambda>f. ix_event_name f = event_name) (case fs of Some fs \<Rightarrow> fs | None \<Rightarrow> [])"

text \<open>A filter over all contracts asks for the events of every alternative given for the event, and for all
  events when none is given.\<close>

theorem filter_covers_alternatives:
  "(\<exists>t\<in>set (topic_sets (new_filter parse_topic topic_id event_name details a b)). topics_match t values) \<longleftrightarrow>
     alternatives event_name (fd_indexed_filters details) = [] \<or>
     (\<exists>f\<in>set (alternatives event_name (fd_indexed_filters details)). topics_match (topics_of parse_topic f) values)"
  unfolding new_filter_def Let_def alternatives_def [symmetric]
  by (cases "alternatives event_name (fd_indexed_filters details)") auto

text \<open>C40: For contracts given by address only the first alternative of the event counts: what any later one
  asks for is not requested.\<close>

theorem address_filter_keeps_first_alternative:
  assumes "alternatives event_name (ad_indexed_filters details) = f # fs"
  shows "(\<exists>t\<in>set (topic_sets (new_address_filter parse_topic topic_id event_name details a b)). topics_match t values) \<longleftrightarrow>
    topics_match (topics_of parse_topic f) values"
proof -
  have "find P xs = (case filter P xs of [] \<Rightarrow> None | y # _ \<Rightarrow> Some y)" for P and xs :: "event_input_indexed_filters list"
    by (induction xs) auto
  with assms have "(case ad_indexed_filters details of
      Some xs \<Rightarrow> find (\<lambda>n. ix_event_name n = event_name) xs | None \<Rightarrow> None) = Some f"
    by (cases "ad_indexed_filters details") (auto simp: alternatives_def)
  then show ?thesis by (simp add: new_address_filter_def)
qed

definition two_senders :: "event_input_indexed_filters list" where
  "two_senders = [\<lparr>ix_event_name = ''Transfer'', ix_indexed_1 = Some [''1''], ix_indexed_2 = None, ix_indexed_3 = None\<rparr>,
     \<lparr>ix_event_name = ''Transfer'', ix_indexed_1 = Some [''2''], ix_indexed_2 = None, ix_indexed_3 = None\<rparr>]"

theorem address_filter_keeps_first_alternative_witness:
  "\<not> (\<exists>t\<in>set (topic_sets (new_address_filter (\<lambda>s. of_nat (read_nat s)) 7 ''Transfer''
        \<lparr>ad_address = Value_Of 5, ad_indexed_filters = Some two_senders\<rparr> 0 9)). topics_match t [2])"
  using address_filter_keeps_first_alternative [of "''Transfer''"
      "\<lparr>ad_address = Value_Of 5, ad_indexed_filters = Some two_senders\<rparr>"
      "hd two_senders" "tl two_senders" "\<lambda>s. of_nat (read_nat s)" 7 0 9 "[2]"]
  by (simp add: alternatives_def two_senders_def topics_match_def topics_of_def read_nat_def digit_value_def)

end
