(* ===== verification/Adaptive_Concurrency.thy ===== *)
theory Adaptive_Concurrency
  imports Prelude
begin

text \<open>
  \<open>core/src/adaptive_concurrency.rs\<close>: the controller that every RPC caller reports to. It is shared by all
  tasks and holds no lock: a call is a sequence of atomic loads, stores, additions and compare-and-exchange
  operations on single cells, and calls of different tasks interleave between any two of them. \<open>ac_step\<close> is
  one such operation of one call, \<open>ac_system\<close> the interleavings; \<open>record_success\<close>, \<open>record_rate_limit\<close> and
  \<open>record_error\<close> are what a call does when nothing comes between. The orderings are relaxed, so a task may see
  old values of other cells; every statement below about a bound is about one cell, whose operations are
  totally ordered. Log lines are left out.
\<close>

section \<open>The controller\<close>

record adaptive_concurrency =
  ac_current :: nat
  ac_min :: nat
  ac_max :: nat
  ac_successes :: nat
  ac_scale_up_threshold :: nat
  ac_backoff_ms :: nat
  ac_max_backoff_ms :: nat
  ac_batch_size :: nat
  ac_min_batch_size :: nat
  ac_max_batch_size :: nat
  ac_rate_limit_count :: nat

definition ac_new :: "nat \<Rightarrow> nat \<Rightarrow> nat \<Rightarrow> adaptive_concurrency" where
  "ac_new initial lo hi =
     \<lparr>ac_current = initial, ac_min = lo, ac_max = hi, ac_successes = 0, ac_scale_up_threshold = 10,
      ac_backoff_ms = 0, ac_max_backoff_ms = 30000, ac_batch_size = 50, ac_min_batch_size = 5,
      ac_max_batch_size = 100, ac_rate_limit_count = 0\<rparr>"

text \<open>The controller all RPC calls share.\<close>

definition adaptive_concurrency_global :: adaptive_concurrency where
  "adaptive_concurrency_global = ac_new 20 2 200"

definition fetch_add_1 :: "nat \<Rightarrow> nat" where
  "fetch_add_1 x = (x + 1) mod 2 ^ 64"

definition compare_exchange :: "nat \<Rightarrow> nat \<Rightarrow> nat \<Rightarrow> nat" where
  "compare_exchange expected new_value cell = (if cell = expected then new_value else cell)"

section \<open>The values a call computes\<close>

definition reduced_backoff :: "nat \<Rightarrow> nat" where
  "reduced_backoff b = b * 3 div 4"

definition increased_backoff :: "adaptive_concurrency \<Rightarrow> nat \<Rightarrow> nat" where
  "increased_backoff a b = (if b = 0 then 500 else min (ac_max_backoff_ms a) (b * 2))"

definition scaled_up :: "adaptive_concurrency \<Rightarrow> nat \<Rightarrow> nat" where
  "scaled_up a c = min (ac_max a) (c + max 1 (c div 5))"

definition scaled_up_batch :: "adaptive_concurrency \<Rightarrow> nat \<Rightarrow> nat" where
  "scaled_up_batch a b = min (ac_max_batch_size a) (b + max 5 (b div 5))"

definition halved :: "adaptive_concurrency \<Rightarrow> nat \<Rightarrow> nat" where
  "halved a c = max (ac_min a) (c div 2)"

definition halved_batch :: "adaptive_concurrency \<Rightarrow> nat \<Rightarrow> nat" where
  "halved_batch a b = max (ac_min_batch_size a) (b div 2)"

definition scaled_down :: "adaptive_concurrency \<Rightarrow> nat \<Rightarrow> nat" where
  "scaled_down a c = max (ac_min a) (c - max 1 (c div 10))"

section \<open>The three reports, uninterrupted\<close>

definition record_success :: "adaptive_concurrency \<Rightarrow> adaptive_concurrency" where
  "record_success a =
     (let a = (if 0 < ac_backoff_ms a then a\<lparr>ac_backoff_ms := reduced_backoff (ac_backoff_ms a)\<rparr> else a);
          a = a\<lparr>ac_successes := fetch_add_1 (ac_successes a)\<rparr>
      in if ac_scale_up_threshold a \<le> ac_successes a
         then (let a = a\<lparr>ac_successes := 0\<rparr>;
                   a = (if ac_current a < ac_max a then a\<lparr>ac_current := scaled_up a (ac_current a)\<rparr> else a)
               in if ac_batch_size a < ac_max_batch_size a
                  then a\<lparr>ac_batch_size := scaled_up_batch a (ac_batch_size a)\<rparr> else a)
         else a)"

definition record_rate_limit :: "adaptive_concurrency \<Rightarrow> adaptive_concurrency" where
  "record_rate_limit a =
     (let a = a\<lparr>ac_successes := 0, ac_rate_limit_count := fetch_add_1 (ac_rate_limit_count a)\<rparr>;
          a = a\<lparr>ac_backoff_ms := increased_backoff a (ac_backoff_ms a)\<rparr>;
          a = a\<lparr>ac_batch_size := halved_batch a (ac_batch_size a)\<rparr>
      in if ac_min a < ac_current a then a\<lparr>ac_current := halved a (ac_current a)\<rparr> else a)"

definition record_error :: "adaptive_concurrency \<Rightarrow> adaptive_concurrency" where
  "record_error a =
     (let a = a\<lparr>ac_successes := 0\<rparr>
      in if ac_min a < ac_current a then a\<lparr>ac_current := scaled_down a (ac_current a)\<rparr> else a)"

section \<open>One atomic operation of a call\<close>

text \<open>Where a call is; the argument is the value it has loaded.\<close>

datatype ac_call =
  Success_Load_Backoff | Success_Set_Backoff nat | Success_Count | Success_Reset
| Success_Load_Current | Success_Set_Current nat | Success_Load_Batch | Success_Set_Batch nat
| Limit_Reset | Limit_Count | Limit_Load_Backoff | Limit_Set_Backoff nat
| Limit_Load_Batch | Limit_Set_Batch nat | Limit_Load_Current | Limit_Set_Current nat
| Error_Reset | Error_Load_Current | Error_Set_Current nat
| Returned

fun ac_step :: "ac_call \<Rightarrow> adaptive_concurrency \<Rightarrow> ac_call \<times> adaptive_concurrency" where
  "ac_step Success_Load_Backoff a =
     (if 0 < ac_backoff_ms a then Success_Set_Backoff (ac_backoff_ms a) else Success_Count, a)"
| "ac_step (Success_Set_Backoff b) a =
     (Success_Count, a\<lparr>ac_backoff_ms := compare_exchange b (reduced_backoff b) (ac_backoff_ms a)\<rparr>)"
| "ac_step Success_Count a =
     (if ac_scale_up_threshold a \<le> fetch_add_1 (ac_successes a) then Success_Reset else Returned,
      a\<lparr>ac_successes := fetch_add_1 (ac_successes a)\<rparr>)"
| "ac_step Success_Reset a = (Success_Load_Current, a\<lparr>ac_successes := 0\<rparr>)"
| "ac_step Success_Load_Current a =
     (if ac_current a < ac_max a then Success_Set_Current (ac_current a) else Success_Load_Batch, a)"
| "ac_step (Success_Set_Current c) a =
     (Success_Load_Batch, a\<lparr>ac_current := compare_exchange c (scaled_up a c) (ac_current a)\<rparr>)"
| "ac_step Success_Load_Batch a =
     (if ac_batch_size a < ac_max_batch_size a then Success_Set_Batch (ac_batch_size a) else Returned, a)"
| "ac_step (Success_Set_Batch b) a =
     (Returned, a\<lparr>ac_batch_size := compare_exchange b (scaled_up_batch a b) (ac_batch_size a)\<rparr>)"
| "ac_step Limit_Reset a = (Limit_Count, a\<lparr>ac_successes := 0\<rparr>)"
| "ac_step Limit_Count a = (Limit_Load_Backoff, a\<lparr>ac_rate_limit_count := fetch_add_1 (ac_rate_limit_count a)\<rparr>)"
| "ac_step Limit_Load_Backoff a = (Limit_Set_Backoff (ac_backoff_ms a), a)"
| "ac_step (Limit_Set_Backoff b) a =
     (Limit_Load_Batch, a\<lparr>ac_backoff_ms := compare_exchange b (increased_backoff a b) (ac_backoff_ms a)\<rparr>)"
| "ac_step Limit_Load_Batch a = (Limit_Set_Batch (ac_batch_size a), a)"
| "ac_step (Limit_Set_Batch b) a =
     (Limit_Load_Current, a\<lparr>ac_batch_size := compare_exchange b (halved_batch a b) (ac_batch_size a)\<rparr>)"
| "ac_step Limit_Load_Current a =
     (if ac_min a < ac_current a then Limit_Set_Current (ac_current a) else Returned, a)"
| "ac_step (Limit_Set_Current c) a =
     (Returned, a\<lparr>ac_current := compare_exchange c (halved a c) (ac_current a)\<rparr>)"
| "ac_step Error_Reset a = (Error_Load_Current, a\<lparr>ac_successes := 0\<rparr>)"
| "ac_step Error_Load_Current a =
     (if ac_min a < ac_current a then Error_Set_Current (ac_current a) else Returned, a)"
| "ac_step (Error_Set_Current c) a =
     (Returned, a\<lparr>ac_current := compare_exchange c (scaled_down a c) (ac_current a)\<rparr>)"
| "ac_step Returned a = (Returned, a)"

section \<open>Interleavings\<close>

text \<open>The calls in progress; at any moment a new call may start or one of them take its next operation.\<close>

inductive ac_system :: "adaptive_concurrency \<times> ac_call list \<Rightarrow> adaptive_concurrency \<times> ac_call list \<Rightarrow> bool" where
  start: "c \<in> {Success_Load_Backoff, Limit_Reset, Error_Reset} \<Longrightarrow> ac_system (a, cs) (a, cs @ [c])"
| operation: "i < length cs \<Longrightarrow> ac_step (cs ! i) a = (c', a') \<Longrightarrow> ac_system (a, cs) (a', cs[i := c'])"

definition ac_reachable :: "adaptive_concurrency \<Rightarrow> adaptive_concurrency \<times> ac_call list \<Rightarrow> bool" where
  "ac_reachable a s = ac_system\<^sup>*\<^sup>* (a, []) s"

fun ac_steps :: "nat \<Rightarrow> ac_call \<times> adaptive_concurrency \<Rightarrow> ac_call \<times> adaptive_concurrency" where
  "ac_steps 0 s = s"
| "ac_steps (Suc n) (c, a) = ac_steps n (ac_step c a)"

section \<open>Bounds under any interleaving\<close>

definition ac_config :: "adaptive_concurrency \<Rightarrow> nat list" where
  "ac_config a = [ac_min a, ac_max a, ac_scale_up_threshold a, ac_max_backoff_ms a, ac_min_batch_size a, ac_max_batch_size a]"

definition ac_bounded :: "adaptive_concurrency \<Rightarrow> bool" where
  "ac_bounded a = (ac_min a \<le> ac_current a \<and> ac_current a \<le> ac_max a \<and> 500 \<le> ac_max_backoff_ms a \<and>
     ac_backoff_ms a \<le> ac_max_backoff_ms a \<and>
     ac_min_batch_size a \<le> ac_batch_size a \<and> ac_batch_size a \<le> ac_max_batch_size a)"

text \<open>What a call in progress has loaded was within the bounds when it was loaded, and these never change.\<close>

fun loaded_ok :: "adaptive_concurrency \<Rightarrow> ac_call \<Rightarrow> bool" where
  "loaded_ok a (Success_Set_Backoff b) = (b \<le> ac_max_backoff_ms a)"
| "loaded_ok a (Limit_Set_Backoff b) = (b \<le> ac_max_backoff_ms a)"
| "loaded_ok a (Success_Set_Current c) = (ac_min a \<le> c \<and> c \<le> ac_max a)"
| "loaded_ok a (Limit_Set_Current c) = (ac_min a \<le> c \<and> c \<le> ac_max a)"
| "loaded_ok a (Error_Set_Current c) = (ac_min a \<le> c \<and> c \<le> ac_max a)"
| "loaded_ok a (Success_Set_Batch b) = (ac_min_batch_size a \<le> b \<and> b \<le> ac_max_batch_size a)"
| "loaded_ok a (Limit_Set_Batch b) = (ac_min_batch_size a \<le> b \<and> b \<le> ac_max_batch_size a)"
| "loaded_ok a _ = True"

lemmas ac_value_defs = reduced_backoff_def increased_backoff_def scaled_up_def scaled_up_batch_def halved_def
  halved_batch_def scaled_down_def compare_exchange_def

lemma loaded_ok_config: "ac_config a = ac_config b \<Longrightarrow> loaded_ok a c = loaded_ok b c"
  by (cases c) (simp_all add: ac_config_def)

lemma ac_step_bounded:
  assumes "ac_step c a = (c', a')" and "ac_bounded a" and "loaded_ok a c"
  shows "ac_bounded a' \<and> loaded_ok a' c' \<and> ac_config a' = ac_config a"
  using assms
  by (cases c) (auto simp: ac_bounded_def ac_config_def ac_value_defs split: if_splits)

lemma ac_system_bounded:
  assumes "ac_system s t" and "ac_bounded (fst s)" and "list_all (loaded_ok (fst s)) (snd s)"
  shows "ac_bounded (fst t) \<and> list_all (loaded_ok (fst t)) (snd t) \<and> ac_config (fst t) = ac_config (fst s)"
  using assms
proof (cases rule: ac_system.cases)
  case (start c a cs)
  with assms show ?thesis by auto
next
  case (operation i cs a c' a')
  with assms have "loaded_ok a (cs ! i)" by (simp add: list_all_length)
  with operation assms have "ac_bounded a'" "loaded_ok a' c'" "ac_config a' = ac_config a"
    using ac_step_bounded [of "cs ! i" a c' a'] by simp_all
  moreover from this(3) have "loaded_ok a' d = loaded_ok a d" for d by (rule loaded_ok_config)
  ultimately show ?thesis
    using operation assms by (auto simp: list_all_length nth_list_update)
qed

lemma ac_reachable_bounded:
  assumes "ac_reachable a s" and "ac_bounded a"
  shows "ac_bounded (fst s) \<and> list_all (loaded_ok (fst s)) (snd s) \<and> ac_config (fst s) = ac_config a"
  using assms(1) unfolding ac_reachable_def
proof (induction rule: rtranclp_induct)
  case base
  show ?case using assms(2) by simp
next
  case (step s t)
  then show ?case using ac_system_bounded [of s t] by simp
qed

text \<open>C26: However the calls of any number of tasks interleave, the shared controller stays within its
  bounds: at least 2 and at most 200 concurrent requests, 5 to 100 calls in a batch, at most 30 seconds of
  delay. A batch size read at any time is therefore never zero, which the chunking of requests relies on.\<close>

theorem controller_stays_in_bounds:
  assumes "ac_reachable adaptive_concurrency_global (a, calls)"
  shows "2 \<le> ac_current a \<and> ac_current a \<le> 200 \<and> 5 \<le> ac_batch_size a \<and> ac_batch_size a \<le> 100 \<and>
    ac_backoff_ms a \<le> 30000"
  using ac_reachable_bounded [OF assms]
  by (simp add: ac_bounded_def ac_config_def adaptive_concurrency_global_def ac_new_def)

section \<open>A call that nothing interrupts\<close>

lemma ac_steps_8: "ac_steps 8 s = ac_steps (Suc (Suc (Suc (Suc (Suc (Suc (Suc (Suc 0)))))))) s"
  by (simp add: eval_nat_numeral)

lemma uninterrupted_success: "ac_steps 8 (Success_Load_Backoff, a) = (Returned, record_success a)"
  unfolding ac_steps_8 record_success_def Let_def
  by (cases "0 < ac_backoff_ms a"; cases "ac_scale_up_threshold a \<le> fetch_add_1 (ac_successes a)";
      cases "ac_current a < ac_max a"; cases "ac_batch_size a < ac_max_batch_size a")
    (simp_all add: compare_exchange_def scaled_up_def scaled_up_batch_def)

lemma uninterrupted_rate_limit: "ac_steps 8 (Limit_Reset, a) = (Returned, record_rate_limit a)"
  unfolding ac_steps_8 record_rate_limit_def Let_def
  by (simp add: compare_exchange_def increased_backoff_def halved_def halved_batch_def)

lemma uninterrupted_error: "ac_steps 8 (Error_Reset, a) = (Returned, record_error a)"
  unfolding ac_steps_8 record_error_def Let_def
  by (simp add: compare_exchange_def scaled_down_def)

text \<open>A report that no other call interleaves with has exactly the effect of its sequential body; the
  small steps leave nothing of a call out.\<close>

theorem uninterrupted_calls:
  "ac_steps 8 (Success_Load_Backoff, a) = (Returned, record_success a) \<and>
   ac_steps 8 (Limit_Reset, a) = (Returned, record_rate_limit a) \<and>
   ac_steps 8 (Error_Reset, a) = (Returned, record_error a)"
  by (simp add: uninterrupted_success uninterrupted_rate_limit uninterrupted_error)

section \<open>Recovery\<close>

lemma record_success_config [simp]:
  "ac_min (record_success a) = ac_min a" "ac_max (record_success a) = ac_max a"
  "ac_scale_up_threshold (record_success a) = ac_scale_up_threshold a"
  "ac_max_backoff_ms (record_success a) = ac_max_backoff_ms a"
  "ac_min_batch_size (record_success a) = ac_min_batch_size a"
  "ac_max_batch_size (record_success a) = ac_max_batch_size a"
  by (simp_all add: record_success_def Let_def)

lemma record_success_backoff: "ac_backoff_ms (record_success a) = reduced_backoff (ac_backoff_ms a)"
  by (simp add: record_success_def Let_def reduced_backoff_def)

lemma record_success_counts:
  "ac_successes (record_success a) =
     (let s = fetch_add_1 (ac_successes a) in if ac_scale_up_threshold a \<le> s then 0 else s)"
  by (simp add: record_success_def Let_def)

lemma record_success_scales:
  "ac_current a \<le> ac_max a \<Longrightarrow> ac_current (record_success a) =
     (if ac_scale_up_threshold a \<le> fetch_add_1 (ac_successes a) then scaled_up a (ac_current a) else ac_current a)"
  "ac_batch_size a \<le> ac_max_batch_size a \<Longrightarrow> ac_batch_size (record_success a) =
     (if ac_scale_up_threshold a \<le> fetch_add_1 (ac_successes a) then scaled_up_batch a (ac_batch_size a) else ac_batch_size a)"
  by (auto simp: record_success_def Let_def scaled_up_def scaled_up_batch_def)

lemma scaled_up_max: "c \<le> ac_max a \<Longrightarrow> (scaled_up a ^^ m) c \<le> ac_max a"
  by (induction m) (simp_all add: scaled_up_def)

lemma scaled_up_batch_max: "b \<le> ac_max_batch_size a \<Longrightarrow> (scaled_up_batch a ^^ m) b \<le> ac_max_batch_size a"
  by (induction m) (simp_all add: scaled_up_batch_def)

lemma scaled_up_record_success [simp]:
  "scaled_up ((record_success ^^ n) a) = scaled_up a" "scaled_up_batch ((record_success ^^ n) a) = scaled_up_batch a"
  by (induction n) (simp_all add: fun_eq_iff scaled_up_def scaled_up_batch_def)

lemma successes_config [simp]:
  "ac_max ((record_success ^^ n) a) = ac_max a" "ac_max_batch_size ((record_success ^^ n) a) = ac_max_batch_size a"
  "ac_scale_up_threshold ((record_success ^^ n) a) = ac_scale_up_threshold a"
  by (induction n) simp_all

lemma fetch_add_1_small: "s < 10 \<Longrightarrow> fetch_add_1 s = Suc s"
  by (simp add: fetch_add_1_def)

text \<open>Every tenth success climbs one step.\<close>

lemma successes_climb:
  assumes "ac_scale_up_threshold a = 10" and "ac_successes a < 10"
    and "ac_current a \<le> ac_max a" and "ac_batch_size a \<le> ac_max_batch_size a"
  shows "ac_successes ((record_success ^^ n) a) = (ac_successes a + n) mod 10 \<and>
    ac_backoff_ms ((record_success ^^ n) a) = (reduced_backoff ^^ n) (ac_backoff_ms a) \<and>
    ac_current ((record_success ^^ n) a) = (scaled_up a ^^ ((ac_successes a + n) div 10)) (ac_current a) \<and>
    ac_batch_size ((record_success ^^ n) a) = (scaled_up_batch a ^^ ((ac_successes a + n) div 10)) (ac_batch_size a)"
proof (induction n)
  case 0
  show ?case using assms(2) by simp
next
  case (Suc n)
  let ?b = "(record_success ^^ n) a"
  let ?s = "ac_successes a + n"
  have small: "?s mod 10 < 10" by simp
  have bounds: "ac_current ?b \<le> ac_max ?b" "ac_batch_size ?b \<le> ac_max_batch_size ?b"
    using Suc assms(3,4) by (simp_all add: scaled_up_max scaled_up_batch_max)
  show ?case
  proof (cases "?s mod 10 = 9")
    case True
    then have "Suc ?s mod 10 = 0" "Suc ?s div 10 = Suc (?s div 10)" by (simp_all add: mod_Suc div_Suc)
    then show ?thesis
      using True Suc assms(1) record_success_scales(1) [OF bounds(1)] record_success_scales(2) [OF bounds(2)]
      by (simp add: record_success_backoff record_success_counts fetch_add_1_small)
  next
    case False
    then have "Suc ?s mod 10 = Suc (?s mod 10)" "Suc ?s div 10 = ?s div 10" "Suc (?s mod 10) < 10"
      using small by (simp_all add: mod_Suc div_Suc)
    then show ?thesis
      using Suc assms(1) record_success_scales(1) [OF bounds(1)] record_success_scales(2) [OF bounds(2)]
      by (simp add: record_success_backoff record_success_counts fetch_add_1_small)
  qed
qed

text \<open>Every controller starts its climb no lower than the slowest one.\<close>

lemma scaled_up_between: "c \<le> ac_max a \<Longrightarrow> c \<le> scaled_up a c \<and> scaled_up a c \<le> ac_max a"
  and scaled_up_batch_between: "b \<le> ac_max_batch_size a \<Longrightarrow> b \<le> scaled_up_batch a b \<and> scaled_up_batch a b \<le> ac_max_batch_size a"
  by (simp_all add: scaled_up_def scaled_up_batch_def)

lemma reduced_backoff_mono: "a \<le> b \<Longrightarrow> (reduced_backoff ^^ j) a \<le> (reduced_backoff ^^ j) b"
  by (induction j) (auto simp: reduced_backoff_def intro!: div_le_mono)

lemma scaled_up_mono: "x \<le> y \<Longrightarrow> (scaled_up a ^^ j) x \<le> (scaled_up a ^^ j) y"
proof (induction j)
  case (Suc j)
  then have "(scaled_up a ^^ j) x div 5 \<le> (scaled_up a ^^ j) y div 5" by (simp add: div_le_mono)
  with Suc show ?case by (auto simp: scaled_up_def)
qed simp

lemma scaled_up_batch_mono: "x \<le> y \<Longrightarrow> (scaled_up_batch a ^^ j) x \<le> (scaled_up_batch a ^^ j) y"
proof (induction j)
  case (Suc j)
  then have "(scaled_up_batch a ^^ j) x div 5 \<le> (scaled_up_batch a ^^ j) y div 5" by (simp add: div_le_mono)
  with Suc show ?case by (auto simp: scaled_up_batch_def)
qed simp

lemma funpow_fixed: "f x = x \<Longrightarrow> (f ^^ j) x = x"
  by (induction j) simp_all

lemma funpow_numeral_step: "(f ^^ numeral k) x = (f ^^ pred_numeral k) (f x)"
  by (simp add: numeral_eq_Suc funpow_swap1)

lemma slowest_climb:
  assumes "ac_max a = 200" and "ac_max_batch_size a = 100"
  shows "26 \<le> m \<Longrightarrow> (scaled_up a ^^ m) 2 = 200" and "12 \<le> m \<Longrightarrow> (scaled_up_batch a ^^ m) 5 = 100"
    and "42 \<le> m \<Longrightarrow> (reduced_backoff ^^ m) 30000 = 0"
proof -
  have "((\<lambda>c. min 200 (c + max 1 (c div 5))) ^^ 26) (2::nat) = 200"
    "((\<lambda>b. min 100 (b + max 5 (b div 5))) ^^ 12) (5::nat) = 100" "(reduced_backoff ^^ 42) 30000 = 0"
    by (simp_all add: funpow_numeral_step reduced_backoff_def)
  then have "(scaled_up a ^^ 26) 2 = 200" "(scaled_up_batch a ^^ 12) 5 = 100" "(reduced_backoff ^^ 42) 30000 = 0"
    using assms by (simp_all add: scaled_up_def [abs_def] scaled_up_batch_def [abs_def])
  then show "26 \<le> m \<Longrightarrow> (scaled_up a ^^ m) 2 = 200" "12 \<le> m \<Longrightarrow> (scaled_up_batch a ^^ m) 5 = 100"
    "42 \<le> m \<Longrightarrow> (reduced_backoff ^^ m) 30000 = 0"
    using funpow_add [of "m - 26" 26 "scaled_up a"] funpow_add [of "m - 12" 12 "scaled_up_batch a"]
      funpow_add [of "m - 42" 42 reduced_backoff] assms
    by (simp_all add: funpow_fixed scaled_up_def scaled_up_batch_def reduced_backoff_def)
qed

text \<open>C27: Whatever rate limits and errors the controller has seen, 300 successes in a row bring it back: the
  delay is gone, and concurrency and batch size are at their maxima, where further successes keep them.\<close>

theorem controller_recovers:
  assumes "ac_reachable adaptive_concurrency_global (a, calls)" and "300 \<le> n"
  shows "ac_backoff_ms ((record_success ^^ n) a) = 0 \<and> ac_current ((record_success ^^ n) a) = 200 \<and>
    ac_batch_size ((record_success ^^ n) a) = 100"
proof -
  let ?a = "record_success a"
  obtain m where m: "n = Suc m" "299 \<le> m" using assms(2) by (cases n) auto
  have config: "ac_config a = ac_config adaptive_concurrency_global" and "ac_bounded a"
    using ac_reachable_bounded [OF assms(1)]
    by (simp_all add: ac_bounded_def ac_config_def adaptive_concurrency_global_def ac_new_def)
  then have c: "ac_min a = 2" "ac_max a = 200" "ac_scale_up_threshold a = 10" "ac_max_batch_size a = 100"
    "2 \<le> ac_current a" "ac_current a \<le> 200" "5 \<le> ac_batch_size a" "ac_batch_size a \<le> 100" "ac_backoff_ms a \<le> 30000"
    by (simp_all add: ac_bounded_def ac_config_def adaptive_concurrency_global_def ac_new_def)
  then have first: "ac_scale_up_threshold ?a = 10" "ac_successes ?a < 10" "ac_current ?a \<le> ac_max ?a"
    "2 \<le> ac_current ?a" "ac_batch_size ?a \<le> ac_max_batch_size ?a" "5 \<le> ac_batch_size ?a" "ac_backoff_ms ?a \<le> 30000"
    using record_success_scales [of a] scaled_up_between [of "ac_current a" a]
      scaled_up_batch_between [of "ac_batch_size a" a]
    by (auto simp: record_success_counts record_success_backoff reduced_backoff_def Let_def)
  let ?k = "(ac_successes ?a + m) div 10"
  have k: "26 \<le> ?k" "12 \<le> ?k" "42 \<le> m" using m(2) by simp_all
  have up: "scaled_up ?a = scaled_up a" "scaled_up_batch ?a = scaled_up_batch a"
    using scaled_up_record_success [of 1 a] by simp_all
  have "(scaled_up a ^^ ?k) (ac_current ?a) = 200"
    using scaled_up_mono [OF first(4), of ?k a] slowest_climb(1) [OF c(2,4) k(1)] scaled_up_max [of "ac_current ?a" a ?k]
      first(3) c(2) by simp
  moreover have "(scaled_up_batch a ^^ ?k) (ac_batch_size ?a) = 100"
    using scaled_up_batch_mono [OF first(6), of ?k a] slowest_climb(2) [OF c(2,4) k(2)]
      scaled_up_batch_max [of "ac_batch_size ?a" a ?k] first(5) c(4) by simp
  moreover have "(reduced_backoff ^^ m) (ac_backoff_ms ?a) = 0"
    using reduced_backoff_mono [OF first(7), of m] slowest_climb(3) [OF c(2,4) k(3)] by simp
  moreover have "(record_success ^^ n) a = (record_success ^^ m) ?a" unfolding m(1) by (simp add: funpow_swap1)
  ultimately show ?thesis
    using successes_climb [OF first(1,2,3,5), of m] by (simp add: up)
qed

lemma limit_reported:
  "ac_reachable adaptive_concurrency_global (adaptive_concurrency_global, [Limit_Reset])"
  unfolding ac_reachable_def by (rule r_into_rtranclp) (use ac_system.start [of Limit_Reset _ "[]"] in simp)

theorem controller_recovers_witness:
  "ac_current ((record_success ^^ 300) adaptive_concurrency_global) = 200"
  using controller_recovers [OF limit_reported, of 300] by simp

theorem controller_stays_in_bounds_witness: "5 \<le> ac_batch_size adaptive_concurrency_global"
  using controller_stays_in_bounds [OF limit_reported] by simp

end
