(* ===== verification/Provider.thy ===== *)
theory Provider
  imports Event_Filter Adaptive_Concurrency "HOL-Library.Product_Lexorder"
begin

text \<open>
  \<open>core/src/provider.rs\<close>: what \<open>JsonRpcCachedProvider\<close> makes of the answers of a node: batches of block and
  receipt requests, log queries split over addresses and topic alternatives, the cache of the latest block,
  the flattening of call traces. The node itself is a record of calls. Futures that are joined run in list
  order; spawned ones run all of them, the others up to the first error. A panic is the error \<open>Provider_Panic\<close>.
  Metrics, log lines and the semaphore of a batch are left out.
\<close>

text \<open>A failed request carries its text and, when the node answered with a JSON-RPC error, that error's message
  and data.\<close>

datatype provider_error =
  Request_Failed string "(string \<times> string option) option"
| Batch_Request_Failed string | Serialization_Error string | Custom_Error string
| Provider_Panic string

fun provider_error_text :: "provider_error \<Rightarrow> string" where
  "provider_error_text (Request_Failed e _) = ''Failed to make rpc request: '' @ e"
| "provider_error_text (Batch_Request_Failed e) = ''Failed to make batched rpc request: '' @ e"
| "provider_error_text (Serialization_Error e) = ''Failed to serialize rpc request data: '' @ e"
| "provider_error_text (Custom_Error e) = ''Unknown error: '' @ e"
| "provider_error_text (Provider_Panic e) = e"

section \<open>Joining\<close>

fun try_join_all :: "('w, 'e, 'a) io list \<Rightarrow> ('w, 'e, 'a list) io" where
  "try_join_all [] = io_ret []"
| "try_join_all (m # ms) = io_bind m (\<lambda>x. io_bind (try_join_all ms) (\<lambda>xs. io_ret (x # xs)))"

text \<open>Spawned tasks all run; the results are collected afterwards, the first error wins.\<close>

fun spawn_all :: "('w, 'e, 'a) io list \<Rightarrow> 'w \<Rightarrow> ('e + 'a) list \<times> 'w" where
  "spawn_all [] w = ([], w)"
| "spawn_all (m # ms) w = (let (r, w1) = m w; (rs, w2) = spawn_all ms w1 in (r # rs, w2))"

fun collect_results :: "('e + 'a) list \<Rightarrow> 'e + 'a list" where
  "collect_results [] = Inr []"
| "collect_results (Inl e # rs) = Inl e"
| "collect_results (Inr x # rs) = (case collect_results rs of Inl e \<Rightarrow> Inl e | Inr xs \<Rightarrow> Inr (x # xs))"

definition join_spawned :: "('w, 'e, 'a) io list \<Rightarrow> ('w, 'e, 'a list) io" where
  "join_spawned ms w = (let (rs, w') = spawn_all ms w in (collect_results rs, w'))"

text \<open>\<open>slice::chunks\<close>, for a size that is not zero (it panics otherwise).\<close>

function chunks :: "nat \<Rightarrow> 'a list \<Rightarrow> 'a list list" where
  "chunks n xs = (if n = 0 \<or> xs = [] then [] else take n xs # chunks n (drop n xs))"
  by pat_completeness auto
termination by (relation "measure (\<lambda>(n, xs). length xs)") auto

declare chunks.simps [simp del]

definition with_chunks :: "nat \<Rightarrow> 'a list \<Rightarrow> ('a list list \<Rightarrow> ('w, provider_error, 'b) io) \<Rightarrow> ('w, provider_error, 'b) io" where
  "with_chunks n xs f = (if n = 0 then io_fail (Provider_Panic ''chunk size must be non-zero'') else f (chunks n xs))"

section \<open>Batches of requests\<close>

type_synonym ('w, 'k, 'b) batch_call = "'k list \<Rightarrow> ('w, provider_error, 'b list) io"

definition get_block_by_number_batch_with_size ::
  "(bool \<Rightarrow> ('w, u64, 'b option) batch_call) \<Rightarrow> adaptive_concurrency \<Rightarrow> u64 list \<Rightarrow> bool \<Rightarrow> nat option \<Rightarrow>
     ('w, provider_error, 'b list) io" where
  "get_block_by_number_batch_with_size send adaptive block_numbers include_txs rpc_batch_size =
     (let batch_size = (case rpc_batch_size of Some n \<Rightarrow> n | None \<Rightarrow> ac_batch_size adaptive) in
      if block_numbers = [] then io_ret []
      else with_chunks batch_size (remdups_adj block_numbers) (\<lambda>cs.
        io_bind (join_spawned (map (send include_txs) cs)) (\<lambda>results.
        io_ret (List.map_filter id (concat results)))))"

definition get_block_by_number_batch ::
  "(bool \<Rightarrow> ('w, u64, 'b option) batch_call) \<Rightarrow> adaptive_concurrency \<Rightarrow> u64 list \<Rightarrow> bool \<Rightarrow> ('w, provider_error, 'b list) io" where
  "get_block_by_number_batch send adaptive block_numbers include_txs =
     get_block_by_number_batch_with_size send adaptive block_numbers include_txs None"

definition rpc_chunk_size :: nat where "rpc_chunk_size = 1000"

definition get_tx_receipts_batch ::
  "('w, b256, 'r) batch_call \<Rightarrow> adaptive_concurrency \<Rightarrow> b256 list \<Rightarrow> ('w, provider_error, 'r list) io" where
  "get_tx_receipts_batch send adaptive hashes =
     (if hashes = [] then io_ret []
      else with_chunks (min rpc_chunk_size (ac_batch_size adaptive * 10)) hashes (\<lambda>cs.
        io_bind (join_spawned (map send cs)) (\<lambda>results. io_ret (concat results))))"

section \<open>Logs\<close>

record rpc_log =
  lg_address :: address
  lg_topics :: "b256 list"
  lg_data :: string
  lg_block_hash :: "b256 option"
  lg_block_number :: "u64 option"
  lg_block_timestamp :: "u64 option"
  lg_transaction_hash :: "b256 option"
  lg_transaction_index :: "u64 option"
  lg_log_index :: "u64 option"
  lg_removed :: bool

text \<open>An \<open>eth_getLogs\<close> query; an empty list of addresses asks for all.\<close>

record rpc_filter =
  rf_address :: "address list"
  rf_event_signature :: b256
  rf_topic1 :: topic
  rf_topic2 :: topic
  rf_topic3 :: topic
  rf_from_block :: u64
  rf_to_block :: u64

type_synonym 'w log_call = "rpc_filter \<Rightarrow> ('w, provider_error, rpc_log list) io"

definition log_identity :: "rpc_log \<Rightarrow> (b256 \<times> b256 \<times> u64) option" where
  "log_identity l =
     (case (lg_block_hash l, lg_transaction_hash l, lg_log_index l) of
        (Some block_hash, Some transaction_hash, Some log_index) \<Rightarrow> Some (block_hash, transaction_hash, log_index)
      | _ \<Rightarrow> None)"

definition log_order :: "rpc_log \<Rightarrow> u64 \<times> u64 \<times> u64" where
  "log_order l =
     (let or_max = (\<lambda>x. case x of Some n \<Rightarrow> n | None \<Rightarrow> - 1)
      in (or_max (lg_block_number l), or_max (lg_transaction_index l), or_max (lg_log_index l)))"

text \<open>\<open>retain\<close>: the first log of every complete identity stays, and all logs without one.\<close>

fun retain_new :: "(b256 \<times> b256 \<times> u64) list \<Rightarrow> rpc_log list \<Rightarrow> rpc_log list" where
  "retain_new seen [] = []"
| "retain_new seen (l # ls) =
     (case log_identity l of
        Some i \<Rightarrow> if i \<in> set seen then retain_new seen ls else l # retain_new (i # seen) ls
      | None \<Rightarrow> l # retain_new seen ls)"

definition merge_filter_logs :: "rpc_log list list \<Rightarrow> rpc_log list" where
  "merge_filter_logs filter_results = sort_key log_order (retain_new [] (concat filter_results))"

text \<open>\<open>chunk_hashset\<close> of \<open>helpers/array.rs\<close>; \<open>div_ceil\<close> panics for a zero size.\<close>

fun chunk_set_loop :: "nat \<Rightarrow> 'a list \<Rightarrow> 'a list \<Rightarrow> 'a list list" where
  "chunk_set_loop chunk_size current [] = (if current = [] then [] else [current])"
| "chunk_set_loop chunk_size current (item # items) =
     (let current = current @ [item] in
      if length current = chunk_size then current # chunk_set_loop chunk_size [] items
      else chunk_set_loop chunk_size current items)"

definition chunk_hashset :: "'a list \<Rightarrow> nat \<Rightarrow> provider_error + 'a list list" where
  "chunk_hashset items chunk_size =
     (if chunk_size = 0 then Inl (Provider_Panic ''attempt to divide by zero'') else Inr (chunk_set_loop chunk_size [] items))"

datatype address_filtering = In_Memory | Max_Address_Per_Get_Logs_Request nat

definition default_rpc_supported_account_filters :: nat where "default_rpc_supported_account_filters = 1000"

definition get_logs_for_address_in_batches ::
  "'w log_call \<Rightarrow> rpc_filter \<Rightarrow> address list \<Rightarrow> nat \<Rightarrow> ('w, provider_error, rpc_log list) io" where
  "get_logs_for_address_in_batches node flt addresses chunk_size =
     io_bind (io_lift (chunk_hashset addresses chunk_size)) (\<lambda>address_chunks.
     io_bind (try_join_all (map (\<lambda>chunk. node (flt\<lparr>rf_address := chunk\<rparr>)) address_chunks)) (\<lambda>chunked_logs.
     io_ret (concat chunked_logs)))"

definition get_logs_for_address_in_memory ::
  "'w log_call \<Rightarrow> rpc_filter \<Rightarrow> address list \<Rightarrow> ('w, provider_error, rpc_log list) io" where
  "get_logs_for_address_in_memory node flt addresses =
     io_bind (node flt) (\<lambda>logs. io_ret (filter (\<lambda>l. lg_address l \<in> set addresses) logs))"

definition filter_of :: "event_filter \<Rightarrow> topics \<Rightarrow> rpc_filter" where
  "filter_of f = (\<lambda>(_, t1, t2, t3).
     \<lparr>rf_address = [], rf_event_signature = event_signature f, rf_topic1 = t1, rf_topic2 = t2, rf_topic3 = t3,
      rf_from_block = filter_from_block f, rf_to_block = filter_to_block f\<rparr>)"

definition get_logs_for_topics ::
  "'w log_call \<Rightarrow> address_filtering option \<Rightarrow> event_filter \<Rightarrow> address list option \<Rightarrow> topics \<Rightarrow>
     ('w, provider_error, rpc_log list) io" where
  "get_logs_for_topics node filtering f addresses t =
     (case addresses of
        Some as \<Rightarrow>
          (case filtering of
             Some In_Memory \<Rightarrow> get_logs_for_address_in_memory node (filter_of f t) as
           | Some (Max_Address_Per_Get_Logs_Request chunk_size) \<Rightarrow>
               get_logs_for_address_in_batches node (filter_of f t) as chunk_size
           | None \<Rightarrow>
               get_logs_for_address_in_batches node (filter_of f t) as default_rpc_supported_account_filters)
      | None \<Rightarrow> node (filter_of f t))"

definition get_logs ::
  "'w log_call \<Rightarrow> ('w, provider_error) factory_lookup \<Rightarrow> address_filtering option \<Rightarrow> event_filter \<Rightarrow>
     ('w, provider_error, rpc_log list) io" where
  "get_logs node known filtering f =
     io_bind (contract_addresses known f) (\<lambda>addresses.
       if addresses = Some [] then io_ret []
       else io_bind (try_join_all (map (get_logs_for_topics node filtering f addresses) (topic_sets f))) (\<lambda>filter_results.
            io_ret (merge_filter_logs filter_results)))"

section \<open>The latest block\<close>

datatype block_poll_frequency = Rapid | Poll_Rate_Ms nat | Division nat | Rpc_Optimized

text \<open>Durations are nanoseconds; the hint is the chain's average block time, from \<open>alloy_chains\<close>.\<close>

definition millis :: "nat \<Rightarrow> nat" where "millis n = n * 1000000"

definition block_poll_duration :: "nat option \<Rightarrow> block_poll_frequency option \<Rightarrow> nat" where
  "block_poll_duration hint frequency =
     (case frequency of
        None \<Rightarrow> millis 50
      | Some Rapid \<Rightarrow> millis 50
      | Some (Poll_Rate_Ms ms) \<Rightarrow> millis ms
      | Some (Division divisor) \<Rightarrow>
          (case hint of Some t \<Rightarrow> if divisor = 0 then millis 50 else t div divisor | None \<Rightarrow> millis 50)
      | Some Rpc_Optimized \<Rightarrow> (case hint of Some t \<Rightarrow> max (t div 3) (millis 500) | None \<Rightarrow> millis 1000))"

text \<open>\<open>now\<close> is the clock of the world; the cache holds when the block was fetched.\<close>

definition get_latest_block ::
  "('w \<Rightarrow> nat) \<Rightarrow> ('w, provider_error, 'b option) io \<Rightarrow> nat \<Rightarrow> ((nat \<times> 'b) option \<times> 'w, provider_error, 'b option) io" where
  "get_latest_block now fetch cache_time = (\<lambda>(cache, w).
     case cache of
       Some (timestamp, block) \<Rightarrow>
         if now w - timestamp < cache_time then (Inr (Some block), (cache, w))
         else (case fetch w of
             (Inl e, w') \<Rightarrow> (Inl e, (cache, w'))
           | (Inr (Some b), w') \<Rightarrow> (Inr (Some b), (Some (now w', b), w'))
           | (Inr None, w') \<Rightarrow> (Inr None, (None, w')))
     | None \<Rightarrow>
         (case fetch w of
             (Inl e, w') \<Rightarrow> (Inl e, (cache, w'))
           | (Inr (Some b), w') \<Rightarrow> (Inr (Some b), (Some (now w', b), w'))
           | (Inr None, w') \<Rightarrow> (Inr None, (None, w'))))"

section \<open>Call traces\<close>

text \<open>A frame of the call tracer: the call, its fields, and the calls it made.\<close>

record trace_fields =
  tc_from :: address
  tc_gas :: "string option"
  tc_gas_used :: u256
  tc_to :: "address option"
  tc_error :: "string option"
  tc_input :: string
  tc_value :: u256
  tc_typ :: string

datatype trace_call = Trace_Call (call_fields: trace_fields) (calls: "trace_call list")

record call_trace =
  ct_from :: address
  ct_to :: address
  ct_value :: u256
  ct_gas :: u64
  ct_input :: string
  ct_error :: "string option"
  ct_transaction_hash :: "b256 option"
  ct_block_number :: u64

text \<open>The stack of \<open>while let Some(call) = stack.pop()\<close> has its top at the end of the list.\<close>

function flatten_stack :: "trace_call list \<Rightarrow> trace_fields list" where
  "flatten_stack stack =
     (if stack = [] then []
      else call_fields (last stack) # flatten_stack (butlast stack @ calls (last stack)))"
  by pat_completeness auto

fun trace_size :: "trace_call \<Rightarrow> nat" where
  "trace_size (Trace_Call f cs) = Suc (sum_list (map trace_size cs))"

lemma trace_size_calls: "trace_size c = Suc (sum_list (map trace_size (calls c)))"
  by (cases c) simp

termination flatten_stack
proof (relation "measure (\<lambda>stack. sum_list (map trace_size stack))")
  fix stack :: "trace_call list"
  assume "stack \<noteq> []"
  then obtain rest c where "stack = rest @ [c]" by (metis rev_exhaust)
  then show "(butlast stack @ calls (last stack), stack) \<in> measure (\<lambda>stack. sum_list (map trace_size stack))"
    by (simp add: trace_size_calls)
qed simp

declare flatten_stack.simps [simp del]

definition flattened_calls :: "(b256 option \<times> trace_call) list \<Rightarrow> (b256 option \<times> trace_fields) list" where
  "flattened_calls traces =
     concat (map (\<lambda>(tx_hash, c). (tx_hash, call_fields c) # map (Pair None) (flatten_stack (calls c))) traces)"

text \<open>\<open>gas\<close> reads the hexadecimal text of the gas field, and is zero where that fails.\<close>

definition localized_trace ::
  "(string \<Rightarrow> u64 option) \<Rightarrow> u64 \<Rightarrow> b256 option \<times> trace_fields \<Rightarrow> call_trace option" where
  "localized_trace gas block_number = (\<lambda>(tx_hash, c).
     map_option (\<lambda>to.
       \<lparr>ct_from = tc_from c, ct_to = to, ct_value = tc_value c,
        ct_gas = (case Option.bind (tc_gas c) gas of Some g \<Rightarrow> g | None \<Rightarrow> 0), ct_input = tc_input c,
        ct_error = tc_error c, ct_transaction_hash = tx_hash, ct_block_number = block_number\<rparr>) (tc_to c))"

definition debug_trace_block_by_number ::
  "(string \<Rightarrow> u64 option) \<Rightarrow> (u64 \<Rightarrow> ('w, provider_error, (b256 option \<times> trace_call) list) io) \<Rightarrow> u64 \<Rightarrow>
     ('w, provider_error, call_trace list) io" where
  "debug_trace_block_by_number gas node block_number =
     io_bind (node block_number) (\<lambda>valid_traces.
     io_ret (List.map_filter (localized_trace gas block_number) (flattened_calls valid_traces)))"

end
