(* ===== verification/Provider_Correct.thy ===== *)
theory Provider_Correct
  imports Provider Coordinator_Correct "HOL-Library.Sublist" "HOL-Library.Multiset"
begin

text \<open>
  What the provider promises: batches keep the order of the request whatever their size, which is what the
  reorg detector assumes of its node; log queries return every matching log of the chain once and in chain
  order, however they are split; call traces list every call once.
\<close>

section \<open>Joining and chunking\<close>

lemma concat_chunks: "n \<noteq> 0 \<Longrightarrow> concat (chunks n xs) = xs"
proof (induction n xs rule: chunks.induct)
  case (1 n xs)
  then show ?case by (subst chunks.simps) auto
qed

lemma chunk_sizes: "n \<noteq> 0 \<Longrightarrow> c \<in> set (chunks n xs) \<Longrightarrow> c \<noteq> [] \<and> length c \<le> n"
proof (induction n xs rule: chunks.induct)
  case (1 n xs)
  then show ?case by (subst (asm) (2) chunks.simps) (auto split: if_splits)
qed

lemma collect_results_ok [simp]: "collect_results (map Inr xs) = Inr xs"
  by (induction xs) simp_all

lemma collect_results_Inr: "collect_results rs = Inr xs \<Longrightarrow> rs = map Inr xs"
  by (induction rs arbitrary: xs rule: collect_results.induct) (auto split: sum.splits)

lemma collect_results_Inl: "collect_results rs = Inl e \<Longrightarrow> Inl e \<in> set rs"
  by (induction rs rule: collect_results.induct) (auto split: sum.splits)

lemma spawn_all_results:
  "spawn_all (map f xs) w = (rs, w') \<Longrightarrow> list_all2 (\<lambda>x r. \<exists>v v'. f x v = (r, v')) xs rs"
  by (induction xs arbitrary: w rs) (fastforce split: prod.splits)+

lemma join_spawned_Inr:
  assumes "join_spawned (map f xs) w = (Inr ys, w')"
  shows "list_all2 (\<lambda>x y. \<exists>v v'. f x v = (Inr y, v')) xs ys"
proof -
  from assms obtain rs where rs: "spawn_all (map f xs) w = (rs, w')" "collect_results rs = Inr ys"
    by (auto simp: join_spawned_def split: prod.splits)
  from collect_results_Inr [OF rs(2)] show ?thesis using spawn_all_results [OF rs(1)] by (simp add: list_all2_map2)
qed

lemma join_spawned_Inl:
  assumes "join_spawned (map f xs) w = (Inl e, w')"
  shows "\<exists>x\<in>set xs. \<exists>v v'. f x v = (Inl e, v')"
proof -
  from assms obtain rs where rs: "spawn_all (map f xs) w = (rs, w')" "collect_results rs = Inl e"
    by (auto simp: join_spawned_def split: prod.splits)
  from collect_results_Inl [OF rs(2)] obtain i where i: "i < length rs" "rs ! i = Inl e" by (auto simp: in_set_conv_nth)
  with spawn_all_results [OF rs(1)] show ?thesis by (fastforce simp: list_all2_conv_all_nth)
qed

lemma try_join_all_Inr:
  "try_join_all (map f xs) w = (Inr ys, w') \<Longrightarrow> list_all2 (\<lambda>x y. \<exists>v v'. f x v = (Inr y, v')) xs ys"
proof (induction xs arbitrary: w ys)
  case (Cons x xs)
  then obtain y v zs where "f x w = (Inr y, v)" "try_join_all (map f xs) v = (Inr zs, w')" "ys = y # zs"
    by (auto simp: io_bind_eq_Inr)
  with Cons.IH show ?case by auto
qed simp

section \<open>Batches of blocks\<close>

text \<open>The node answers each call of a batch with the block of that number, or with nothing.\<close>

definition answers_calls :: "('b \<Rightarrow> u64) \<Rightarrow> (bool \<Rightarrow> ('w, u64, 'b option) batch_call) \<Rightarrow> bool" where
  "answers_calls number send =
     (\<forall>txs ns v bs v'. send txs ns v = (Inr bs, v') \<longrightarrow> list_all2 (\<lambda>n b. \<forall>x. b = Some x \<longrightarrow> number x = n) ns bs)"

lemma map_filter_id: "List.map_filter id xs = map the (filter (\<lambda>x. x \<noteq> None) xs)"
  by (simp add: List.map_filter_def)

lemma answered_subseq:
  "list_all2 (\<lambda>n b. \<forall>x. b = Some x \<longrightarrow> number x = n) ns bs \<Longrightarrow> subseq (map number (List.map_filter id bs)) ns"
proof (induction ns bs rule: list_all2_induct)
  case (Cons n ns b bs)
  then show ?case by (cases b) (auto simp: map_filter_id)
qed (simp add: map_filter_id)

lemma list_all2_concat:
  "list_all2 (\<lambda>xs ys. list_all2 P xs ys) xss yss \<Longrightarrow> list_all2 P (concat xss) (concat yss)"
  by (induction xss yss rule: list_all2_induct) (auto intro: list_all2_appendI)

lemma subseq_remdups_adj: "subseq (remdups_adj xs) xs"
proof (induction xs rule: remdups_adj.induct)
  case (3 x y xs)
  then show ?case by (cases "x = y") (auto intro: subseq_Cons')
qed auto

lemma batch_subseq:
  assumes "answers_calls number send"
    and "get_block_by_number_batch_with_size send a ns txs sz w = (Inr bs, w')"
  shows "subseq (map number bs) ns"
proof (cases "ns = []")
  case False
  let ?n = "case sz of Some n \<Rightarrow> n | None \<Rightarrow> ac_batch_size a"
  from assms(2) False obtain results where n: "?n \<noteq> 0"
    and join: "join_spawned (map (send txs) (chunks ?n (remdups_adj ns))) w = (Inr results, w')"
    and bs: "bs = List.map_filter id (concat results)"
    by (auto simp: get_block_by_number_batch_with_size_def with_chunks_def io_bind_eq_Inr Let_def split: if_splits)
  have "list_all2 (\<lambda>c r. list_all2 (\<lambda>n b. \<forall>x. b = Some x \<longrightarrow> number x = n) c r) (chunks ?n (remdups_adj ns)) results"
    by (rule list_all2_mono [OF join_spawned_Inr [OF join]]) (use assms(1) in \<open>unfold answers_calls_def, blast\<close>)
  from answered_subseq [OF list_all2_concat [OF this]]
  have "subseq (map number bs) (remdups_adj ns)" unfolding bs concat_chunks [OF n] .
  then show ?thesis using subseq_remdups_adj by (rule subseq_order.trans)
qed (use assms(2) in \<open>simp add: get_block_by_number_batch_with_size_def\<close>)

lemma subseq_subset: "subseq xs ys \<Longrightarrow> set xs \<subseteq> set ys"
  by (induction xs ys rule: list_emb.induct) auto

lemma subseq_sorted_wrt: "subseq xs ys \<Longrightarrow> sorted_wrt P ys \<Longrightarrow> sorted_wrt P xs"
  by (induction xs ys rule: list_emb.induct) (auto dest: subseq_subset)

text \<open>The provider as the reorg detector sees it.\<close>

definition detector_provider ::
  "(provider_error \<Rightarrow> string) \<Rightarrow> (bool \<Rightarrow> ('w, u64, rpc_block option) batch_call) \<Rightarrow> adaptive_concurrency \<Rightarrow> 'w chain_provider" where
  "detector_provider display send a ns = io_map_err display (get_block_by_number_batch send a ns False)"

text \<open>The provider keeps the contract the reorg detector relies on: whatever the batch size in force, a
  request is answered with some of the blocks asked for, and an ascending request in ascending order,
  provided the node answers each single call with the block of that number or with null.\<close>

theorem provider_answers_in_order:
  assumes "answers_calls rb_number send"
  shows "answers_in_order (Some (detector_provider display send a))"
proof -
  have "set (map rb_number bs) \<subseteq> set ns \<and> (sorted_wrt (<) ns \<longrightarrow> sorted_wrt (<) (map rb_number bs))"
    if "detector_provider display send a ns v = (Inr bs, v')" for ns v bs v'
  proof -
    have "subseq (map rb_number bs) ns"
      using that batch_subseq [OF assms, of a ns False None v bs v']
      by (simp add: detector_provider_def io_map_err_eq_Inr get_block_by_number_batch_def)
    then show ?thesis using subseq_subset subseq_sorted_wrt by blast
  qed
  then show ?thesis unfolding answers_in_order_def by blast
qed

definition null_node :: "bool \<Rightarrow> (unit, u64, rpc_block option) batch_call" where
  "null_node txs ns w = (Inr (map (\<lambda>n. if n = 7 then None else Some \<lparr>rb_number = n, rb_hash = 1, rb_parent_hash = 0\<rparr>) ns), w)"

theorem provider_answers_in_order_witness:
  "answers_in_order (Some (detector_provider (\<lambda>_. ''error'') null_node adaptive_concurrency_global))"
  by (rule provider_answers_in_order)
    (auto simp: answers_calls_def null_node_def list_all2_conv_all_nth split: if_splits)

text \<open>The batch size makes no difference to the answer: with a node whose answer to a call does not depend
  on the batch it is in, any two batch sizes give the same blocks, those of the request less repetitions of
  neighbours and blocks the node does not have.\<close>

theorem batch_size_irrelevant:
  assumes "\<And>ns v. send txs ns v = (Inr (map node ns), v)" and "0 < n"
  shows "get_block_by_number_batch_with_size send a ns txs (Some n) w =
    (Inr (List.map_filter node (remdups_adj ns)), w)"
proof -
  have "spawn_all (map (send txs) cs) w = (map (\<lambda>c. Inr (map node c)) cs, w)" for cs
    by (induction cs) (simp_all add: assms(1))
  then have "join_spawned (map (send txs) cs) w = (Inr (map (map node) cs), w)" for cs
    using collect_results_ok [of "map (map node) cs"] by (simp add: join_spawned_def comp_def)
  then show ?thesis
    using assms(2) concat_chunks [of n "remdups_adj ns"]
    by (simp add: get_block_by_number_batch_with_size_def with_chunks_def io_bind_def map_concat [symmetric]
        List.map_filter_def filter_map comp_def)
qed

theorem batch_size_irrelevant_witness:
  "get_block_by_number_batch_with_size null_node adaptive_concurrency_global [5, 5, 7, 6] True (Some 2) () =
    get_block_by_number_batch_with_size null_node adaptive_concurrency_global [5, 5, 7, 6] True (Some 100) ()"
  using batch_size_irrelevant [of null_node True
      "\<lambda>n. if n = 7 then None else Some \<lparr>rb_number = n, rb_hash = 1, rb_parent_hash = 0\<rparr>"]
  by (simp add: null_node_def)

text \<open>With the shared controller in whatever state concurrent callers have brought it to, no batch of
  requests panics on its chunk size, and none holds more than 100 block requests or 1000 receipt requests.\<close>

theorem batches_never_panic:
  assumes "ac_reachable adaptive_concurrency_global (a, callers)"
    and "\<And>txs ns v m v'. send txs ns v \<noteq> (Inl (Provider_Panic m), v')"
    and "\<And>hs v m v'. receipts hs v \<noteq> (Inl (Provider_Panic m), v')"
  shows "get_block_by_number_batch send a ns txs w \<noteq> (Inl (Provider_Panic m), w') \<and>
    get_tx_receipts_batch receipts a hs w \<noteq> (Inl (Provider_Panic m), w') \<and>
    (\<forall>c\<in>set (chunks (ac_batch_size a) ns). length c \<le> 100) \<and>
    (\<forall>c\<in>set (chunks (min rpc_chunk_size (ac_batch_size a * 10)) hs). length c \<le> 1000)"
proof -
  have a: "5 \<le> ac_batch_size a" "ac_batch_size a \<le> 100"
    using ac_reachable_bounded [OF assms(1)]
    by (simp_all add: ac_bounded_def ac_config_def adaptive_concurrency_global_def ac_new_def)
  have blocks: "join_spawned (map (send txs) cs) w \<noteq> (Inl (Provider_Panic m), w')" for cs
    using join_spawned_Inl [of "send txs" cs w "Provider_Panic m" w'] assms(2) by blast
  have receipts: "join_spawned (map receipts cs) w \<noteq> (Inl (Provider_Panic m), w')" for cs
    using join_spawned_Inl [of receipts cs w "Provider_Panic m" w'] assms(3) by blast
  have "get_block_by_number_batch send a ns txs w \<noteq> (Inl (Provider_Panic m), w')"
    using a blocks by (auto simp: get_block_by_number_batch_def get_block_by_number_batch_with_size_def with_chunks_def
        io_bind_def Let_def split: prod.splits sum.splits)
  moreover have "get_tx_receipts_batch receipts a hs w \<noteq> (Inl (Provider_Panic m), w')"
    using a receipts by (auto simp: get_tx_receipts_batch_def with_chunks_def rpc_chunk_size_def io_bind_def
        split: prod.splits sum.splits)
  ultimately show ?thesis
    using a chunk_sizes [of "ac_batch_size a" _ ns] chunk_sizes [of "min rpc_chunk_size (ac_batch_size a * 10)" _ hs]
    by (fastforce simp: rpc_chunk_size_def)
qed

theorem batches_never_panic_witness:
  "get_block_by_number_batch null_node adaptive_concurrency_global [1, 2] False () \<noteq>
    (Inl (Provider_Panic ''chunk size must be non-zero''), ())"
  using batches_never_panic [OF limit_reported, of null_node "\<lambda>hs w. (Inr [()], w)" "[1, 2]" False "()" _ "()" "[]"]
  by (simp add: null_node_def)

end
