(* ===== verification/Reorder_Buffer.thy ===== *)
theory Reorder_Buffer
  imports Ordered_Map
begin

text \<open>
  The in-order delivery of \<open>core/src/indexer/fetch_logs.rs\<close>: parallel workers fetch consecutive ranges of
  blocks, numbered from zero, and report them in batches that arrive in any order; \<open>ReorderBuffer\<close> forwards
  them in block order. The results are of any type. Sequence numbers are \<open>u64\<close> and saturate.
\<close>

record 'r sequenced_fetch_batch =
  sb_sequence_id :: nat
  sb_results :: "'r list"
  sb_is_final :: bool

record 'r pending_slot =
  ps_batches :: "'r sequenced_fetch_batch list"
  ps_finalized :: bool

record 'r reorder_buffer =
  ro_next_expected :: nat
  ro_pending :: "(nat \<times> 'r pending_slot) list"

definition ro_new :: "'r reorder_buffer" where
  "ro_new = \<lparr>ro_next_expected = 0, ro_pending = []\<rparr>"

definition saturating_succ :: "nat \<Rightarrow> nat" where
  "saturating_succ n = min (n + 1) (2 ^ 64 - 1)"

definition batch_results :: "'r sequenced_fetch_batch list \<Rightarrow> 'r list" where
  "batch_results bs = concat (map sb_results bs)"

text \<open>\<open>while let Some(slot) = self.pending.remove(&self.next_expected)\<close>\<close>

function ro_release :: "nat \<Rightarrow> (nat \<times> 'r pending_slot) list \<Rightarrow> 'r list \<times> nat \<times> (nat \<times> 'r pending_slot) list" where
  "ro_release next_expected pending =
     (case bt_get pending next_expected of
        None \<Rightarrow> ([], next_expected, pending)
      | Some slot \<Rightarrow>
          (let pending = bt_retain (\<lambda>k. k \<noteq> next_expected) pending in
           if ps_finalized slot then
             (let (out, n, p) = ro_release (saturating_succ next_expected) pending
              in (batch_results (ps_batches slot) @ out, n, p))
           else (batch_results (ps_batches slot), next_expected, pending)))"
  by pat_completeness auto

lemma bt_get_Some_length: "bt_get m k = Some v \<Longrightarrow> length (bt_retain (\<lambda>j. j \<noteq> k) m) < length m"
  unfolding bt_retain_def bt_get_def
  by (drule map_of_SomeD, rule length_filter_less) auto

termination ro_release
  by (relation "measure (\<lambda>(_, pending). length pending)") (auto dest: bt_get_Some_length)

declare ro_release.simps [simp del]

definition ro_accept :: "'r sequenced_fetch_batch \<Rightarrow> 'r reorder_buffer \<Rightarrow> 'r list \<times> 'r reorder_buffer" where
  "ro_accept batch buf =
     (let sid = sb_sequence_id batch in
      if sid = ro_next_expected buf then
        (if sb_is_final batch then
           (let (out, n, p) = ro_release (saturating_succ (ro_next_expected buf)) (ro_pending buf)
            in (sb_results batch @ out, buf\<lparr>ro_next_expected := n, ro_pending := p\<rparr>))
         else (sb_results batch, buf))
      else
        (let slot = (case bt_get (ro_pending buf) sid of
               Some slot \<Rightarrow> slot | None \<Rightarrow> \<lparr>ps_batches = [], ps_finalized = False\<rparr>);
             slot = \<lparr>ps_batches = ps_batches slot @ [batch], ps_finalized = ps_finalized slot \<or> sb_is_final batch\<rparr>
         in ([], buf\<lparr>ro_pending := bt_insert sid slot (ro_pending buf)\<rparr>)))"

text \<open>The reorder task: every batch received is accepted and the results that are ready are sent on.\<close>

fun ro_run :: "'r sequenced_fetch_batch list \<Rightarrow> 'r reorder_buffer \<Rightarrow> 'r list \<times> 'r reorder_buffer" where
  "ro_run [] buf = ([], buf)"
| "ro_run (b # bs) buf =
     (let (out, buf) = ro_accept b buf; (outs, buf) = ro_run bs buf in (out @ outs, buf))"

section \<open>What has to come out\<close>

text \<open>The results of one range among the batches received, and whether its last batch is among them.\<close>

definition range_results :: "'r sequenced_fetch_batch list \<Rightarrow> nat \<Rightarrow> 'r list" where
  "range_results bs s = batch_results (filter (\<lambda>b. sb_sequence_id b = s) bs)"

definition range_complete :: "'r sequenced_fetch_batch list \<Rightarrow> nat \<Rightarrow> bool" where
  "range_complete bs s = list_ex (\<lambda>b. sb_sequence_id b = s \<and> sb_is_final b) bs"

text \<open>The first range at or after \<open>n\<close> that is not complete.\<close>

function first_open :: "'r sequenced_fetch_batch list \<Rightarrow> nat \<Rightarrow> nat" where
  "first_open bs n = (if range_complete bs n then first_open bs (Suc n) else n)"
  by pat_completeness auto

lemma range_complete_bound: "range_complete bs n \<Longrightarrow> n \<le> sum_list (map sb_sequence_id bs)"
  by (auto simp: range_complete_def list_ex_iff intro!: member_le_sum_list)

termination first_open
  by (relation "measure (\<lambda>(bs, n). Suc (sum_list (map sb_sequence_id bs)) - n)") (auto dest: range_complete_bound)

declare first_open.simps [simp del]

lemma first_open_step:
  "range_complete bs n \<Longrightarrow> first_open bs n = first_open bs (Suc n)" "\<not> range_complete bs n \<Longrightarrow> first_open bs n = n"
  by (simp_all add: first_open.simps [of bs n])

lemma first_open:
  "n \<le> first_open bs n \<and> \<not> range_complete bs (first_open bs n) \<and> (\<forall>s. n \<le> s \<and> s < first_open bs n \<longrightarrow> range_complete bs s)"
proof (induction bs n rule: first_open.induct)
  case (1 bs n)
  show ?case
  proof (cases "range_complete bs n")
    case True
    then have "s = n \<or> Suc n \<le> s" if "n \<le> s" for s using that by arith
    with 1 True show ?thesis by (auto simp: first_open_step(1) [OF True])
  next
    case False
    then show ?thesis by (auto simp: first_open_step)
  qed
qed

text \<open>Everything that can be delivered in order: the complete ranges up to the first open one, and what has
  arrived of that.\<close>

definition deliverable :: "'r sequenced_fetch_batch list \<Rightarrow> 'r list" where
  "deliverable bs = concat (map (range_results bs) [0..<Suc (first_open bs 0)])"

text \<open>A worker sends nothing after its final batch.\<close>

fun orderly :: "'r sequenced_fetch_batch list \<Rightarrow> bool" where
  "orderly [] = True"
| "orderly (b # bs) =
     ((sb_is_final b \<longrightarrow> list_all (\<lambda>c. sb_sequence_id c \<noteq> sb_sequence_id b) bs) \<and> orderly bs)"

section \<open>Delivery\<close>

lemma batch_results_simps [simp]:
  "batch_results [] = []" "batch_results (b # bs) = sb_results b @ batch_results bs"
  "batch_results (bs @ cs) = batch_results bs @ batch_results cs"
  by (simp_all add: batch_results_def)

lemma range_results_snoc:
  "range_results (bs @ [b]) s = range_results bs s @ (if sb_sequence_id b = s then sb_results b else [])"
  by (simp add: range_results_def)

lemma range_complete_snoc:
  "range_complete (bs @ [b]) s \<longleftrightarrow> range_complete bs s \<or> sb_sequence_id b = s \<and> sb_is_final b"
  by (simp add: range_complete_def)

definition slot_of :: "'r sequenced_fetch_batch list \<Rightarrow> nat \<Rightarrow> 'r pending_slot option" where
  "slot_of bs s =
     (case filter (\<lambda>b. sb_sequence_id b = s) bs of
        [] \<Rightarrow> None
      | batches \<Rightarrow> Some \<lparr>ps_batches = batches, ps_finalized = range_complete bs s\<rparr>)"

text \<open>The slots from \<open>n\<close> on hold what has arrived for their ranges.\<close>

definition holds_from :: "'r sequenced_fetch_batch list \<Rightarrow> nat \<Rightarrow> (nat \<times> 'r pending_slot) list \<Rightarrow> bool" where
  "holds_from bs n p = (bt_invar p \<and> (\<forall>s. bt_get p s = (if n \<le> s then slot_of bs s else None)))"

lemma slot_of_None: "slot_of bs s = None \<longleftrightarrow> (\<forall>b\<in>set bs. sb_sequence_id b \<noteq> s)"
proof -
  have "slot_of bs s = None \<longleftrightarrow> filter (\<lambda>b. sb_sequence_id b = s) bs = []" by (simp add: slot_of_def split: list.split)
  then show ?thesis by (simp add: filter_empty_conv)
qed

lemma slot_of_Some: "slot_of bs s = Some slot \<Longrightarrow>
    batch_results (ps_batches slot) = range_results bs s \<and> ps_finalized slot = range_complete bs s"
  by (auto simp: slot_of_def range_results_def split: list.splits)

lemma no_batches:
  assumes "slot_of bs s = None"
  shows "range_results bs s = []" and "\<not> range_complete bs s"
  using assms by (auto simp: slot_of_None range_results_def range_complete_def list_ex_iff filter_empty_conv)

lemma ro_release:
  assumes "holds_from bs n p" and "\<forall>b\<in>set bs. sb_sequence_id b < 2 ^ 64 - 1"
  shows "\<exists>p'. ro_release n p = (concat (map (range_results bs) [n..<Suc (first_open bs n)]), first_open bs n, p') \<and>
    holds_from bs (Suc (first_open bs n)) p'"
  using assms
proof (induction n p rule: ro_release.induct)
  case (1 n p)
  have get: "bt_get p n = slot_of bs n" using 1(2) by (simp add: holds_from_def)
  let ?p = "bt_retain (\<lambda>k. k \<noteq> n) p"
  have next_holds: "holds_from bs (Suc n) ?p" using 1(2) by (auto simp: holds_from_def)
  show ?case
  proof (cases "slot_of bs n")
    case None
    have "holds_from bs (Suc n) p" using 1(2) None by (auto simp: holds_from_def le_Suc_eq Suc_le_eq le_less)
    then show ?thesis
      using None get no_batches [OF None] by (simp add: ro_release.simps [of n p] first_open_step)
  next
    case (Some slot)
    note slot = slot_of_Some [OF Some]
    show ?thesis
    proof (cases "range_complete bs n")
      case False
      then show ?thesis using Some get slot next_holds by (simp add: ro_release.simps [of n p] first_open_step Let_def)
    next
      case True
      from Some have "\<exists>b\<in>set bs. sb_sequence_id b = n" using slot_of_None [of bs n] by auto
      with 1(3) have succ: "saturating_succ n = Suc n" by (auto simp: saturating_succ_def)
      obtain p' where p': "ro_release (Suc n) ?p =
          (concat (map (range_results bs) [Suc n..<Suc (first_open bs (Suc n))]), first_open bs (Suc n), p')"
        "holds_from bs (Suc (first_open bs (Suc n))) p'"
        using 1(1) [of slot] Some get slot True next_holds 1(3) unfolding succ by auto
      have "n \<le> first_open bs (Suc n)" using first_open [of "Suc n" bs] by simp
      then have "[n..<Suc (first_open bs (Suc n))] = n # [Suc n..<Suc (first_open bs (Suc n))]" by (simp add: upt_conv_Cons)
      then show ?thesis
        using p' Some get slot True by (simp add: ro_release.simps [of n p] first_open_step Let_def succ)
    qed
  qed
qed

lemma first_open_skip: "n \<le> m \<Longrightarrow> (\<And>s. n \<le> s \<Longrightarrow> s < m \<Longrightarrow> range_complete bs s) \<Longrightarrow> first_open bs n = first_open bs m"
proof (induction m rule: dec_induct)
  case (step m)
  then have "range_complete bs m" "first_open bs n = first_open bs m" by simp_all
  then show ?case by (simp add: first_open_step)
qed simp

lemma first_open_unique: "n \<le> m \<Longrightarrow> (\<And>s. n \<le> s \<Longrightarrow> s < m \<Longrightarrow> range_complete bs s) \<Longrightarrow> \<not> range_complete bs m \<Longrightarrow>
    first_open bs n = m"
  by (simp add: first_open_skip first_open_step)

lemma ro_run_snoc:
  "ro_run (bs @ [b]) buf = (let (outs, buf') = ro_run bs buf; (out, buf'') = ro_accept b buf' in (outs @ out, buf''))"
  by (induction bs arbitrary: buf) (auto split: prod.splits)

lemma orderly_snoc:
  "orderly (bs @ [b]) \<longleftrightarrow> orderly bs \<and> \<not> range_complete bs (sb_sequence_id b)"
  by (induction bs) (auto simp: range_complete_def)

lemma upt_split: "f \<le> g \<Longrightarrow> [0..<Suc g] = [0..<Suc f] @ [Suc f..<Suc g]"
  by (metis Suc_le_mono le0 upt_add_eq_append le_add_diff_inverse)

lemma slot_of_snoc:
  "slot_of (bs @ [b]) s =
    (if sb_sequence_id b = s
     then (let slot = (case slot_of bs s of Some slot \<Rightarrow> slot | None \<Rightarrow> \<lparr>ps_batches = [], ps_finalized = False\<rparr>) in
           Some \<lparr>ps_batches = ps_batches slot @ [b], ps_finalized = ps_finalized slot \<or> sb_is_final b\<rparr>)
     else slot_of bs s)"
proof (cases "slot_of bs s")
  case None
  then have "filter (\<lambda>b. sb_sequence_id b = s) bs = []" "\<not> range_complete bs s"
    by (auto simp: slot_of_None filter_empty_conv range_complete_def list_ex_iff)
  then show ?thesis by (simp add: slot_of_def range_complete_snoc)
next
  case (Some slot)
  then show ?thesis by (auto simp: slot_of_def range_complete_snoc split: list.splits)
qed

lemma ro_run_invariant:
  "orderly bs \<Longrightarrow> \<forall>b\<in>set bs. sb_sequence_id b < 2 ^ 64 - 1 \<Longrightarrow>
    \<exists>p. ro_run bs ro_new = (deliverable bs, \<lparr>ro_next_expected = first_open bs 0, ro_pending = p\<rparr>) \<and>
      holds_from bs (Suc (first_open bs 0)) p"
proof (induction bs rule: rev_induct)
  case Nil
  then show ?case
    by (simp add: ro_new_def deliverable_def first_open_step range_complete_def range_results_def holds_from_def slot_of_def)
next
  case (snoc b bs)
  let ?bs = "bs @ [b]" and ?f = "first_open bs 0" and ?sid = "sb_sequence_id b"
  obtain p where run: "ro_run bs ro_new = (deliverable bs, \<lparr>ro_next_expected = ?f, ro_pending = p\<rparr>)"
    and held: "holds_from bs (Suc ?f) p"
    using snoc by (auto simp: orderly_snoc)
  note f = first_open [of 0 bs]
  have "?f \<le> ?sid" using snoc.prems(1) f by (auto simp: orderly_snoc not_less [symmetric])
  have same: "range_results ?bs s = range_results bs s" if "s \<noteq> ?sid" for s
    using that by (simp add: range_results_snoc)
  then have below: "concat (map (range_results ?bs) [0..<?f]) = concat (map (range_results bs) [0..<?f])"
    using \<open>?f \<le> ?sid\<close> by (intro arg_cong [where f = concat] map_cong) simp_all
  show ?case
  proof (cases "?sid = ?f")
    case False
    then have sid: "?f < ?sid" using \<open>?f \<le> ?sid\<close> by simp
    have open_f: "first_open ?bs 0 = ?f"
      using f False by (intro first_open_unique) (auto simp: range_complete_snoc)
    have "deliverable ?bs = deliverable bs"
      using below same [of ?f] False by (simp add: deliverable_def open_f)
    moreover have "bt_get p ?sid = slot_of bs ?sid" using held sid by (simp add: holds_from_def)
    moreover have "holds_from ?bs (Suc ?f) (bt_insert ?sid (the (slot_of ?bs ?sid)) p)"
      using held sid by (auto simp: holds_from_def slot_of_snoc Let_def)
    ultimately show ?thesis
      using False by (simp add: ro_run_snoc run ro_accept_def Let_def open_f slot_of_snoc)
  next
    case True
    have held': "holds_from ?bs (Suc ?f) p" using held True by (auto simp: holds_from_def slot_of_snoc)
    show ?thesis
    proof (cases "sb_is_final b")
      case False
      then have open_f: "first_open ?bs 0 = ?f"
        using f by (intro first_open_unique) (auto simp: range_complete_snoc)
      have "deliverable ?bs = deliverable bs @ sb_results b"
        using below True by (simp add: deliverable_def open_f range_results_snoc)
      then show ?thesis using held' True False by (simp add: ro_run_snoc run ro_accept_def open_f Let_def)
    next
      case final: True
      have succ: "saturating_succ ?f = Suc ?f" using snoc.prems(2) True by (auto simp: saturating_succ_def)
      let ?g = "first_open ?bs (Suc ?f)"
      obtain p' where p': "ro_release (Suc ?f) p = (concat (map (range_results ?bs) [Suc ?f..<Suc ?g]), ?g, p')"
        "holds_from ?bs (Suc ?g) p'"
        using ro_release [OF held' snoc.prems(2)] by blast
      have open_g: "first_open ?bs 0 = ?g"
        using f final True by (intro first_open_skip) (auto simp: range_complete_snoc less_Suc_eq)
      have "?f \<le> ?g" using first_open [of "Suc ?f" ?bs] by simp
      then have "deliverable ?bs = deliverable bs @ sb_results b @ concat (map (range_results ?bs) [Suc ?f..<Suc ?g])"
        using below True by (simp add: deliverable_def open_g upt_split [of ?f ?g] range_results_snoc del: upt_Suc)
          (simp add: range_results_snoc)
      then show ?thesis using p' True final by (simp add: ro_run_snoc run ro_accept_def succ open_g Let_def)
    qed
  qed
qed

text \<open>C23: Delivery is in order and as early as it can be: whatever order the batches arrive in, after each of
  them the results sent on are exactly those of all complete ranges up to the first incomplete one, in the
  order of the ranges, followed by what has arrived of that one. Nothing is lost, repeated or held back
  longer than its predecessors require.\<close>

theorem reorder_delivers_in_order:
  assumes "orderly bs" and "\<forall>b\<in>set bs. sb_sequence_id b < 2 ^ 64 - 1"
  shows "fst (ro_run bs ro_new) = deliverable bs \<and>
    ro_next_expected (snd (ro_run bs ro_new)) = first_open bs 0"
  using ro_run_invariant [OF assms] by auto

definition late_first_range :: "string sequenced_fetch_batch list" where
  "late_first_range =
     [\<lparr>sb_sequence_id = 1, sb_results = [''c''], sb_is_final = False\<rparr>,
      \<lparr>sb_sequence_id = 0, sb_results = [''a''], sb_is_final = False\<rparr>,
      \<lparr>sb_sequence_id = 2, sb_results = [''e''], sb_is_final = True\<rparr>,
      \<lparr>sb_sequence_id = 0, sb_results = [''b''], sb_is_final = True\<rparr>,
      \<lparr>sb_sequence_id = 1, sb_results = [''d''], sb_is_final = True\<rparr>]"

theorem reorder_delivers_in_order_witness:
  "fst (ro_run (take 4 late_first_range) ro_new) = [''a'', ''b'', ''c''] \<and>
   fst (ro_run late_first_range ro_new) = [''a'', ''b'', ''c'', ''d'', ''e'']"
  using reorder_delivers_in_order [of "take 4 late_first_range"] reorder_delivers_in_order [of late_first_range]
  by (simp add: late_first_range_def deliverable_def first_open.simps range_complete_def range_results_def batch_results_def)

text \<open>Once every range is complete, everything has been forwarded, range by range.\<close>

lemma complete_delivery:
  assumes "orderly bs" and "\<forall>b\<in>set bs. sb_sequence_id b < n" and "n < 2 ^ 64" and "\<And>s. s < n \<Longrightarrow> range_complete bs s"
  shows "fst (ro_run bs ro_new) = concat (map (range_results bs) [0..<n])"
proof -
  have none: "slot_of bs n = None" using assms(2) by (auto simp: slot_of_None)
  have "first_open bs 0 = n"
    using assms(4) no_batches(2) [OF none] by (intro first_open_unique) simp_all
  then have "deliverable bs = concat (map (range_results bs) [0..<n])"
    using no_batches(1) [OF none] by (simp add: deliverable_def)
  moreover have "\<forall>b\<in>set bs. sb_sequence_id b < 2 ^ 64 - 1" using assms(2,3) by fastforce
  ultimately show ?thesis using ro_run_invariant [OF assms(1)] by auto
qed

text \<open>C24: The interleaving of the workers is invisible: two arrival orders of the same batches, each worker's own
  batches in its order, are forwarded as the same sequence once every range from 0 to \<open>n\<close> is complete.\<close>

theorem worker_interleaving_invisible:
  assumes "orderly bs" and "orderly cs"
    and "\<forall>b\<in>set bs \<union> set cs. sb_sequence_id b < n" and "n < 2 ^ 64"
    and "\<And>s. s < n \<Longrightarrow> filter (\<lambda>b. sb_sequence_id b = s) bs = filter (\<lambda>b. sb_sequence_id b = s) cs"
    and "\<And>s. s < n \<Longrightarrow> range_complete bs s"
  shows "fst (ro_run bs ro_new) = fst (ro_run cs ro_new) \<and>
    fst (ro_run bs ro_new) = concat (map (range_results bs) [0..<n])"
proof -
  have results: "range_results bs s = range_results cs s" if "s < n" for s
    using assms(5) [OF that] by (simp add: range_results_def)
  have complete: "range_complete cs s" if s: "s < n" for s
  proof -
    obtain b where "b \<in> set (filter (\<lambda>b. sb_sequence_id b = s) bs)" "sb_is_final b"
      using assms(6) [OF s] by (auto simp: range_complete_def list_ex_iff)
    then have "b \<in> set (filter (\<lambda>b. sb_sequence_id b = s) cs)" unfolding assms(5) [OF s] by simp
    with \<open>sb_is_final b\<close> show ?thesis by (auto simp: range_complete_def list_ex_iff)
  qed
  have "concat (map (range_results bs) [0..<n]) = concat (map (range_results cs) [0..<n])"
    using results by (intro arg_cong [where f = concat] map_cong) simp_all
  then show ?thesis
    using complete_delivery [OF assms(1) _ assms(4,6)] complete_delivery [OF assms(2) _ assms(4) complete] assms(3) by simp
qed

theorem worker_interleaving_invisible_witness:
  "fst (ro_run late_first_range ro_new) =
   fst (ro_run [late_first_range ! 1, late_first_range ! 3, late_first_range ! 0, late_first_range ! 4, late_first_range ! 2] ro_new)"
proof (rule conjunct1 [OF worker_interleaving_invisible [where n = 3]])
  fix s :: nat
  assume "s < 3"
  then have "s = 0 \<or> s = 1 \<or> s = 2" by arith
  then show "filter (\<lambda>b. sb_sequence_id b = s) late_first_range = filter (\<lambda>b. sb_sequence_id b = s)
      [late_first_range ! 1, late_first_range ! 3, late_first_range ! 0, late_first_range ! 4, late_first_range ! 2]"
    and "range_complete late_first_range s"
    by (auto simp: late_first_range_def range_complete_def)
qed (simp_all add: late_first_range_def)

end
