(* ===== verification/Log_Fetching.thy ===== *)
theory Log_Fetching
  imports Provider Reorder_Buffer Reorg_Sql
begin

text \<open>
  The block range state machine of \<open>core/src/indexer/fetch_logs.rs\<close>: how the range of the next query follows
  from the answer to the last one, the sequential loop over history, the workers and the dispatcher of the
  parallel backfill, and the plan of a live fetch. The node, the clock of block timestamps, the channel, the
  random number generator and the regular expressions (\<open>regex\<close> crate) are fields of an environment. Block
  numbers are 64-bit and wrap, as \<open>ruint\<close>'s operators do. A missing block number in a log is a panic.
\<close>

record fetch_logs_result =
  fr_logs :: "rpc_log list"
  fr_from_block :: u64
  fr_to_block :: u64
  fr_reorg :: "reorg_info option"

datatype fetch_error_kind = Rate_Limit | Other

record 'w fetch_env =
  fe_get_logs :: "event_filter \<Rightarrow> ('w, provider_error, rpc_log list) io"
  fe_timestamps :: bool
  fe_attach_timestamps :: "rpc_log list \<Rightarrow> ('w, string, rpc_log list) io"
  fe_channel_open :: "'w \<Rightarrow> bool \<times> 'w"
  fe_stopped :: "'w \<Rightarrow> bool"
  fe_one_in_ten :: "'w \<Rightarrow> bool \<times> 'w"
  fe_report :: "fetch_error_kind option \<Rightarrow> 'w \<Rightarrow> 'w"
  fe_lowercase :: "string \<Rightarrow> string"
  fe_take_chars :: "nat \<Rightarrow> string \<Rightarrow> string"
  fe_captures :: "string \<Rightarrow> string \<Rightarrow> string list option"
  fe_u64_from_str :: "string \<Rightarrow> u64 option"

section \<open>Choosing the next range\<close>

text \<open>\<open>halved_block_number\<close> of \<open>helpers/evm_log.rs\<close>\<close>

definition halved_block_number :: "u64 \<Rightarrow> u64 \<Rightarrow> u64" where
  "halved_block_number to_b from_b =
     max (from_b + (to_b - from_b) div 2) (from_b + 2)"

definition calculate_process_historic_log_to_block :: "u64 \<Rightarrow> u64 \<Rightarrow> u64 option \<Rightarrow> u64" where
  "calculate_process_historic_log_to_block new_from snapshot_to_block max_block_range_limitation =
     (case max_block_range_limitation of
        Some limit \<Rightarrow>
          (let to_b = new_from + limit in
           if snapshot_to_block < to_b then snapshot_to_block else to_b)
      | None \<Rightarrow> snapshot_to_block)"

datatype fallback_block_range =
  Range5000 | Range500 | Range75 | Range50 | Range45 | Range40 | Range35 | Range30 | Range25 | Range20
| Range15 | Range10 | Range5 | Range1

fun fallback_value :: "fallback_block_range \<Rightarrow> u64" where
  "fallback_value Range5000 = 5000" | "fallback_value Range500 = 500" | "fallback_value Range75 = 75"
| "fallback_value Range50 = 50" | "fallback_value Range45 = 45" | "fallback_value Range40 = 40"
| "fallback_value Range35 = 35" | "fallback_value Range30 = 30" | "fallback_value Range25 = 25"
| "fallback_value Range20 = 20" | "fallback_value Range15 = 15" | "fallback_value Range10 = 10"
| "fallback_value Range5 = 5" | "fallback_value Range1 = 1"

fun fallback_lower :: "fallback_block_range \<Rightarrow> fallback_block_range" where
  "fallback_lower Range5000 = Range500" | "fallback_lower Range500 = Range75" | "fallback_lower Range75 = Range50"
| "fallback_lower Range50 = Range45" | "fallback_lower Range45 = Range40" | "fallback_lower Range40 = Range35"
| "fallback_lower Range35 = Range30" | "fallback_lower Range30 = Range25" | "fallback_lower Range25 = Range20"
| "fallback_lower Range20 = Range15" | "fallback_lower Range15 = Range10" | "fallback_lower Range10 = Range5"
| "fallback_lower Range5 = Range1" | "fallback_lower Range1 = Range1"

definition fallback_from_diff :: "u64 \<Rightarrow> fallback_block_range" where
  "fallback_from_diff diff =
     (if 5000 \<le> diff then Range5000 else if 500 \<le> diff then Range500 else if 75 \<le> diff then Range75
      else if 50 \<le> diff then Range50 else if 45 \<le> diff then Range45 else if 40 \<le> diff then Range40
      else if 35 \<le> diff then Range35 else if 30 \<le> diff then Range30 else if 25 \<le> diff then Range25
      else if 20 \<le> diff then Range20 else if 15 \<le> diff then Range15 else if 10 \<le> diff then Range10
      else if 5 \<le> diff then Range5 else Range1)"

record retry_with_block_range_result =
  rt_from :: u64
  rt_to :: u64
  rt_max_block_range :: "u64 option"

definition hex_value :: "char \<Rightarrow> nat" where
  "hex_value c = (if is_ascii_digit c then digit_value c else of_char (to_ascii_lowercase c) - 87)"

text \<open>\<open>u64::from_str_radix(s, 16)\<close> on a non-empty text of hexadecimal digits\<close>

definition u64_from_hex :: "string \<Rightarrow> u64 option" where
  "u64_from_hex s =
     (let n = foldl (\<lambda>a c. 16 * a + hex_value c) 0 s in if n < 2 ^ 64 then Some (of_nat n) else None)"

definition error_texts :: "('w, 'z) fetch_env_scheme \<Rightarrow> provider_error \<Rightarrow> string \<times> string" where
  "error_texts E err =
     (case err of
        Request_Failed _ (Some (message, data)) \<Rightarrow>
          (fe_lowercase E (fe_take_chars E 5000 message),
           fe_lowercase E (case data of Some d \<Rightarrow> d | None \<Rightarrow> []))
      | _ \<Rightarrow> (fe_lowercase E (fe_take_chars E 5000 (provider_error_text err)), []))"

definition captured :: "('w, 'z) fetch_env_scheme \<Rightarrow> string \<Rightarrow> string \<times> string \<Rightarrow> string list option" where
  "captured E pattern = (\<lambda>(message, data).
     case fe_captures E pattern message of Some c \<Rightarrow> Some c | None \<Rightarrow> fe_captures E pattern data)"

definition captured_range :: "('w, 'z) fetch_env_scheme \<Rightarrow> string \<Rightarrow> string \<times> string \<Rightarrow> (u64 \<times> u64) option" where
  "captured_range E pattern texts =
     (case captured E pattern texts of
        Some [start_block, end_block] \<Rightarrow>
          (case (u64_from_hex start_block, u64_from_hex end_block) of
             (Some f, Some t) \<Rightarrow> Some (f, t) | _ \<Rightarrow> None)
      | _ \<Rightarrow> None)"

text \<open>The patterns of the source; \<open>~\<close> stands for the backslash.\<close>

definition regex_text :: "string \<Rightarrow> string" where
  "regex_text s = map (\<lambda>c. if c = CHR ''~'' then CHR 0x5C else c) s"

definition alchemy_pattern :: string where
  "alchemy_pattern = regex_text ''this block range should work: ~[0x([0-9a-fA-F]+),~s*0x([0-9a-fA-F]+)]''"

definition infura_pattern :: string where
  "infura_pattern = regex_text ''try with this block range ~[0x([0-9a-fA-F]+),~s*0x([0-9a-fA-F]+)]''"

definition limited_pattern :: string where
  "limited_pattern = regex_text ''limited to a ([~d,.]+)''"

text \<open>The hint of a provider that names a range or a maximum.\<close>

definition min_limit :: "u64 option \<Rightarrow> u64 \<Rightarrow> u64" where
  "min_limit limit n = (case limit of Some original \<Rightarrow> min original n | None \<Rightarrow> n)"

definition limited_range :: "u64 \<Rightarrow> u64 \<Rightarrow> retry_with_block_range_result" where
  "limited_range from_b n = \<lparr>rt_from = from_b, rt_to = from_b + n, rt_max_block_range = Some n\<rparr>"

definition limited_hint :: "('w, 'z) fetch_env_scheme \<Rightarrow> string \<times> string \<Rightarrow> u64 option" where
  "limited_hint E texts =
     (case captured E limited_pattern texts of
        Some (range_str # _) \<Rightarrow> fe_u64_from_str E (filter (\<lambda>c. c \<noteq> CHR ''.'' \<and> c \<noteq> CHR '','') range_str)
      | _ \<Rightarrow> None)"

definition fallback_retry :: "u64 \<Rightarrow> u64 \<Rightarrow> u64 option \<Rightarrow> retry_with_block_range_result option" where
  "fallback_retry from_b to_b limit =
     (if from_b < to_b then
        (let diff = to_b - from_b;
             block_range = fallback_from_diff diff;
             next_to_block = from_b + fallback_value block_range;
             block_range = (if next_to_block = to_b then fallback_lower block_range else block_range);
             next_to_block = from_b + fallback_value block_range
         in if next_to_block < from_b
            then Some \<lparr>rt_from = from_b, rt_to = halved_block_number to_b from_b, rt_max_block_range = limit\<rparr>
            else Some (limited_range from_b (min_limit limit (fallback_value block_range))))
      else None)"

definition retry_with_block_range ::
  "('w, 'z) fetch_env_scheme \<Rightarrow> provider_error \<Rightarrow> u64 \<Rightarrow> u64 \<Rightarrow> u64 option \<Rightarrow> retry_with_block_range_result option" where
  "retry_with_block_range E err from_b to_b limit =
     (let texts = error_texts E err; message = fst texts in
      case captured_range E alchemy_pattern texts of
        Some (f, t) \<Rightarrow>
          if t < f then Some \<lparr>rt_from = from_b, rt_to = f, rt_max_block_range = limit\<rparr>
          else Some \<lparr>rt_from = f, rt_to = t, rt_max_block_range = limit\<rparr>
      | None \<Rightarrow>
      case captured_range E infura_pattern texts of
        Some (f, t) \<Rightarrow> Some \<lparr>rt_from = f, rt_to = t, rt_max_block_range = limit\<rparr>
      | None \<Rightarrow>
      if str_contains ''block range is too wide'' message
      then Some (limited_range from_b (min_limit limit 3000))
      else case limited_hint E texts of
        Some n \<Rightarrow> Some (limited_range from_b (min_limit limit n))
      | None \<Rightarrow>
      if str_contains ''block range too large'' message
      then Some (limited_range from_b (min_limit limit 2000))
      else if str_contains ''response is too big'' message \<or> str_contains ''error decoding response body'' message
        \<or> str_contains ''error sending request'' message
      then Some \<lparr>rt_from = from_b, rt_to = halved_block_number to_b from_b, rt_max_block_range = limit\<rparr>
      else fallback_retry from_b to_b limit)"

definition classify_fetch_error :: "('w, 'z) fetch_env_scheme \<Rightarrow> provider_error \<Rightarrow> fetch_error_kind" where
  "classify_fetch_error E err =
     (let s = fe_lowercase E (provider_error_text err) in
      if str_contains ''429'' s \<or> str_contains ''rate limit'' s \<or> str_contains ''rate-limit'' s
        \<or> str_contains ''too many requests'' s \<or> str_contains ''quota'' s \<or> str_contains ''throttle'' s
      then Rate_Limit else Other)"

section \<open>One query\<close>

text \<open>What one call leads to: a result to deliver, the next filter with its range limitation, the kind of an
  error; or a panic.\<close>

record fetch_outcome =
  fo_result :: "fetch_logs_result option"
  fo_next :: "(event_filter \<times> u64 option) option"
  fo_error_kind :: "fetch_error_kind option"
  fo_panic :: bool

definition with_range :: "event_filter \<Rightarrow> u64 \<Rightarrow> u64 \<Rightarrow> event_filter" where
  "with_range f from_b to_b = set_to_block to_b (set_from_block from_b f)"

text \<open>Where to go on after a delivered answer; no block number in the last log is a panic.\<close>

definition next_from_block :: "u64 \<Rightarrow> rpc_log list \<Rightarrow> u64 option" where
  "next_from_block to_b logs =
     (if logs = [] then Some (to_b + 1) else map_option (\<lambda>n. n + 1) (lg_block_number (last logs)))"

text \<open>The query and its answer, shared by the two callers; \<open>beyond\<close> is the range they go on with once the
  snapshot has been passed.\<close>

definition query_range ::
  "('w, 'z) fetch_env_scheme \<Rightarrow> (u64 \<Rightarrow> (event_filter \<times> u64 option) option) \<Rightarrow> event_filter \<Rightarrow> u64 option \<Rightarrow> u64 \<Rightarrow>
     'w \<Rightarrow> fetch_outcome \<times> 'w" where
  "query_range E beyond f limit snapshot w =
     (let from_b = filter_from_block f; to_b = filter_to_block f in
      case fe_get_logs E f w of
        (Inl err, w1) \<Rightarrow>
          (\<lparr>fo_result = None,
            fo_next = Some (case retry_with_block_range E err from_b to_b limit of
                Some r \<Rightarrow> (with_range f (rt_from r) (rt_to r), rt_max_block_range r)
              | None \<Rightarrow> (with_range f from_b (halved_block_number to_b from_b), limit)),
            fo_error_kind = Some (classify_fetch_error E err), fo_panic = False\<rparr>, w1)
      | (Inr logs, w1) \<Rightarrow>
          (case (if fe_timestamps E then fe_attach_timestamps E logs w1 else (Inr logs, w1)) of
             (Inl _, w2) \<Rightarrow>
               (\<lparr>fo_result = None, fo_next = Some (with_range f from_b (halved_block_number to_b from_b), limit),
                 fo_error_kind = Some Other, fo_panic = False\<rparr>, w2)
           | (Inr timed, w2) \<Rightarrow>
               (\<lparr>fo_result = Some \<lparr>fr_logs = timed, fr_from_block = from_b, fr_to_block = to_b, fr_reorg = None\<rparr>,
                 fo_next = (case next_from_block to_b logs of
                     None \<Rightarrow> None
                   | Some next_from \<Rightarrow>
                       if snapshot < next_from then beyond next_from
                       else Some (with_range f next_from
                         (calculate_process_historic_log_to_block next_from snapshot limit), limit)),
                 fo_error_kind = None, fo_panic = (next_from_block to_b logs = None)\<rparr>, w2)))"

definition inverted_range :: "event_filter \<Rightarrow> u64 option \<Rightarrow> fetch_outcome" where
  "inverted_range f limit =
     \<lparr>fo_result = None, fo_next = Some (with_range f (filter_to_block f) (filter_to_block f + 1), limit),
      fo_error_kind = None, fo_panic = False\<rparr>"

text \<open>The workers' query: past the end of their range there is nothing to go on with.\<close>

definition fetch_logs_once ::
  "('w, 'z) fetch_env_scheme \<Rightarrow> event_filter \<Rightarrow> u64 option \<Rightarrow> u64 \<Rightarrow> 'w \<Rightarrow> fetch_outcome \<times> 'w" where
  "fetch_logs_once E f limit snapshot w =
     (if filter_to_block f < filter_from_block f then (inverted_range f limit, w)
      else query_range E (\<lambda>_. None) f limit snapshot w)"

text \<open>The sequential query: it needs room in the channel, and past the snapshot it goes on with an empty
  remainder, which the live stream takes over.\<close>

definition fetch_historic_logs_stream ::
  "('w, 'z) fetch_env_scheme \<Rightarrow> event_filter \<Rightarrow> u64 option \<Rightarrow> u64 \<Rightarrow> 'w \<Rightarrow> fetch_outcome \<times> 'w" where
  "fetch_historic_logs_stream E f limit snapshot w =
     (if filter_to_block f < filter_from_block f then (inverted_range f limit, w)
      else case fe_channel_open E w of
        (False, w1) \<Rightarrow> (\<lparr>fo_result = None, fo_next = None, fo_error_kind = None, fo_panic = False\<rparr>, w1)
      | (True, w1) \<Rightarrow> query_range E (\<lambda>next_from. Some (with_range f next_from next_from, limit)) f limit snapshot w1)"

section \<open>The sequential loop over history\<close>

record historic_state =
  hs_filter :: event_filter
  hs_limit :: "u64 option"
  hs_sent :: "fetch_logs_result list"

datatype 'a loop_end = Finished 'a | Panicked 'a

definition result_list :: "fetch_outcome \<Rightarrow> fetch_logs_result list" where
  "result_list out = (case fo_result out of Some r \<Rightarrow> [r] | None \<Rightarrow> [])"

text \<open>The loop may run as long as the node fails, so it carries a fuel; without fuel left there is no answer.\<close>

fun historic_loop ::
  "('w, 'z) fetch_env_scheme \<Rightarrow> u64 \<Rightarrow> u64 option \<Rightarrow> nat \<Rightarrow> historic_state \<Rightarrow> 'w \<Rightarrow> (historic_state loop_end \<times> 'w) option" where
  "historic_loop E snapshot original_max_limit 0 st w = None"
| "historic_loop E snapshot original_max_limit (Suc n) st w =
     (if snapshot < filter_from_block (hs_filter st) \<or> fe_stopped E w then Some (Finished st, w)
      else
        (let (out, w1) = fetch_historic_logs_stream E (hs_filter st) (hs_limit st) snapshot w;
             st1 = st\<lparr>hs_sent := hs_sent st @ result_list out\<rparr> in
         if fo_panic out then Some (Panicked st1, w1)
         else case fo_next out of
           None \<Rightarrow> Some (Finished st1, w1)
         | Some (next_filter, limit) \<Rightarrow>
             (let (reset, w2) = fe_one_in_ten E w1 in
              historic_loop E snapshot original_max_limit n
                (st1\<lparr>hs_filter := next_filter, hs_limit := (if reset then original_max_limit else limit)\<rparr>) w2)))"

text \<open>\<open>fetch_logs_stream\<close> before the loop: the range limitation of the provider applies from the start.\<close>

definition historic_start :: "event_filter \<Rightarrow> u64 option \<Rightarrow> historic_state" where
  "historic_start f original_max_limit =
     \<lparr>hs_filter = (case original_max_limit of
        None \<Rightarrow> f
      | Some _ \<Rightarrow> set_to_block (calculate_process_historic_log_to_block (filter_from_block f) (filter_to_block f)
          original_max_limit) f),
      hs_limit = original_max_limit, hs_sent = []\<rparr>"

definition historic_logs_stream ::
  "('w, 'z) fetch_env_scheme \<Rightarrow> u64 option \<Rightarrow> nat \<Rightarrow> event_filter \<Rightarrow> 'w \<Rightarrow> (historic_state loop_end \<times> 'w) option" where
  "historic_logs_stream E original_max_limit fuel f =
     historic_loop E (filter_to_block f) original_max_limit fuel (historic_start f original_max_limit)"

section \<open>The parallel backfill\<close>

type_synonym worker_result = "string + fetch_logs_result"

definition max_worker_results :: nat where "max_worker_results = 1000"
definition max_stuck_iterations :: nat where "max_stuck_iterations = 10"
definition parallel_min_blocks :: nat where "parallel_min_blocks = 1000"
definition parallel_min_chunk :: nat where "parallel_min_chunk = 1000"
definition parallel_max_concurrency :: nat where "parallel_max_concurrency = 32"

record parallel_fetch_params =
  pf_chunk_size :: nat
  pf_effective_concurrency :: nat

definition plan_parallel_fetch :: "nat \<Rightarrow> nat \<Rightarrow> parallel_fetch_params" where
  "plan_parallel_fetch total_blocks concurrency =
     (let capped = max 1 (min concurrency parallel_max_concurrency) in
      \<lparr>pf_chunk_size = max parallel_min_chunk (total_blocks div capped),
       pf_effective_concurrency = min capped (max 1 (total_blocks div parallel_min_chunk))\<rparr>)"

record worker_state =
  ws_sequence_id :: nat
  ws_filter :: event_filter
  ws_limit :: "u64 option"
  ws_results :: "worker_result list"
  ws_batches :: "worker_result sequenced_fetch_batch list"
  ws_stuck_iterations :: nat
  ws_last_range :: "(u64 \<times> u64) option"

definition final_batch :: "worker_state \<Rightarrow> worker_result sequenced_fetch_batch list" where
  "final_batch st = ws_batches st @ [\<lparr>sb_sequence_id = ws_sequence_id st, sb_results = ws_results st, sb_is_final = True\<rparr>]"

text \<open>What the drop guard sends for a worker that panicked.\<close>

definition guard_batch :: "worker_state \<Rightarrow> worker_result sequenced_fetch_batch list" where
  "guard_batch st = ws_batches st @
     [\<lparr>sb_sequence_id = ws_sequence_id st,
       sb_results = [Inl ''worker panicked or was cancelled without sending results''], sb_is_final = True\<rparr>]"

text \<open>A full result list is sent as a partial batch; a closed channel ends the worker.\<close>

definition flush_results :: "('w, 'z) fetch_env_scheme \<Rightarrow> worker_state \<Rightarrow> 'w \<Rightarrow> bool \<times> worker_state \<times> 'w" where
  "flush_results E st w =
     (if length (ws_results st) < max_worker_results then (True, st, w)
      else
        (let batch = \<lparr>sb_sequence_id = ws_sequence_id st, sb_results = ws_results st, sb_is_final = False\<rparr>;
             (sent, w1) = fe_channel_open E w in
         (sent, st\<lparr>ws_results := [], ws_batches := (if sent then ws_batches st @ [batch] else ws_batches st)\<rparr>, w1)))"

fun parallel_worker ::
  "('w, 'z) fetch_env_scheme \<Rightarrow> u64 \<Rightarrow> u64 option \<Rightarrow> nat \<Rightarrow> worker_state \<Rightarrow> 'w \<Rightarrow>
     (worker_result sequenced_fetch_batch list \<times> 'w) option" where
  "parallel_worker E sub_range_end original_max_limit 0 st w = None"
| "parallel_worker E sub_range_end original_max_limit (Suc n) st w =
     (if sub_range_end < filter_from_block (ws_filter st) \<or> fe_stopped E w then Some (final_batch st, w)
      else
        (let (out, w1) = fetch_logs_once E (ws_filter st) (ws_limit st) sub_range_end w in
         if fo_panic out then Some (guard_batch st, w1)
         else
           (let st1 = st\<lparr>ws_results := ws_results st @ map Inr (result_list out)\<rparr>;
                w1 = (if fo_result out = None \<and> fo_error_kind out = None then w1
                      else fe_report E (fo_error_kind out) w1);
                (go_on, st1, w2) = (if fo_result out = None then (True, st1, w1) else flush_results E st1 w1) in
            if \<not> go_on then Some (final_batch st1, w2)
            else case fo_next out of
              None \<Rightarrow> Some (final_batch st1, w2)
            | Some (next_filter, limit) \<Rightarrow>
                (let new_range = (filter_from_block next_filter, filter_to_block next_filter);
                     again = (ws_last_range st1 = Some new_range \<and> fo_error_kind out \<noteq> None);
                     st2 = (if again then st1\<lparr>ws_stuck_iterations := ws_stuck_iterations st1 + 1\<rparr>
                            else st1\<lparr>ws_stuck_iterations := 0, ws_last_range := Some new_range\<rparr>) in
                 if again \<and> max_stuck_iterations \<le> ws_stuck_iterations st2
                 then Some (final_batch (st2\<lparr>ws_results := ws_results st2 @ [Inl ''fetch_logs: stuck on range'']\<rparr>), w2)
                 else
                   (let (reset, w3) = fe_one_in_ten E w2 in
                    parallel_worker E sub_range_end original_max_limit n
                      (st2\<lparr>ws_filter := next_filter, ws_limit := (if reset then original_max_limit else limit)\<rparr>) w3)))))"

definition worker_start :: "nat \<Rightarrow> event_filter \<Rightarrow> u64 option \<Rightarrow> worker_state" where
  "worker_start sid f original_max_limit =
     \<lparr>ws_sequence_id = sid, ws_filter = f, ws_limit = original_max_limit, ws_results = [], ws_batches = [],
      ws_stuck_iterations = 0, ws_last_range = None\<rparr>"

text \<open>The sub-ranges the dispatcher hands out in turn; \<open>sub_to + 1\<close> wraps when the snapshot is the largest
  number, hence the fuel.\<close>

fun dispatch_ranges :: "nat \<Rightarrow> u64 \<Rightarrow> u64 \<Rightarrow> nat \<Rightarrow> (u64 \<times> u64) list" where
  "dispatch_ranges 0 next_from snapshot chunk_size = []"
| "dispatch_ranges (Suc n) next_from snapshot chunk_size =
     (if snapshot < next_from then []
      else
        (let sub_to = min (saturating_add next_from (of_nat (chunk_size - 1))) snapshot in
         (next_from, sub_to) # dispatch_ranges n (sub_to + 1) snapshot chunk_size))"

section \<open>The plan of a live fetch\<close>

record live_fetch_retry_hint =
  lh_from_block :: u64
  lh_to_block :: u64

record live_fetch_plan =
  lp_from_block :: u64
  lp_to_block :: u64

record live_fetch_state =
  ls_retry_hint :: "live_fetch_retry_hint option"

definition clamp :: "'a::linorder \<Rightarrow> 'a \<Rightarrow> 'a \<Rightarrow> 'a" where
  "clamp x lo hi = (if x < lo then lo else if hi < x then hi else x)"

definition live_plan :: "live_fetch_state \<Rightarrow> u64 \<Rightarrow> u64 \<Rightarrow> u64 option \<Rightarrow> live_fetch_plan option" where
  "live_plan st next_from safe_head max_block_range =
     (if safe_head < next_from then None
      else
        (let normal_to = (case max_block_range of
               Some limit \<Rightarrow> min (saturating_add next_from limit) safe_head | None \<Rightarrow> safe_head);
             to_b = (case ls_retry_hint st of
               Some hint \<Rightarrow> clamp (lh_to_block hint) next_from normal_to | None \<Rightarrow> normal_to)
         in Some \<lparr>lp_from_block = next_from, lp_to_block = to_b\<rparr>))"

definition live_retry_with :: "u64 \<Rightarrow> u64 \<Rightarrow> live_fetch_state \<Rightarrow> live_fetch_state" where
  "live_retry_with from_b to_b st = st\<lparr>ls_retry_hint := Some \<lparr>lh_from_block = from_b, lh_to_block = to_b\<rparr>\<rparr>"

definition live_delivered :: "live_fetch_state \<Rightarrow> live_fetch_state" where
  "live_delivered st = st\<lparr>ls_retry_hint := None\<rparr>"

end
