(* ===== verification/Provider_Logs.thy ===== *)
theory Provider_Logs
  imports Provider_Correct
begin

text \<open>
  What a log query and a trace query return: every matching log of the chain once and in chain order, however
  the query is split over addresses and topic alternatives; every call of a trace once. Also the cache of the
  latest block.
\<close>

section \<open>Merging\<close>

lemma retain_new_set: "set (retain_new seen ls) \<subseteq> set ls"
  by (induction seen ls rule: retain_new.induct) (auto split: option.splits)

text \<open>The identities of a chain's logs are complete and tell them apart.\<close>

definition well_identified :: "rpc_log set \<Rightarrow> bool" where
  "well_identified ls = ((\<forall>l\<in>ls. log_identity l \<noteq> None) \<and> inj_on log_identity ls)"

lemma well_identified_subset: "well_identified A \<Longrightarrow> B \<subseteq> A \<Longrightarrow> well_identified B"
  by (auto simp: well_identified_def intro: inj_on_subset)

lemma retain_new_identified:
  "well_identified (set ls) \<Longrightarrow>
     set (retain_new seen ls) = {l\<in>set ls. log_identity l \<notin> Some ` set seen} \<and> distinct (retain_new seen ls)"
proof (induction seen ls rule: retain_new.induct)
  case (2 seen l ls)
  have sub: "well_identified (set ls)" using 2(4) by (rule well_identified_subset) auto
  obtain i where i: "log_identity l = Some i" using 2(4) by (auto simp: well_identified_def)
  have same: "log_identity m = Some i \<longleftrightarrow> m = l" if "m \<in> set ls" for m
    using 2(4) i that by (auto simp: well_identified_def inj_on_def)
  show ?case
  proof (cases "i \<in> set seen")
    case True
    then show ?thesis using 2(2) [OF i True sub] i by auto
  next
    case False
    then show ?thesis using 2(3) [OF i False sub] i same by auto
  qed
qed simp

lemma merge_filter_logs:
  assumes "well_identified (set (concat rs))"
  shows "set (merge_filter_logs rs) = set (concat rs)" and "distinct (merge_filter_logs rs)"
    and "sorted (map log_order (merge_filter_logs rs))"
  using retain_new_identified [OF assms, of "[]"] by (auto simp: merge_filter_logs_def)

section \<open>Splitting over addresses\<close>

lemma chunk_set_loop:
  "n \<noteq> 0 \<Longrightarrow> length current < n \<Longrightarrow>
    concat (chunk_set_loop n current items) = current @ items \<and>
    (\<forall>c\<in>set (chunk_set_loop n current items). c \<noteq> [] \<and> length c \<le> n)"
  by (induction n current items rule: chunk_set_loop.induct) (auto simp: Let_def)

lemma chunk_hashset:
  assumes "chunk_hashset items n = Inr cs"
  shows "concat cs = items" and "\<And>c. c \<in> set cs \<Longrightarrow> c \<noteq> [] \<and> length c \<le> n"
  using assms chunk_set_loop [of n "[]" items] by (auto simp: chunk_hashset_def split: if_splits)

text \<open>What a query asks for, as the JSON-RPC specification has it.\<close>

definition query_matches :: "rpc_filter \<Rightarrow> rpc_log \<Rightarrow> bool" where
  "query_matches q l =
     ((case lg_block_number l of Some n \<Rightarrow> rf_from_block q \<le> n \<and> n \<le> rf_to_block q | None \<Rightarrow> False) \<and>
      (rf_address q = [] \<or> lg_address l \<in> set (rf_address q)) \<and>
      (case lg_topics l of
         signature # values \<Rightarrow>
           signature = rf_event_signature q \<and> topics_match ([], rf_topic1 q, rf_topic2 q, rf_topic3 q) values
       | [] \<Rightarrow> False))"

text \<open>A node that answers with the matching logs of a chain, in whatever order and however often.\<close>

definition serves :: "rpc_log set \<Rightarrow> 'w log_call \<Rightarrow> bool" where
  "serves chain node =
     (\<forall>q v logs v'. node q v = (Inr logs, v') \<longrightarrow> set logs = {l\<in>chain. query_matches q l})"

lemma servesD: "serves chain node \<Longrightarrow> node q v = (Inr logs, v') \<Longrightarrow> set logs = {l\<in>chain. query_matches q l}"
  by (auto simp: serves_def)

lemma query_matches_address:
  "as \<noteq> [] \<Longrightarrow> query_matches (q\<lparr>rf_address := as\<rparr>) l \<longleftrightarrow> query_matches (q\<lparr>rf_address := []\<rparr>) l \<and> lg_address l \<in> set as"
  by (auto simp: query_matches_def split: option.splits list.splits)

lemma batches_serve:
  assumes node: "serves chain node" and run: "get_logs_for_address_in_batches node q as n w = (Inr logs, w')"
  shows "set logs = {l\<in>chain. query_matches (q\<lparr>rf_address := []\<rparr>) l \<and> lg_address l \<in> set as}"
proof -
  from run obtain cs rs where cs: "chunk_hashset as n = Inr cs"
    and rs: "try_join_all (map (\<lambda>c. node (q\<lparr>rf_address := c\<rparr>)) cs) w = (Inr rs, w')" and logs: "logs = concat rs"
    by (auto simp: get_logs_for_address_in_batches_def io_bind_eq_Inr)
  have "list_all2 (\<lambda>c r. set r = {l\<in>chain. query_matches (q\<lparr>rf_address := []\<rparr>) l \<and> lg_address l \<in> set c}) cs rs"
  proof (rule list.rel_mono_strong [OF try_join_all_Inr [OF rs]])
    fix c r
    assume "c \<in> set cs" and "\<exists>v v'. node (q\<lparr>rf_address := c\<rparr>) v = (Inr r, v')"
    with chunk_hashset(2) [OF cs] servesD [OF node]
    show "set r = {l\<in>chain. query_matches (q\<lparr>rf_address := []\<rparr>) l \<and> lg_address l \<in> set c}"
      by (fastforce simp: query_matches_address)
  qed
  then have "set (concat rs) = {l\<in>chain. query_matches (q\<lparr>rf_address := []\<rparr>) l \<and> lg_address l \<in> set (concat cs)}"
    by (induction cs rs rule: list_all2_induct) auto
  then show ?thesis by (simp add: logs chunk_hashset(1) [OF cs])
qed

text \<open>What an event filter asks for.\<close>

definition wanted :: "event_filter \<Rightarrow> address list option \<Rightarrow> rpc_log \<Rightarrow> bool" where
  "wanted f addresses l =
     ((case lg_block_number l of Some n \<Rightarrow> filter_from_block f \<le> n \<and> n \<le> filter_to_block f | None \<Rightarrow> False) \<and>
      (case addresses of Some as \<Rightarrow> lg_address l \<in> set as | None \<Rightarrow> True) \<and>
      (case lg_topics l of
         signature # values \<Rightarrow> signature = event_signature f \<and> (\<exists>t\<in>set (topic_sets f). topics_match t values)
       | [] \<Rightarrow> False))"

lemma topics_match_anonymous: "topics_match (x, t1, t2, t3) values = topics_match ([], t1, t2, t3) values"
  by (simp add: topics_match_def)

lemma filter_of_matches:
  "query_matches (filter_of f t) l \<longleftrightarrow>
     (case lg_block_number l of Some n \<Rightarrow> filter_from_block f \<le> n \<and> n \<le> filter_to_block f | None \<Rightarrow> False) \<and>
     (case lg_topics l of signature # values \<Rightarrow> signature = event_signature f \<and> topics_match t values | [] \<Rightarrow> False)"
proof -
  obtain x t1 t2 t3 where "t = (x, t1, t2, t3)" by (rule prod_cases4)
  then show ?thesis
    using topics_match_anonymous [of x t1 t2 t3] by (simp add: query_matches_def filter_of_def split: option.split list.split)
qed

lemma topics_serve:
  assumes node: "serves chain node"
    and run: "get_logs_for_topics node filtering f addresses t w = (Inr logs, w')"
  shows "set logs = {l\<in>chain. query_matches (filter_of f t) l \<and>
    (case addresses of Some as \<Rightarrow> lg_address l \<in> set as | None \<Rightarrow> True)}"
proof -
  have plain: "(filter_of f t)\<lparr>rf_address := []\<rparr> = filter_of f t"
    by (cases t) (simp add: filter_of_def)
  note batches = batches_serve [OF node, of "filter_of f t", unfolded plain]
  show ?thesis
  proof (cases addresses)
    case None
    with run servesD [OF node] show ?thesis by (auto simp: get_logs_for_topics_def)
  next
    case (Some as)
    show ?thesis
    proof (cases filtering)
      case None
      with Some run batches show ?thesis by (simp add: get_logs_for_topics_def)
    next
      case (Some how)
      show ?thesis
      proof (cases how)
        case In_Memory
        with run \<open>addresses = Some as\<close> Some obtain all where "node (filter_of f t) w = (Inr all, w')"
          and "logs = filter (\<lambda>l. lg_address l \<in> set as) all"
          by (auto simp: get_logs_for_topics_def get_logs_for_address_in_memory_def io_bind_eq_Inr)
        with servesD [OF node this(1)] \<open>addresses = Some as\<close> show ?thesis by auto
      next
        case (Max_Address_Per_Get_Logs_Request n)
        with run \<open>addresses = Some as\<close> Some batches show ?thesis by (simp add: get_logs_for_topics_def)
      qed
    qed
  qed
qed

lemma concat_answers:
  "list_all2 (\<lambda>t r. set r = {l\<in>chain. P t l \<and> Q l}) ts rs \<Longrightarrow> set (concat rs) = {l\<in>chain. (\<exists>t\<in>set ts. P t l) \<and> Q l}"
  by (induction ts rs rule: list_all2_induct) auto

lemma get_logs_answer:
  assumes node: "serves chain node" and chain: "well_identified chain"
    and run: "get_logs node known filtering f w = (Inr logs, w')"
    and addresses: "contract_addresses known f w = (Inr addresses, w1)"
  shows "set logs = {l\<in>chain. wanted f addresses l} \<and> distinct logs \<and> sorted (map log_order logs)"
proof (cases "addresses = Some []")
  case True
  with run addresses show ?thesis
    by (auto simp: get_logs_def io_bind_def wanted_def split: option.splits)
next
  case False
  with run addresses obtain rs where
    rs: "try_join_all (map (get_logs_for_topics node filtering f addresses) (topic_sets f)) w1 = (Inr rs, w')"
    and logs: "logs = merge_filter_logs rs"
    by (auto simp: get_logs_def io_bind_eq_Inr)
  have "list_all2 (\<lambda>t r. set r = {l\<in>chain. query_matches (filter_of f t) l \<and>
      (case addresses of Some as \<Rightarrow> lg_address l \<in> set as | None \<Rightarrow> True)}) (topic_sets f) rs"
    by (rule list_all2_mono [OF try_join_all_Inr [OF rs]]) (use topics_serve [OF node] in blast)
  then have "set (concat rs) = {l\<in>chain. (\<exists>t\<in>set (topic_sets f). query_matches (filter_of f t) l) \<and>
      (case addresses of Some as \<Rightarrow> lg_address l \<in> set as | None \<Rightarrow> True)}"
    by (rule concat_answers)
  also have "\<dots> = {l\<in>chain. wanted f addresses l}"
  proof -
    have "(\<exists>t\<in>set (topic_sets f). query_matches (filter_of f t) l) \<and>
        (case addresses of Some as \<Rightarrow> lg_address l \<in> set as | None \<Rightarrow> True) \<longleftrightarrow> wanted f addresses l" for l
      unfolding filter_of_matches wanted_def by (cases "lg_topics l") auto
    then show ?thesis by simp
  qed
  finally have "set (concat rs) = {l\<in>chain. wanted f addresses l}" .
  moreover from this have "well_identified (set (concat rs))"
    by (intro well_identified_subset [OF chain]) auto
  ultimately show ?thesis by (simp add: logs merge_filter_logs)
qed

text \<open>C25: A log query is complete and exact: whatever the address filtering, the chunks of addresses and the
  topic alternatives, and however often the node repeats a log, the result holds every log of the chain the
  filter asks for exactly once and nothing else, in the order of block, transaction and log index. An
  explicitly empty set of addresses asks for nothing.\<close>

theorem get_logs_complete:
  assumes node: "serves chain node" and chain: "well_identified chain"
    and run: "get_logs node known filtering f w = (Inr logs, w')"
    and addresses: "contract_addresses known f w = (Inr addresses, w1)"
  shows "set logs = {l\<in>chain. wanted f addresses l} \<and> distinct logs \<and> sorted (map log_order logs)"
  by (rule get_logs_answer [OF assms])

definition sample_log :: "u64 \<Rightarrow> address \<Rightarrow> rpc_log" where
  "sample_log n a = \<lparr>lg_address = a, lg_topics = [77], lg_data = [], lg_block_hash = Some (ucast n),
     lg_block_number = Some n, lg_block_timestamp = None, lg_transaction_hash = Some (ucast a),
     lg_transaction_index = Some 0, lg_log_index = Some 0, lg_removed = False\<rparr>"

definition sample_chain :: "rpc_log list" where
  "sample_chain = [sample_log 12 5, sample_log 11 5, sample_log 12 6, sample_log 30 5]"

definition sample_filter :: event_filter where
  "sample_filter = new_address_filter (\<lambda>_. 0) 77 ''Transfer'' \<lparr>ad_address = Array_Of [5, 6], ad_indexed_filters = None\<rparr> 10 20"

definition sample_node :: "unit log_call" where
  "sample_node q w = (Inr (filter (query_matches q) (sample_chain @ sample_chain)), w)"

theorem get_logs_complete_witness:
  "\<exists>logs. get_logs sample_node (\<lambda>_ _. io_ret None) (Some (Max_Address_Per_Get_Logs_Request 1)) sample_filter () = (Inr logs, ()) \<and>
     set logs = {l\<in>set sample_chain. wanted sample_filter (Some [5, 6]) l} \<and> distinct logs \<and>
     sample_log 12 5 \<in> set logs"
proof -
  have serves: "serves (set sample_chain) sample_node" by (auto simp: serves_def sample_node_def)
  have chain: "well_identified (set sample_chain)"
    by (auto simp: well_identified_def inj_on_def sample_chain_def sample_log_def log_identity_def)
  have run: "get_logs sample_node (\<lambda>_ _. io_ret None) (Some (Max_Address_Per_Get_Logs_Request 1)) sample_filter () =
    (Inr (merge_filter_logs [concat (map (\<lambda>as. filter (query_matches ((filter_of sample_filter no_topics)\<lparr>rf_address := as\<rparr>))
       (sample_chain @ sample_chain)) [[5], [6]])]), ())"
    by (simp add: get_logs_def sample_filter_def new_address_filter_def simple_contract_address_def get_logs_for_topics_def
        get_logs_for_address_in_batches_def chunk_hashset_def sample_node_def io_bind_def no_topics_def)
  have addresses: "contract_addresses (\<lambda>_ _. io_ret None) sample_filter () = (Inr (Some [5, 6]), ())"
    by (simp add: sample_filter_def new_address_filter_def simple_contract_address_def)
  have "sample_log 12 5 \<in> set sample_chain" "wanted sample_filter (Some [5, 6]) (sample_log 12 5)"
    by (simp_all add: sample_chain_def wanted_def sample_log_def sample_filter_def new_address_filter_def)
  with get_logs_complete [OF serves chain run addresses] run show ?thesis by blast
qed

section \<open>Traces\<close>

text \<open>A trace read as a tree: a call, then its sub-calls from the last to the first.\<close>

fun trace_calls :: "trace_call \<Rightarrow> trace_fields list" where
  "trace_calls (Trace_Call f cs) = f # concat (rev (map trace_calls cs))"

lemma trace_calls_eq: "trace_calls c = call_fields c # concat (rev (map trace_calls (calls c)))"
  by (cases c) simp

lemma flatten_stack_eq: "flatten_stack stack = concat (rev (map trace_calls stack))"
proof (induction stack rule: flatten_stack.induct)
  case (1 stack)
  show ?case
  proof (cases stack rule: rev_exhaust)
    case Nil
    then show ?thesis by (simp add: flatten_stack.simps)
  next
    case (snoc rest c)
    with 1 show ?thesis by (simp add: flatten_stack.simps [of "rest @ [c]"] trace_calls_eq [of c])
  qed
qed

text \<open>The stack loop lists every call of a trace exactly once: it returns the pre-order of the call tree,
  sub-calls from the last to the first, the transaction hash on the outermost call only.\<close>

theorem trace_lists_every_call:
  "flattened_calls traces =
    concat (map (\<lambda>(tx_hash, c). (tx_hash, call_fields c) # map (Pair None) (tl (trace_calls c))) traces)"
  by (simp add: flattened_calls_def flatten_stack_eq trace_calls_eq)

section \<open>The cache of the latest block\<close>

text \<open>The latest block comes from the cache only while it is younger than the poll interval; a failed
  request keeps the cached block, and an answer without a block empties the cache.\<close>

lemma latest_block_cache:
  "get_latest_block now fetch cache_time (cache, w) =
    (if (case cache of Some (timestamp, block) \<Rightarrow> now w - timestamp < cache_time | None \<Rightarrow> False)
     then (Inr (map_option snd cache), (cache, w))
     else let (r, w') = fetch w in (r, (case r of Inl _ \<Rightarrow> cache | Inr b \<Rightarrow> map_option (Pair (now w')) b, w')))"
  by (auto simp: get_latest_block_def Let_def split: option.splits prod.splits sum.splits)

end
