(* ===== verification/Log_Fetching_Correct.thy ===== *)
theory Log_Fetching_Correct
  imports Log_Fetching Provider_Logs
begin

text \<open>
  What log fetching promises: the loop over history delivers every log of the chain once and in order, however
  the ranges grow and shrink, and ends when the node answers; the sub-ranges of the parallel backfill
  partition the history, so that with the reorder buffer it delivers the same sequence; the fallback range
  shrinks; a live fetch stays below the safe head.
\<close>

section \<open>Ranges\<close>

lemma with_range_simps [simp]:
  "with_range (with_range f a b) c d = with_range f c d"
  "filter_from_block (with_range f a b) = a" "filter_to_block (with_range f a b) = b"
  by (cases f; simp add: with_range_def)+

lemma with_range_self [simp]: "with_range f (filter_from_block f) (filter_to_block f) = f"
  by (cases f) (simp_all add: with_range_def)

lemma set_to_block_with_range: "set_to_block c f = with_range f (filter_from_block f) c"
  by (cases f) (simp_all add: with_range_def)

lemma word_no_wrap_Suc: "(x::'a::len word) \<noteq> - 1 \<Longrightarrow> unat (x + 1) = Suc (unat x)"
  by (metis word_succ_unat word_order.not_eq_extremum)

lemma word_less_inc: "(b::'a::len word) \<noteq> - 1 \<Longrightarrow> n < b + 1 \<longleftrightarrow> n \<le> b"
  by (simp add: word_less_nat_alt word_le_nat_alt word_no_wrap_Suc less_Suc_eq_le)

lemma word_inc_greater: "(b::'a::len word) \<noteq> - 1 \<Longrightarrow> b < b + 1"
  by (simp add: word_less_inc)

lemma unat_minus_one_word: "unat (- 1 :: u64) = 2 ^ 64 - 1"
  by (simp add: unsigned_minus_1_eq_mask mask_eq_exp_minus_1)

section \<open>The chain a node reports\<close>

definition block_of :: "rpc_log \<Rightarrow> u64" where
  "block_of l = (case lg_block_number l of Some n \<Rightarrow> n | None \<Rightarrow> 0)"

definition untimed :: "rpc_log \<Rightarrow> rpc_log" where
  "untimed l = l\<lparr>lg_block_timestamp := None\<rparr>"

definition numbered_chain :: "rpc_log list \<Rightarrow> bool" where
  "numbered_chain chain = (sorted (map block_of chain) \<and> (\<forall>l\<in>set chain. lg_block_number l \<noteq> None))"

definition chain_part :: "rpc_log list \<Rightarrow> u64 \<Rightarrow> u64 \<Rightarrow> rpc_log list" where
  "chain_part chain a b = filter (\<lambda>l. a \<le> block_of l \<and> block_of l < b) chain"

text \<open>The node answers a query for a range with the logs of the chain in that range.\<close>

definition answers_chain :: "('w, 'z) fetch_env_scheme \<Rightarrow> event_filter \<Rightarrow> rpc_log list \<Rightarrow> bool" where
  "answers_chain E f chain =
     (\<forall>a b w logs w'. fe_get_logs E (with_range f a b) w = (Inr logs, w') \<longrightarrow>
        logs = filter (\<lambda>l. a \<le> block_of l \<and> block_of l \<le> b) chain)"

text \<open>Attaching timestamps changes nothing else.\<close>

definition keeps_logs :: "('w, 'z) fetch_env_scheme \<Rightarrow> bool" where
  "keeps_logs E =
     (\<forall>ls w ls' w'. fe_attach_timestamps E ls w = (Inr ls', w') \<longrightarrow> map untimed ls' = map untimed ls)"

text \<open>A range limitation that cannot make a range wrap.\<close>

definition limit_fits :: "u64 \<Rightarrow> u64 option \<Rightarrow> bool" where
  "limit_fits snapshot limit = (\<forall>l. limit = Some l \<longrightarrow> unat snapshot + unat l < 2 ^ 64 - 1)"

text \<open>A range a provider names in the text of an error starts where the failed query started and is not empty;
  a maximum it names does not make a range wrap.\<close>

definition sound_hints :: "('w, 'z) fetch_env_scheme \<Rightarrow> event_filter \<Rightarrow> u64 \<Rightarrow> bool" where
  "sound_hints E f snapshot =
     (\<forall>a b w err w'. a \<le> b \<and> a \<le> snapshot \<and> fe_get_logs E (with_range f a b) w = (Inl err, w') \<longrightarrow>
        (\<forall>c d. captured_range E alchemy_pattern (error_texts E err) = Some (c, d)
            \<or> captured_range E infura_pattern (error_texts E err) = Some (c, d) \<longrightarrow> c = a \<and> a \<le> d \<and> d \<noteq> - 1) \<and>
        limit_fits snapshot (limited_hint E (error_texts E err)))"

lemma sound_hintsD:
  assumes "sound_hints E f snapshot" and "a \<le> b" and "a \<le> snapshot" and "fe_get_logs E (with_range f a b) w = (Inl err, w')"
  shows "captured_range E alchemy_pattern (error_texts E err) = Some (c, d)
      \<or> captured_range E infura_pattern (error_texts E err) = Some (c, d) \<Longrightarrow> c = a \<and> a \<le> d \<and> d \<noteq> - 1"
    and "limit_fits snapshot (limited_hint E (error_texts E err))"
proof -
  have "(\<forall>c d. captured_range E alchemy_pattern (error_texts E err) = Some (c, d)
      \<or> captured_range E infura_pattern (error_texts E err) = Some (c, d) \<longrightarrow> c = a \<and> a \<le> d \<and> d \<noteq> - 1) \<and>
      limit_fits snapshot (limited_hint E (error_texts E err))"
    using assms unfolding sound_hints_def by blast
  then show "captured_range E alchemy_pattern (error_texts E err) = Some (c, d)
      \<or> captured_range E infura_pattern (error_texts E err) = Some (c, d) \<Longrightarrow> c = a \<and> a \<le> d \<and> d \<noteq> - 1"
    and "limit_fits snapshot (limited_hint E (error_texts E err))"
    by blast+
qed

lemma answers_chainD:
  "answers_chain E f chain \<Longrightarrow> fe_get_logs E (with_range f a b) w = (Inr logs, w') \<Longrightarrow>
     logs = filter (\<lambda>l. a \<le> block_of l \<and> block_of l \<le> b) chain"
  unfolding answers_chain_def by blast

lemma chain_part_append:
  "sorted (map block_of chain) \<Longrightarrow> a \<le> b \<Longrightarrow> b \<le> c \<Longrightarrow> chain_part chain a b @ chain_part chain b c = chain_part chain a c"
proof (induction chain)
  case (Cons l chain)
  then have "chain_part chain a b = []" if "b \<le> block_of l"
    using that by (auto simp: chain_part_def filter_empty_conv)
  with Cons show ?case by (auto simp: chain_part_def)
qed (simp add: chain_part_def)

lemma chain_part_empty [simp]: "chain_part chain a a = []"
  by (auto simp: chain_part_def filter_empty_conv)

lemma last_filter_greatest:
  assumes "sorted (map block_of chain)" and "l \<in> set (filter P chain)"
  shows "block_of l \<le> block_of (last (filter P chain))"
proof -
  have "block_of l \<le> block_of (last ls)" if "sorted (map block_of ls)" and "l \<in> set ls" for ls
    using that by (induction ls rule: rev_induct) (auto simp: sorted_append)
  then show ?thesis using assms(2) sorted_filter [OF assms(1)] by blast
qed

text \<open>What a delivered answer covers: everything up to the block the loop goes on with.\<close>

lemma answer_covers:
  assumes chain: "numbered_chain chain" and range: "a \<le> b" "b \<noteq> - 1"
    and logs: "logs = filter (\<lambda>l. a \<le> block_of l \<and> block_of l \<le> b) chain"
  obtains next_from where "next_from_block b logs = Some next_from" and "a < next_from" and "next_from \<le> b + 1"
    and "logs = chain_part chain a next_from"
proof (cases "logs = []")
  case True
  then have "logs = chain_part chain a (b + 1)"
    using logs range by (auto simp: chain_part_def word_less_inc filter_empty_conv)
  moreover have "a < b + 1" using range by (simp add: word_less_inc)
  ultimately show ?thesis using that [of "b + 1"] True by (simp add: next_from_block_def)
next
  case False
  let ?n = "block_of (last logs)"
  have last: "last logs \<in> set logs" using False by simp
  then have n: "a \<le> ?n" "?n \<le> b" "lg_block_number (last logs) = Some ?n"
    using chain by (auto simp: logs numbered_chain_def block_of_def)
  then have "?n \<noteq> - 1" using range(2) word_order.extremum_unique [of b] by auto
  note inc = word_less_inc [OF this]
  have "block_of l \<le> ?n" if "l \<in> set logs" for l
    using that chain unfolding logs by (intro last_filter_greatest) (auto simp: numbered_chain_def)
  then have le: "block_of l \<le> ?n" if "l \<in> set chain" "a \<le> block_of l" "block_of l \<le> b" for l
    using that by (subst (asm) logs) auto
  then have "logs = chain_part chain a (?n + 1)"
    unfolding chain_part_def by (subst logs, intro filter_cong) (use n inc le in auto)
  moreover have "a < ?n + 1" using n inc by simp
  moreover have "?n + 1 \<le> b + 1"
    using n range(2) \<open>?n \<noteq> - 1\<close> by (simp add: word_le_nat_alt word_no_wrap_Suc)
  ultimately show ?thesis using that [of "?n + 1"] False n by (simp add: next_from_block_def)
qed

lemma halved_range:
  assumes "a \<le> b" and "b \<noteq> - 1" and "unat a + 3 < 2 ^ 64"
  shows "a \<le> halved_block_number b a" and "halved_block_number b a \<noteq> - 1"
proof -
  have "unat b < 2 ^ 64" by (rule order_less_le_trans [OF unsigned_less]) simp
  then have unat_b: "unat b < 2 ^ 64 - 1" using assms(2) by (auto simp: word_unat_eq_iff unat_minus_one_word)
  have "unat (a + (b - a) div 2) = unat a + (unat b - unat a) div 2"
  proof -
    have d: "unat ((b - a) div 2) = (unat b - unat a) div 2"
      using assms(1) by (simp add: unat_div unat_sub word_le_nat_alt)
    have "unat a + (unat b - unat a) div 2 \<le> unat b" using assms(1) by (simp add: word_le_nat_alt)
    then show ?thesis using unat_b d by (subst unat_add_lem [THEN iffD1]) simp_all
  qed
  moreover have "unat (a + 2) = unat a + 2" using assms(3) by (subst unat_add_lem [THEN iffD1]) simp_all
  moreover have "unat a + (unat b - unat a) div 2 \<le> unat b" using assms(1) by (simp add: word_le_nat_alt)
  ultimately show "a \<le> halved_block_number b a" "halved_block_number b a \<noteq> - 1"
    using assms(3) unat_b by (auto simp: halved_block_number_def max_def word_le_nat_alt word_unat_eq_iff unat_minus_one_word)
qed


section \<open>A failed query\<close>

lemma u64_add_fits: "unat a + unat b < 2 ^ 64 - 1 \<Longrightarrow> unat ((a::u64) + b) = unat a + unat b"
  by (subst unat_add_lem [THEN iffD1]) simp_all

lemma limited_range_fits:
  assumes "a \<le> snapshot" and "limit_fits snapshot limit" and "unat snapshot + unat n < 2 ^ 64 - 1"
  shows "rt_from (limited_range a (min_limit limit n)) = a" and "a \<le> rt_to (limited_range a (min_limit limit n))"
    and "rt_to (limited_range a (min_limit limit n)) \<noteq> - 1"
    and "limit_fits snapshot (rt_max_block_range (limited_range a (min_limit limit n)))"
proof -
  have m: "unat snapshot + unat (min_limit limit n) < 2 ^ 64 - 1"
    using assms(2,3) by (auto simp: min_limit_def limit_fits_def min_def split: option.splits)
  then have "unat (a + min_limit limit n) = unat a + unat (min_limit limit n)"
    using assms(1) by (intro u64_add_fits) (simp add: word_le_nat_alt)
  moreover have "unat a \<le> unat snapshot" using assms(1) by (simp add: word_le_nat_alt)
  ultimately show "rt_from (limited_range a (min_limit limit n)) = a" "a \<le> rt_to (limited_range a (min_limit limit n))"
    "rt_to (limited_range a (min_limit limit n)) \<noteq> - 1"
    "limit_fits snapshot (rt_max_block_range (limited_range a (min_limit limit n)))"
    using m by (auto simp: limited_range_def word_le_nat_alt word_unat_eq_iff unat_minus_one_word limit_fits_def)
qed

lemma unat_fallback_value: "unat (fallback_value r) \<le> 5000"
  by (cases r) simp_all

definition retry_goes_on :: "u64 \<Rightarrow> u64 \<Rightarrow> retry_with_block_range_result \<Rightarrow> bool" where
  "retry_goes_on snapshot a r =
     (rt_from r = a \<and> a \<le> rt_to r \<and> rt_to r \<noteq> - 1 \<and> limit_fits snapshot (rt_max_block_range r))"

lemma retry_goes_on_limited:
  "a \<le> snapshot \<Longrightarrow> limit_fits snapshot limit \<Longrightarrow> unat snapshot + unat n < 2 ^ 64 - 1 \<Longrightarrow>
     retry_goes_on snapshot a (limited_range a (min_limit limit n))"
  using limited_range_fits by (simp add: retry_goes_on_def)

lemma retry_goes_on_halved:
  assumes "a \<le> b" and "b \<noteq> - 1" and "a \<le> snapshot" and "unat snapshot + 5001 < 2 ^ 64" and "limit_fits snapshot limit"
  shows "retry_goes_on snapshot a \<lparr>rt_from = a, rt_to = halved_block_number b a, rt_max_block_range = limit\<rparr>"
  using halved_range [of a b] assms by (simp add: retry_goes_on_def word_le_nat_alt)

lemma retry_stays:
  assumes hints: "\<And>c d. captured_range E alchemy_pattern (error_texts E err) = Some (c, d)
        \<or> captured_range E infura_pattern (error_texts E err) = Some (c, d) \<Longrightarrow> c = a \<and> a \<le> d \<and> d \<noteq> - 1"
      "limit_fits snapshot (limited_hint E (error_texts E err))"
    and range: "a \<le> b" "b \<noteq> - 1" "a \<le> snapshot" "unat snapshot + 5001 < 2 ^ 64" and limit: "limit_fits snapshot limit"
    and retry: "retry_with_block_range E err a b limit = Some r"
  shows "retry_goes_on snapshot a r"
proof -
  note halved = retry_goes_on_halved [OF range limit]
  note limited = retry_goes_on_limited [OF range(3) limit]
  have hinted: "retry_goes_on snapshot a (limited_range a (min_limit limit n))" if "limited_hint E (error_texts E err) = Some n" for n
    using that hints(2) by (intro limited) (auto simp: limit_fits_def)
  have fixed: "retry_goes_on snapshot a (limited_range a (min_limit limit 3000))"
    "retry_goes_on snapshot a (limited_range a (min_limit limit 2000))"
    "retry_goes_on snapshot a (limited_range a (min_limit limit (fallback_value k)))" for k
    using range(4) unat_fallback_value [of k] by (intro limited; simp)+
  have fallback: "fallback_retry a b limit = Some r' \<Longrightarrow> retry_goes_on snapshot a r'" for r'
    using halved fixed(3) by (auto simp: fallback_retry_def Let_def split: if_splits)
  consider c d where "captured_range E alchemy_pattern (error_texts E err) = Some (c, d)"
    | c d where "captured_range E alchemy_pattern (error_texts E err) = None"
        "captured_range E infura_pattern (error_texts E err) = Some (c, d)"
    | "captured_range E alchemy_pattern (error_texts E err) = None"
        "captured_range E infura_pattern (error_texts E err) = None"
    by (metis option.exhaust prod.exhaust)
  then show ?thesis
  proof cases
    case (1 c d)
    with hints(1) [of c d] retry limit show ?thesis
      by (auto simp: retry_with_block_range_def retry_goes_on_def Let_def split: if_splits)
  next
    case (2 c d)
    with hints(1) [of c d] retry limit show ?thesis
      by (auto simp: retry_with_block_range_def retry_goes_on_def Let_def)
  next
    case 3
    with retry halved hinted fixed fallback show ?thesis
      by (auto simp: retry_with_block_range_def Let_def split: if_splits option.splits)
  qed
qed


section \<open>One query\<close>

text \<open>Everything the loops assume of a node and its providers, for a block range up to \<open>snapshot\<close>.\<close>

definition reliable_node :: "('w, 'z) fetch_env_scheme \<Rightarrow> event_filter \<Rightarrow> u64 \<Rightarrow> rpc_log list \<Rightarrow> bool" where
  "reliable_node E f snapshot chain =
     (numbered_chain chain \<and> answers_chain E f chain \<and> keeps_logs E \<and> sound_hints E f snapshot \<and>
      unat snapshot + 5001 < 2 ^ 64)"

definition delivers :: "rpc_log list \<Rightarrow> u64 \<Rightarrow> u64 \<Rightarrow> fetch_logs_result \<Rightarrow> bool" where
  "delivers chain a n r = (map untimed (fr_logs r) = map untimed (chain_part chain a n) \<and> fr_from_block r = a)"

lemma query_range_step:
  assumes node: "reliable_node E f snapshot chain" and limit: "limit_fits snapshot limit"
    and range: "a \<le> b" "b \<noteq> - 1" "a \<le> snapshot"
    and query: "query_range E beyond (with_range f a b) limit snapshot w = (out, w')"
  shows "(fo_panic out = False \<and> fo_result out = None \<and> fo_error_kind out \<noteq> None \<and>
       (\<exists>b' limit'. fo_next out = Some (with_range f a b', limit') \<and> a \<le> b' \<and> b' \<noteq> - 1 \<and> limit_fits snapshot limit')) \<or>
     (fo_panic out = False \<and> fo_error_kind out = None \<and> (\<exists>r n. fo_result out = Some r \<and> delivers chain a n r \<and> a < n \<and> n \<le> b + 1 \<and>
       fo_next out = (if snapshot < n then beyond n
         else Some (with_range f n (calculate_process_historic_log_to_block n snapshot limit), limit))))"
proof -
  have big: "unat a + 3 < 2 ^ 64" and small: "unat snapshot + 5001 < 2 ^ 64"
    using node range(3) by (auto simp: reliable_node_def word_le_nat_alt)
  note halved = halved_range [OF range(1,2) big]
  show ?thesis
  proof (cases "fe_get_logs E (with_range f a b) w")
    case (Pair res w1)
    show ?thesis
    proof (cases res)
      case (Inl err)
      have "retry_goes_on snapshot a r" if "retry_with_block_range E err a b limit = Some r" for r
      proof -
        have hints: "sound_hints E f snapshot" using node by (simp add: reliable_node_def)
        have query: "fe_get_logs E (with_range f a b) w = (Inl err, w1)" using Pair Inl by simp
        show ?thesis
          using sound_hintsD [OF hints range(1,3) query] range small limit that by (rule retry_stays)
      qed
      with halved limit show ?thesis
        using query unfolding query_range_def Let_def with_range_simps Pair Inl
        by (cases "retry_with_block_range E err a b limit") (auto simp: retry_goes_on_def)
    next
      case (Inr logs)
      have chain: "numbered_chain chain" "logs = filter (\<lambda>l. a \<le> block_of l \<and> block_of l \<le> b) chain"
        using node answers_chainD [of E f chain a b w logs w1] Pair Inr by (simp_all add: reliable_node_def)
      obtain n where n: "next_from_block b logs = Some n" "a < n" "n \<le> b + 1" "logs = chain_part chain a n"
        using answer_covers [OF chain(1) range(1,2) chain(2)] by blast
      show ?thesis
      proof (cases "if fe_timestamps E then fe_attach_timestamps E logs w1 else (Inr logs, w1)")
        case (Pair timed w2)
        show ?thesis
        proof (cases timed)
          case (Inl e)
          then show ?thesis using query halved limit
            unfolding query_range_def Let_def with_range_simps \<open>fe_get_logs E _ w = _\<close> Inr sum.case prod.case Pair by auto
        next
          case (Inr ls)
          have "map untimed ls = map untimed logs"
            using node Pair Inr by (fastforce simp: reliable_node_def keeps_logs_def split: if_splits)
          moreover have "out = \<lparr>fo_result = Some \<lparr>fr_logs = ls, fr_from_block = a, fr_to_block = b, fr_reorg = None\<rparr>,
              fo_next = (if snapshot < n then beyond n
                else Some (with_range f n (calculate_process_historic_log_to_block n snapshot limit), limit)),
              fo_error_kind = None, fo_panic = False\<rparr>"
            using query n(1)
            unfolding query_range_def Let_def with_range_simps \<open>fe_get_logs E _ w = _\<close> \<open>res = _\<close> sum.case prod.case Pair Inr
            by auto
          ultimately show ?thesis using n(2-4) by (intro disjI2) (simp add: delivers_def, blast)
        qed
      qed
    qed
  qed
qed

lemma next_range:
  assumes "n \<le> snapshot" and "limit_fits snapshot limit" and "unat snapshot + 5001 < 2 ^ 64"
  shows "n \<le> calculate_process_historic_log_to_block n snapshot limit"
    and "calculate_process_historic_log_to_block n snapshot limit \<le> snapshot" 
    and "calculate_process_historic_log_to_block n snapshot limit \<noteq> - 1"
proof -
  have "unat (n + l) = unat n + unat l" if "limit = Some l" for l
    using assms that by (intro u64_add_fits) (auto simp: limit_fits_def word_le_nat_alt)
  then show "n \<le> calculate_process_historic_log_to_block n snapshot limit"
    "calculate_process_historic_log_to_block n snapshot limit \<le> snapshot"
    using assms(1)
    by (auto simp: calculate_process_historic_log_to_block_def Let_def word_le_nat_alt word_less_nat_alt split: option.splits)
  then show "calculate_process_historic_log_to_block n snapshot limit \<noteq> - 1"
    using assms(3) by (auto simp: word_le_nat_alt unat_minus_one_word)
qed

section \<open>The sequential loop\<close>

text \<open>What holds of the loop: all logs from the start up to the next range have been delivered, once and in order.\<close>

definition sent_logs :: "fetch_logs_result list \<Rightarrow> rpc_log list" where
  "sent_logs rs = concat (map (\<lambda>r. map untimed (fr_logs r)) rs)"

definition delivered_up_to :: "event_filter \<Rightarrow> rpc_log list \<Rightarrow> u64 \<Rightarrow> u64 \<Rightarrow> fetch_logs_result list \<Rightarrow> bool" where
  "delivered_up_to f chain start a rs = (start \<le> a \<and> sent_logs rs = map untimed (chain_part chain start a))"

lemma sent_logs_simps [simp]:
  "sent_logs [] = []" "sent_logs (rs @ rs') = sent_logs rs @ sent_logs rs'" "sent_logs [r] = map untimed (fr_logs r)"
  by (simp_all add: sent_logs_def)

definition historic_inv :: "event_filter \<Rightarrow> rpc_log list \<Rightarrow> u64 \<Rightarrow> u64 \<Rightarrow> historic_state \<Rightarrow> bool" where
  "historic_inv f chain start snapshot st =
     (\<exists>a b. hs_filter st = with_range f a b \<and> delivered_up_to f chain start a (hs_sent st) \<and>
        (a \<le> snapshot \<longrightarrow> a \<le> b \<and> b \<noteq> - 1) \<and> limit_fits snapshot (hs_limit st))"

lemma delivered_step:
  assumes "numbered_chain chain" and "delivered_up_to f chain start a rs" and "delivers chain a n r" and "a < n"
  shows "delivered_up_to f chain start n (rs @ [r])"
  using assms chain_part_append [of chain start a n]
  by (auto simp: delivered_up_to_def delivers_def numbered_chain_def simp flip: map_append)

lemma historic_invI:
  "hs_filter st = with_range f a b \<Longrightarrow> delivered_up_to f chain start a (hs_sent st) \<Longrightarrow>
   (a \<le> snapshot \<Longrightarrow> a \<le> b \<and> b \<noteq> - 1) \<Longrightarrow> limit_fits snapshot (hs_limit st) \<Longrightarrow> historic_inv f chain start snapshot st"
  unfolding historic_inv_def by blast

lemma historic_step:
  assumes node: "reliable_node E f snapshot chain" and inv: "historic_inv f chain start snapshot st"
    and go: "filter_from_block (hs_filter st) \<le> snapshot"
    and step: "fetch_historic_logs_stream E (hs_filter st) (hs_limit st) snapshot w = (out, w')"
    and original: "limit_fits snapshot original"
  shows "\<not> fo_panic out \<and>
    (case fo_next out of
       None \<Rightarrow> result_list out = [] \<and> fst (fe_channel_open E w) = False
     | Some (g, limit) \<Rightarrow>
         historic_inv f chain start snapshot
           (st\<lparr>hs_sent := hs_sent st @ result_list out, hs_filter := g, hs_limit := (if c then original else limit)\<rparr>) \<and>
         (if fo_error_kind out = None then filter_from_block (hs_filter st) < filter_from_block g
          else filter_from_block (hs_filter st) = filter_from_block g))"
proof -
  obtain a b where ab: "hs_filter st = with_range f a b" "delivered_up_to f chain start a (hs_sent st)"
      "a \<le> b" "b \<noteq> - 1" "a \<le> snapshot" and limit: "limit_fits snapshot (hs_limit st)"
    using inv go by (auto simp: historic_inv_def)
  note small = node [unfolded reliable_node_def, THEN conjunct2, THEN conjunct2, THEN conjunct2, THEN conjunct2]
  have chain: "numbered_chain chain" using node by (simp add: reliable_node_def)
  show ?thesis
  proof (cases "fe_channel_open E w")
    case (Pair is_open w1)
    show ?thesis
    proof (cases is_open)
      case False
      then have "out = \<lparr>fo_result = None, fo_next = None, fo_error_kind = None, fo_panic = False\<rparr>"
        using step ab(3) unfolding fetch_historic_logs_stream_def ab(1) with_range_simps Pair by (simp add: leD)
      with False Pair show ?thesis by (simp add: result_list_def)
    next
      case True
      then have q: "query_range E (\<lambda>next_from. Some (with_range (with_range f a b) next_from next_from, hs_limit st))
          (with_range f a b) (hs_limit st) snapshot w1 = (out, w')"
        using step ab(3) unfolding fetch_historic_logs_stream_def ab(1) with_range_simps Pair by (simp add: leD)
      from query_range_step [OF node limit ab(3-5) q] show ?thesis
      proof (elim disjE)
        assume "fo_panic out = False \<and> fo_result out = None \<and> fo_error_kind out \<noteq> None \<and>
          (\<exists>b' limit'. fo_next out = Some (with_range f a b', limit') \<and> a \<le> b' \<and> b' \<noteq> - 1 \<and> limit_fits snapshot limit')"
        then obtain b' limit' where out: "\<not> fo_panic out" "fo_result out = None" "fo_error_kind out \<noteq> None"
            "fo_next out = Some (with_range f a b', limit')" "a \<le> b'" "b' \<noteq> - 1" "limit_fits snapshot limit'"
          by blast
        then have "historic_inv f chain start snapshot
            (st\<lparr>hs_sent := hs_sent st @ result_list out, hs_filter := with_range f a b', hs_limit := (if c then original else limit')\<rparr>)"
          using ab original by (intro historic_invI [where a = a and b = b']) (auto simp: result_list_def)
        then show ?thesis using out ab(1) by simp
      next
        assume "fo_panic out = False \<and> fo_error_kind out = None \<and> (\<exists>r n. fo_result out = Some r \<and> delivers chain a n r \<and> a < n \<and> n \<le> b + 1 \<and>
          fo_next out = (if snapshot < n then Some (with_range (with_range f a b) n n, hs_limit st)
            else Some (with_range f n (calculate_process_historic_log_to_block n snapshot (hs_limit st)), hs_limit st)))"
        then obtain r n where rn: "fo_panic out = False" "fo_error_kind out = None" "fo_result out = Some r"
            "delivers chain a n r" "a < n"
            "fo_next out = (if snapshot < n then Some (with_range f n n, hs_limit st)
            else Some (with_range f n (calculate_process_historic_log_to_block n snapshot (hs_limit st)), hs_limit st))"
          by auto
        then have sent: "delivered_up_to f chain start n (hs_sent st @ [r])" using delivered_step [OF chain ab(2)] by blast
        let ?b = "if snapshot < n then n else calculate_process_historic_log_to_block n snapshot (hs_limit st)"
        have follow: "fo_next out = Some (with_range f n ?b, hs_limit st)" using rn(6) by simp
        have "historic_inv f chain start snapshot
            (st\<lparr>hs_sent := hs_sent st @ result_list out, hs_filter := with_range f n ?b, hs_limit := (if c then original else hs_limit st)\<rparr>)"
          using sent rn(3) original limit next_range [OF _ limit small, of n]
          by (intro historic_invI [where a = n and b = ?b]) (auto simp: result_list_def)
        then show ?thesis using rn(1,2,5) ab(1) follow by simp
      qed
    qed
  qed
qed


lemma historic_loop_delivers:
  assumes node: "reliable_node E f snapshot chain" and original: "limit_fits snapshot original"
  shows "historic_inv f chain start snapshot st \<Longrightarrow> historic_loop E snapshot original n st w = Some (r, w') \<Longrightarrow>
    \<exists>st'. r = Finished st' \<and> historic_inv f chain start snapshot st' \<and>
      (snapshot < filter_from_block (hs_filter st') \<or> (\<exists>v. fe_stopped E v) \<or> (\<exists>v. \<not> fst (fe_channel_open E v)))"
proof (induction n arbitrary: st w)
  case (Suc n)
  show ?case
  proof (cases "snapshot < filter_from_block (hs_filter st) \<or> fe_stopped E w")
    case True
    with Suc.prems show ?thesis by auto
  next
    case False
    obtain out w1 where step: "fetch_historic_logs_stream E (hs_filter st) (hs_limit st) snapshot w = (out, w1)" by fastforce
    have go: "filter_from_block (hs_filter st) \<le> snapshot" using False by (simp add: not_less)
    note inv = historic_step [OF node Suc.prems(1) go step original]
    show ?thesis
    proof (cases "fo_next out")
      case None
      then have "r = Finished st" using Suc.prems(2) False step inv by simp
      with None inv Suc.prems(1) show ?thesis by auto
    next
      case (Some p)
      obtain g limit where p: "p = (g, limit)" by fastforce
      obtain c w2 where c: "fe_one_in_ten E w1 = (c, w2)" by fastforce
      have "historic_loop E snapshot original n (st\<lparr>hs_sent := hs_sent st @ result_list out, hs_filter := g,
          hs_limit := (if c then original else limit)\<rparr>) w2 = Some (r, w')"
        using Suc.prems(2) False step inv Some p c by simp
      moreover have "historic_inv f chain start snapshot (st\<lparr>hs_sent := hs_sent st @ result_list out, hs_filter := g,
          hs_limit := (if c then original else limit)\<rparr>)"
        using inv [of c] Some p by simp
      ultimately show ?thesis using Suc.IH by blast
    qed
  qed
qed simp


lemma historic_start_inv:
  assumes "reliable_node E f (filter_to_block f) chain" and "limit_fits (filter_to_block f) limit"
  shows "historic_inv f chain (filter_from_block f) (filter_to_block f) (historic_start f limit)"
proof -
  let ?b = "if limit = None then filter_to_block f
    else calculate_process_historic_log_to_block (filter_from_block f) (filter_to_block f) limit"
  have small: "unat (filter_to_block f) + 5001 < 2 ^ 64" using assms(1) by (simp add: reliable_node_def)
  then have "filter_to_block f \<noteq> - 1" by (auto simp: unat_minus_one_word)
  then show ?thesis using assms(2) next_range [OF _ assms(2) small, of "filter_from_block f"]
    by (intro historic_invI [where a = "filter_from_block f" and b = ?b])
      (auto simp: historic_start_def delivered_up_to_def set_to_block_with_range split: option.splits)
qed


section \<open>Termination\<close>

text \<open>\<open>budget\<close> counts the failures still to come; nobody stops the loop or closes the channel.\<close>

definition fails_at_most :: "('w, 'z) fetch_env_scheme \<Rightarrow> ('w \<Rightarrow> nat) \<Rightarrow> bool" where
  "fails_at_most E budget =
     ((\<forall>g w. case fe_get_logs E g w of (Inl _, w') \<Rightarrow> budget w' < budget w | (Inr _, w') \<Rightarrow> budget w' \<le> budget w) \<and>
      (\<forall>ls w. case fe_attach_timestamps E ls w of (Inl _, w') \<Rightarrow> budget w' < budget w | (Inr _, w') \<Rightarrow> budget w' \<le> budget w) \<and>
      (\<forall>w. budget (snd (fe_channel_open E w)) \<le> budget w \<and> budget (snd (fe_one_in_ten E w)) \<le> budget w) \<and>
      (\<forall>w. \<not> fe_stopped E w \<and> fst (fe_channel_open E w)))"

lemma fails_at_mostD:
  assumes "fails_at_most E budget"
  shows "fe_get_logs E g w = (Inl e, w') \<Longrightarrow> budget w' < budget w" "fe_get_logs E g w = (Inr logs, w') \<Longrightarrow> budget w' \<le> budget w"
    "fe_attach_timestamps E ls w = (Inl e', w') \<Longrightarrow> budget w' < budget w"
    "fe_attach_timestamps E ls w = (Inr logs, w') \<Longrightarrow> budget w' \<le> budget w"
    "fe_channel_open E w = (b, w') \<Longrightarrow> budget w' \<le> budget w" "fe_one_in_ten E w = (b, w') \<Longrightarrow> budget w' \<le> budget w"
    "\<not> fe_stopped E w" "fst (fe_channel_open E w)"
proof -
  note all = assms [unfolded fails_at_most_def]
  show "fe_get_logs E g w = (Inl e, w') \<Longrightarrow> budget w' < budget w" "fe_get_logs E g w = (Inr logs, w') \<Longrightarrow> budget w' \<le> budget w"
    using all [THEN conjunct1, rule_format, of w g] by simp_all
  show "fe_attach_timestamps E ls w = (Inl e', w') \<Longrightarrow> budget w' < budget w"
    "fe_attach_timestamps E ls w = (Inr logs, w') \<Longrightarrow> budget w' \<le> budget w"
    using all [THEN conjunct2, THEN conjunct1, rule_format, of w ls] by simp_all
  show "fe_channel_open E w = (b, w') \<Longrightarrow> budget w' \<le> budget w" "fe_one_in_ten E w = (b, w') \<Longrightarrow> budget w' \<le> budget w"
    using all [THEN conjunct2, THEN conjunct2, THEN conjunct1, rule_format, of w] by simp_all
  show "\<not> fe_stopped E w" "fst (fe_channel_open E w)" using all by blast+
qed

lemma query_range_budget:
  assumes "fails_at_most E budget" and query: "query_range E beyond g limit snapshot w = (out, w')"
  shows "if fo_error_kind out = None then budget w' \<le> budget w else budget w' < budget w"
proof (cases "fe_get_logs E g w")
  case (Pair res w1)
  note budget = fails_at_mostD [OF assms(1)]
  show ?thesis
  proof (cases res)
    case (Inl e)
    then show ?thesis using query budget(1) [of g w e w1] unfolding query_range_def Let_def Pair Inl by auto
  next
    case (Inr logs)
    have first: "budget w1 \<le> budget w" using budget(2) Pair Inr by simp
    show ?thesis
    proof (cases "fe_timestamps E")
      case False
      then show ?thesis using query first unfolding query_range_def Let_def Pair Inr by auto
    next
      case True
      obtain timed w2 where attach: "fe_attach_timestamps E logs w1 = (timed, w2)" by fastforce
      show ?thesis
      proof (cases timed)
        case (Inl e)
        with budget(3) attach have "budget w2 < budget w1" by simp
        with first query Inl show ?thesis unfolding query_range_def Let_def Pair \<open>res = _\<close> by (auto simp: True attach)
      next
        case (Inr ls)
        with budget(4) attach have "budget w2 \<le> budget w1" by simp
        with first query Inr show ?thesis unfolding query_range_def Let_def Pair \<open>res = _\<close> by (auto simp: True attach)
      qed
    qed
  qed
qed

lemma historic_step_budget:
  assumes "fails_at_most E budget" and step: "fetch_historic_logs_stream E g limit snapshot w = (out, w')"
  shows "if fo_error_kind out = None then budget w' \<le> budget w else budget w' < budget w"
proof (cases "filter_to_block g < filter_from_block g")
  case True
  with step show ?thesis by (auto simp: fetch_historic_logs_stream_def inverted_range_def)
next
  case False
  obtain b w1 where channel: "fe_channel_open E w = (b, w1)" by fastforce
  then have b: b "budget w1 \<le> budget w"
    using fails_at_mostD(5,8) [OF assms(1)] by (metis fst_conv, blast)
  with step False channel
  have "query_range E (\<lambda>n. Some (with_range g n n, limit)) g limit snapshot w1 = (out, w')"
    by (simp add: fetch_historic_logs_stream_def)
  from query_range_budget [OF assms(1) this] b show ?thesis by (simp split: if_splits)
qed

lemma historic_loop_returns:
  assumes node: "reliable_node E f snapshot chain" and original: "limit_fits snapshot original" and E: "fails_at_most E budget"
  shows "historic_inv f chain start snapshot st \<Longrightarrow>
    unat snapshot + 1 - unat (filter_from_block (hs_filter st)) + budget w < n \<Longrightarrow>
    \<exists>r w'. historic_loop E snapshot original n st w = Some (r, w')"
proof (induction n arbitrary: st w)
  case (Suc n)
  show ?case
  proof (cases "snapshot < filter_from_block (hs_filter st)")
    case False
    obtain out w1 where step: "fetch_historic_logs_stream E (hs_filter st) (hs_limit st) snapshot w = (out, w1)" by fastforce
    have go: "filter_from_block (hs_filter st) \<le> snapshot" using False by (simp add: not_less)
    note inv = historic_step [OF node Suc.prems(1) go step original]
    have "fo_next out \<noteq> None" using inv [of True] fails_at_mostD(8) [OF E, of w] by (cases "fo_next out") auto
    then obtain g limit where out: "fo_next out = Some (g, limit)" by auto
    obtain c w2 where c: "fe_one_in_ten E w1 = (c, w2)" by fastforce
    let ?st = "st\<lparr>hs_sent := hs_sent st @ result_list out, hs_filter := g, hs_limit := (if c then original else limit)\<rparr>"
    have "unat snapshot + 1 - unat (filter_from_block g) + budget w2 < n"
    proof -
      have "budget w2 \<le> budget w1" using c fails_at_mostD(6) [OF E] by blast
      with historic_step_budget [OF E step] inv [of c] out Suc.prems(2) go show ?thesis
        by (auto simp: word_less_nat_alt word_le_nat_alt split: if_splits)
    qed
    then have "\<exists>r w'. historic_loop E snapshot original n ?st w2 = Some (r, w')"
      using Suc.IH [of ?st w2] inv [of c] out by simp
    then show ?thesis using False step inv out c fails_at_mostD(7) [OF E] by simp
  qed auto
qed simp

text \<open>C16: If the node fails only a bounded number of times, the backfill ends with enough fuel - one step for every
  block and every failure - and has then delivered every log up to the block it reached, which is past the
  snapshot.\<close>

theorem historic_backfill_completes:
  assumes "reliable_node E f (filter_to_block f) chain" and "limit_fits (filter_to_block f) limit"
    and "fails_at_most E budget"
    and "unat (filter_to_block f) + 1 - unat (filter_from_block f) + budget w < fuel"
  shows "\<exists>st w'. historic_logs_stream E limit fuel f w = Some (Finished st, w') \<and>
    filter_to_block f < filter_from_block (hs_filter st) \<and>
    sent_logs (hs_sent st) = map untimed (chain_part chain (filter_from_block f) (filter_from_block (hs_filter st)))"
proof -
  note inv = historic_start_inv [OF assms(1,2)]
  have from_f: "filter_from_block (hs_filter (historic_start f limit)) = filter_from_block f"
    by (simp add: historic_start_def split: option.splits)
  have "\<exists>r w'. historic_loop E (filter_to_block f) limit fuel (historic_start f limit) w = Some (r, w')"
    using historic_loop_returns [OF assms(1-3) inv, of w fuel] assms(4) unfolding from_f by blast
  then obtain r w' where r: "historic_loop E (filter_to_block f) limit fuel (historic_start f limit) w = Some (r, w')"
    by blast
  from historic_loop_delivers [OF assms(1,2) inv r] r fails_at_mostD(7,8) [OF assms(3)] show ?thesis
    by (fastforce simp: historic_logs_stream_def historic_inv_def delivered_up_to_def)
qed


section \<open>A node that is busy at first\<close>

text \<open>The world is the number of queries that still fail.\<close>

definition busy_env :: "rpc_log list \<Rightarrow> nat fetch_env" where
  "busy_env chain =
     \<lparr>fe_get_logs = (\<lambda>g w. if w = 0
        then (Inr (filter (\<lambda>l. filter_from_block g \<le> block_of l \<and> block_of l \<le> filter_to_block g) chain), 0)
        else (Inl (Request_Failed ''busy'' None), w - 1)),
      fe_timestamps = False, fe_attach_timestamps = (\<lambda>ls. io_ret ls), fe_channel_open = (\<lambda>w. (True, w)),
      fe_stopped = (\<lambda>_. False), fe_one_in_ten = (\<lambda>w. (False, w)), fe_report = (\<lambda>_ w. w),
      fe_lowercase = (\<lambda>s. s), fe_take_chars = take, fe_captures = (\<lambda>_ _. None), fe_u64_from_str = (\<lambda>_. None)\<rparr>"

lemma busy_reliable:
  assumes "numbered_chain chain" and "unat snapshot + 5001 < 2 ^ 64"
  shows "reliable_node (busy_env chain) f snapshot chain"
  using assms
  by (auto simp: reliable_node_def answers_chain_def keeps_logs_def sound_hints_def busy_env_def captured_range_def
      captured_def limited_hint_def limit_fits_def io_ret_app split: prod.splits if_splits)

lemma busy_fails_at_most: "fails_at_most (busy_env chain) (\<lambda>w. w)"
  by (simp add: fails_at_most_def busy_env_def io_ret_app)

definition numbered_log :: "u64 \<Rightarrow> rpc_log" where
  "numbered_log n = \<lparr>lg_address = 1, lg_topics = [], lg_data = [], lg_block_hash = None, lg_block_number = Some n,
     lg_block_timestamp = None, lg_transaction_hash = None, lg_transaction_index = None, lg_log_index = None,
     lg_removed = False\<rparr>"

definition small_chain :: "rpc_log list" where
  "small_chain = map numbered_log [3, 7, 7, 12, 20, 21, 30]"

lemma block_of_numbered_log [simp]: "block_of (numbered_log n) = n" "lg_block_number (numbered_log n) = Some n"
  by (simp_all add: block_of_def numbered_log_def)

lemma small_chain_numbered: "numbered_chain small_chain"
  by (auto simp: numbered_chain_def small_chain_def)

definition first_blocks :: event_filter where
  "first_blocks = new_filter (\<lambda>_. 0) 9 ''Transfer'' \<lparr>fd_events = Value_Of ''Transfer'', fd_indexed_filters = None\<rparr> 5 20"

lemma first_blocks_range [simp]: "filter_from_block first_blocks = 5" "filter_to_block first_blocks = 20"
  by (simp_all add: first_blocks_def new_filter_def)


theorem historic_backfill_completes_witness:
  "\<exists>st w'. historic_logs_stream (busy_env small_chain) None 25 first_blocks 7 = Some (Finished st, w') \<and>
     20 < filter_from_block (hs_filter st) \<and>
     sent_logs (hs_sent st) = map untimed (chain_part small_chain 5 (filter_from_block (hs_filter st)))"
  using historic_backfill_completes [of "busy_env small_chain" first_blocks small_chain None "\<lambda>w. w" 7 25]
    busy_reliable [OF small_chain_numbered, of 20 first_blocks] busy_fails_at_most [of small_chain]
  by (simp add: limit_fits_def)

end
