(* ===== verification/Provider_Backfill.thy ===== *)
theory Provider_Backfill
  imports Log_Fetching_Correct
begin

text \<open>
  The backfill on the provider of \<open>provider.rs\<close>: the answers of \<open>get_logs\<close> are what the loop over history
  assumes of its node, so that together they deliver exactly the wanted logs of the chain. And what a failed
  query does at the end of the range: it is retried past it.
\<close>

section \<open>The provider as the node of the loop\<close>

definition wanted_anywhere :: "event_filter \<Rightarrow> address list option \<Rightarrow> rpc_log \<Rightarrow> bool" where
  "wanted_anywhere f addresses l =
     ((case addresses of Some as \<Rightarrow> lg_address l \<in> set as | None \<Rightarrow> True) \<and>
      (case lg_topics l of
         signature # values \<Rightarrow> signature = event_signature f \<and> (\<exists>t\<in>set (topic_sets f). topics_match t values)
       | [] \<Rightarrow> False))"

text \<open>A chain as a list: its logs are numbered, in order, and told apart by their position.\<close>

definition ordered_chain :: "rpc_log list \<Rightarrow> bool" where
  "ordered_chain chain =
     (distinct chain \<and> sorted (map log_order chain) \<and> inj_on log_order (set chain) \<and>
      well_identified (set chain) \<and> (\<forall>l\<in>set chain. lg_block_number l \<noteq> None))"

text \<open>A filter on addresses the manifest lists, not on the contracts of a factory.\<close>

fun is_simple_filter :: "event_filter \<Rightarrow> bool" where
  "is_simple_filter (Factory_Filter f) = False"
| "is_simple_filter f = True"

definition simple_addresses :: "event_filter \<Rightarrow> address list option" where
  "simple_addresses f = (case f of Address_Filter g \<Rightarrow> simple_contract_address g | Filter_Filter g \<Rightarrow> simple_contract_address g
     | Factory_Filter g \<Rightarrow> None)"

lemma contract_addresses_simple:
  "is_simple_filter f \<Longrightarrow> contract_addresses known (with_range f a b) w = (Inr (simple_addresses f), w)"
  by (cases f) (simp_all add: with_range_def simple_addresses_def simple_contract_address_def io_ret_app)

lemma with_range_fields [simp]:
  "event_signature (with_range f a b) = event_signature f" "topic_sets (with_range f a b) = topic_sets f"
  by (simp_all add: with_range_def)

lemma wanted_in_range:
  "lg_block_number l \<noteq> None \<Longrightarrow>
    wanted (with_range f a b) addresses l \<longleftrightarrow> wanted_anywhere f addresses l \<and> a \<le> block_of l \<and> block_of l \<le> b"
  by (auto simp: wanted_def wanted_anywhere_def block_of_def split: list.splits)

lemma sorted_key_unique:
  assumes "sorted (map k xs)" "sorted (map k ys)" "distinct xs" "distinct ys" "set xs = set ys" "inj_on k (set xs)"
  shows "xs = ys"
proof -
  have "map k xs = map k ys"
    using assms by (intro sorted_distinct_set_unique) (auto simp: distinct_map)
  moreover have "inj_on k (set xs \<union> set ys)" using assms(5,6) by simp
  ultimately show ?thesis by (rule map_inj_on)
qed

lemma log_order_block_of:
  "log_order l \<le> log_order m \<Longrightarrow> lg_block_number l \<noteq> None \<Longrightarrow> lg_block_number m \<noteq> None \<Longrightarrow> block_of l \<le> block_of m"
  by (auto simp: log_order_def block_of_def less_eq_prod_def Let_def)

lemma sorted_block_of:
  assumes "sorted (map log_order chain)" and "\<forall>l\<in>set chain. lg_block_number l \<noteq> None"
  shows "sorted (map block_of chain)"
  using assms by (induction chain) (auto simp: log_order_block_of)

lemma provider_numbered:
  "ordered_chain chain \<Longrightarrow> numbered_chain (filter P chain)"
  using sorted_block_of [of chain] sorted_filter [of block_of chain P] by (auto simp: ordered_chain_def numbered_chain_def)

lemma provider_answers_chain:
  assumes chain: "ordered_chain chain" and node: "serves (set chain) node" and f: "is_simple_filter f"
    and E: "fe_get_logs E = get_logs node known filtering"
  shows "answers_chain E f (filter (wanted_anywhere f (simple_addresses f)) chain)"
  unfolding answers_chain_def
proof (intro allI impI)
  fix a b w logs w'
  assume "fe_get_logs E (with_range f a b) w = (Inr logs, w')"
  then have run: "get_logs node known filtering (with_range f a b) w = (Inr logs, w')" by (simp add: E)
  have logs: "set logs = {l\<in>set chain. wanted (with_range f a b) (simple_addresses f) l}" "distinct logs" "sorted (map log_order logs)"
    using get_logs_answer [OF node _ run contract_addresses_simple [OF f]] chain by (auto simp: ordered_chain_def)
  let ?answer = "filter (\<lambda>l. a \<le> block_of l \<and> block_of l \<le> b) (filter (wanted_anywhere f (simple_addresses f)) chain)"
  have "set logs = set ?answer"
    using logs(1) chain by (auto simp: ordered_chain_def wanted_in_range)
  moreover have "inj_on log_order (set logs)"
    using chain logs(1) by (auto simp: ordered_chain_def intro: inj_on_subset)
  ultimately show "logs = ?answer"
    using logs(2,3) chain by (intro sorted_key_unique) (auto simp: ordered_chain_def intro: sorted_filter)
qed




definition io_total :: "('w, 'e, 'a) io \<Rightarrow> bool" where
  "io_total m = (\<forall>w. \<exists>x w'. m w = (Inr x, w'))"

lemma io_total_ret: "io_total (io_ret x)"
  by (simp add: io_total_def io_ret_app)

lemma io_total_lift: "io_total (io_lift (Inr x))"
  by (simp add: io_total_def io_lift_app)

lemma io_total_bind: "io_total m \<Longrightarrow> (\<And>x. io_total (k x)) \<Longrightarrow> io_total (io_bind m k)"
  unfolding io_total_def by (metis io_bind_Inr)

lemma io_total_join: "(\<And>m. m \<in> set ms \<Longrightarrow> io_total m) \<Longrightarrow> io_total (try_join_all ms)"
  by (induction ms) (auto intro!: io_total_ret io_total_bind)

lemma get_logs_total:
  assumes "\<And>q. io_total (node q)" and "\<And>f names. io_total (known f names)"
  shows "io_total (get_logs node known None f)"
proof -
  have "io_total (contract_addresses known f)"
    using assms(2) by (cases f) (auto simp: factory_contract_address_def intro!: io_total_ret io_total_bind)
  moreover have "io_total (get_logs_for_topics node None f addresses t)" for addresses t
    using assms(1) by (cases addresses) (auto simp: get_logs_for_topics_def get_logs_for_address_in_batches_def
        default_rpc_supported_account_filters_def chunk_hashset_def intro!: io_total_ret io_total_lift io_total_bind io_total_join)
  ultimately show ?thesis
    by (auto simp: get_logs_def intro!: io_total_ret io_total_bind io_total_join split: option.split)
qed

definition three_logs :: "rpc_log list" where
  "three_logs = [sample_log 11 5, sample_log 12 6, sample_log 30 5]"

definition shuffling_node :: "unit log_call" where
  "shuffling_node q w = (Inr (filter (query_matches q) (rev three_logs @ three_logs)), w)"

definition provider_env :: "unit fetch_env" where
  "provider_env =
     \<lparr>fe_get_logs = get_logs shuffling_node (\<lambda>_ _. io_ret None) None,
      fe_timestamps = False, fe_attach_timestamps = (\<lambda>ls. io_ret ls), fe_channel_open = (\<lambda>w. (True, w)),
      fe_stopped = (\<lambda>_. False), fe_one_in_ten = (\<lambda>w. (True, w)), fe_report = (\<lambda>_ w. w),
      fe_lowercase = (\<lambda>s. s), fe_take_chars = take, fe_captures = (\<lambda>_ _. None), fe_u64_from_str = (\<lambda>_. None)\<rparr>"



section \<open>A failure at the end of a range\<close>

lemma halved_single: "unat b + 2 < 2 ^ 64 \<Longrightarrow> halved_block_number b b = b + 2"
proof -
  assume "unat b + 2 < 2 ^ 64"
  then have "unat (b + 2) = unat b + 2" by (subst unat_add_lem [THEN iffD1]) simp_all
  then show ?thesis by (simp add: halved_block_number_def max_def word_le_nat_alt)
qed

lemma failed_single_block:
  assumes "fe_get_logs E (with_range f b b) w = (Inl err, w1)" and "retry_with_block_range E err b b limit = None"
    and "unat b + 2 < 2 ^ 64"
  shows "fetch_logs_once E (with_range f b b) limit e w =
    (\<lparr>fo_result = None, fo_next = Some (with_range f b (b + 2), limit),
      fo_error_kind = Some (classify_fetch_error E err), fo_panic = False\<rparr>, w1)"
  using assms by (simp add: fetch_logs_once_def query_range_def Let_def halved_single)

lemma beyond_the_end:
  assumes "fe_get_logs E (with_range f a b) w = (Inr logs, w1)" and "\<not> fe_timestamps E" and "a \<le> b"
    and "logs \<noteq> []" and "lg_block_number (last logs) = Some n" and "e < n + 1"
  shows "fetch_logs_once E (with_range f a b) limit e w =
    (\<lparr>fo_result = Some \<lparr>fr_logs = logs, fr_from_block = a, fr_to_block = b, fr_reorg = None\<rparr>, fo_next = None,
      fo_error_kind = None, fo_panic = False\<rparr>, w1)"
  using assms by (simp add: fetch_logs_once_def query_range_def Let_def next_from_block_def leD)

text \<open>C18: A worker whose query for the last block of its range fails once, with an error that suggests no range,
  queries the next two blocks as well, because a halved range never holds fewer than three blocks. What it
  delivers then reaches past the end of its range, into the blocks of the next worker, which delivers them
  again.\<close>

theorem worker_retries_past_its_range:
  assumes "ws_filter st = with_range f b b" and "length (ws_results st) + 1 < max_worker_results"
    and "unat b + 2 < 2 ^ 64" and "\<not> fe_timestamps E" and "\<And>v. \<not> fe_stopped E v"
    and fails: "fe_get_logs E (with_range f b b) w = (Inl err, w1)" "retry_with_block_range E err b b (ws_limit st) = None"
    and first: "ws_last_range st \<noteq> Some (b, b + 2)"
    and again: "fe_one_in_ten E (fe_report E (Some (classify_fetch_error E err)) w1) = (False, w2)"
      "fe_get_logs E (with_range f b (b + 2)) w2 = (Inr logs, w3)" "logs \<noteq> []" "lg_block_number (last logs) = Some n" "b < n" "n \<noteq> - 1"
  shows "\<exists>w'. parallel_worker E b original (Suc (Suc k)) st w =
    Some (ws_batches st @ [\<lparr>sb_sequence_id = ws_sequence_id st,
      sb_results = ws_results st @ [Inr \<lparr>fr_logs = logs, fr_from_block = b, fr_to_block = b + 2, fr_reorg = None\<rparr>],
      sb_is_final = True\<rparr>], w')"
proof -
  have "unat (b + 2) = unat b + 2" using assms(3) by (subst unat_add_lem [THEN iffD1]) simp_all
  then have upper: "b \<le> b + 2" "b + 2 \<noteq> b" by (auto simp: word_le_nat_alt word_unat_eq_iff)
  have past: "b < n + 1" using again(5,6) by (simp add: word_less_inc)
  note steps = failed_single_block [OF fails assms(3)] beyond_the_end [OF again(2) assms(4) upper(1) again(3,4) past]
  have room: "\<not> max_worker_results \<le> length (ws_results st) + 1" using assms(2) by simp
  show ?thesis
    using assms(1,5) first again(1) room
    by (simp add: steps result_list_def flush_results_def final_batch_def Let_def not_less)
qed

text \<open>The first query of a failing schedule answers, the second fails, the third answers.\<close>

definition flaky_env :: "rpc_log list \<Rightarrow> bool list fetch_env" where
  "flaky_env chain =
     \<lparr>fe_get_logs = (\<lambda>g w. case w of
        True # w' \<Rightarrow> (Inl (Request_Failed ''busy'' None), w')
      | _ \<Rightarrow> (Inr (filter (\<lambda>l. filter_from_block g \<le> block_of l \<and> block_of l \<le> filter_to_block g) chain), tl w)),
      fe_timestamps = False, fe_attach_timestamps = (\<lambda>ls. io_ret ls), fe_channel_open = (\<lambda>w. (True, w)),
      fe_stopped = (\<lambda>_. False), fe_one_in_ten = (\<lambda>w. (False, w)), fe_report = (\<lambda>_ w. w),
      fe_lowercase = (\<lambda>s. s), fe_take_chars = take, fe_captures = (\<lambda>_ _. None), fe_u64_from_str = (\<lambda>_. None)\<rparr>"

text \<open>An error whose text holds none of the hints the code looks for\<close>

definition hint_phrases :: "string list" where
  "hint_phrases = [''block range is too wide'', ''block range too large'', ''response is too big'',
     ''error decoding response body'', ''error sending request'']"

definition unhinted :: "('w, 'z) fetch_env_scheme \<Rightarrow> provider_error \<Rightarrow> bool" where
  "unhinted E err =
     (captured_range E alchemy_pattern (error_texts E err) = None \<and>
      captured_range E infura_pattern (error_texts E err) = None \<and> limited_hint E (error_texts E err) = None \<and>
      list_all (\<lambda>p. \<not> str_contains p (fst (error_texts E err))) hint_phrases)"

lemma retry_unhinted: "unhinted E err \<Longrightarrow> retry_with_block_range E err a b limit = fallback_retry a b limit"
  by (simp add: unhinted_def hint_phrases_def retry_with_block_range_def Let_def)

lemma busy_phrases: "list_all (\<lambda>p. \<not> str_contains p ''Failed to make rpc request: busy'') hint_phrases"
  by code_simp

lemma silent_unhinted:
  assumes "fe_captures E = (\<lambda>_ _. None)" and "fe_lowercase E = (\<lambda>s. s)" and "fe_take_chars E = take"
  shows "unhinted E (Request_Failed ''busy'' None)"
proof -
  have "error_texts E (Request_Failed ''busy'' None) = (''Failed to make rpc request: busy'', [])"
    using assms by (simp add: error_texts_def)
  moreover have "captured_range E p t = None" "limited_hint E t = None" for p t
    using assms by (cases t; simp add: captured_range_def captured_def limited_hint_def)+
  ultimately show ?thesis using busy_phrases by (simp only: unhinted_def fst_conv simp_thms)
qed

theorem worker_retries_past_its_range_witness:
  "\<exists>w'. parallel_worker (flaky_env [numbered_log 1001]) 1000 None 2
       (worker_start 0 (with_range first_blocks 1000 1000) None) [True, False] =
     Some ([\<lparr>sb_sequence_id = 0, sb_results = [Inr \<lparr>fr_logs = [numbered_log 1001], fr_from_block = 1000,
       fr_to_block = 1002, fr_reorg = None\<rparr>], sb_is_final = True\<rparr>], w')"
proof -
  have retry: "retry_with_block_range (flaky_env [numbered_log 1001]) (Request_Failed ''busy'' None) 1000 1000 None = None"
    by (subst retry_unhinted [OF silent_unhinted]) (simp_all add: flaky_env_def fallback_retry_def)
  let ?E = "flaky_env [numbered_log 1001]" and ?st = "worker_start 0 (with_range first_blocks 1000 1000) None"
  have "\<exists>w'. parallel_worker ?E 1000 None (Suc (Suc 0)) ?st [True, False] =
    Some (ws_batches ?st @ [\<lparr>sb_sequence_id = ws_sequence_id ?st, sb_results = ws_results ?st @
      [Inr \<lparr>fr_logs = [numbered_log 1001], fr_from_block = 1000, fr_to_block = 1000 + 2, fr_reorg = None\<rparr>], sb_is_final = True\<rparr>], w')"
  proof (rule worker_retries_past_its_range)
    show "fe_get_logs ?E (with_range first_blocks 1000 1000) [True, False] = (Inl (Request_Failed ''busy'' None), [False])"
      by (simp add: flaky_env_def)
    show "retry_with_block_range ?E (Request_Failed ''busy'' None) 1000 1000 (ws_limit ?st) = None"
      using retry by (simp add: worker_start_def)
    show "fe_one_in_ten ?E (fe_report ?E (Some (classify_fetch_error ?E (Request_Failed ''busy'' None))) [False]) = (False, [False])"
      by (simp add: flaky_env_def)
    show "fe_get_logs ?E (with_range first_blocks 1000 (1000 + 2)) [False] = (Inr [numbered_log 1001], [])"
      by (simp add: flaky_env_def)
    show "lg_block_number (last [numbered_log 1001]) = Some 1001" by simp
  qed (simp_all add: worker_start_def max_worker_results_def flaky_env_def)
  then show ?thesis by (simp add: worker_start_def numeral_2_eq_2 del: parallel_worker.simps)
qed

section \<open>A range of two blocks\<close>

lemma fallback_two_blocks:
  assumes "unat b + 1 < 2 ^ 64" and "limit \<noteq> Some 0"
  shows "fallback_retry b (b + 1) limit = Some \<lparr>rt_from = b, rt_to = b + 1, rt_max_block_range = Some 1\<rparr>"
proof -
  have "unat (b + 1) = unat b + 1" using assms(1) by (subst unat_add_lem [THEN iffD1]) simp_all
  then have "b < b + 1" by (simp add: word_less_nat_alt)
  moreover have "min_limit limit 1 = 1"
    using assms(2) by (auto simp: min_limit_def min_def word_le_nat_alt split: option.splits)
      (metis One_nat_def le_SucE le_zero_eq unat_eq_zero unsigned_1 word_unat_eq_iff)
  ultimately show ?thesis
    by (auto simp: fallback_retry_def Let_def fallback_from_diff_def limited_range_def word_le_nat_alt)
qed

text \<open>C19: The fallback never goes below two blocks: when a node keeps refusing a range of two blocks without a hint -
  say, because it holds too many logs for one answer - the loop over history asks for the same two blocks again
  and again. It never returns, however long it runs, and never asks for a single block.\<close>

theorem two_block_range_never_shrinks:
  assumes refused: "\<And>v. \<exists>err v'. fe_get_logs E (with_range f b (b + 1)) v = (Inl err, v') \<and> unhinted E err"
    and running: "\<And>v. \<not> fe_stopped E v" "\<And>v. fst (fe_channel_open E v)"
    and range: "b \<le> snapshot" "unat b + 1 < 2 ^ 64" and original: "original \<noteq> Some 0"
    and st: "hs_filter st = with_range f b (b + 1)" "hs_limit st \<noteq> Some 0"
  shows "historic_loop E snapshot original n st w = None"
  using st
proof (induction n arbitrary: st w)
  case (Suc n)
  obtain w1 where channel: "fe_channel_open E w = (True, w1)" using running(2) [of w] by (metis prod.collapse)
  obtain err w2 where query: "fe_get_logs E (with_range f b (b + 1)) w1 = (Inl err, w2)" "unhinted E err" using refused by blast
  obtain c w3 where reset: "fe_one_in_ten E w2 = (c, w3)" by fastforce
  have "unat (b + 1) = unat b + 1" using range(2) by (subst unat_add_lem [THEN iffD1]) simp_all
  then have order: "b < b + 1" by (simp add: word_less_nat_alt)
  have retry: "retry_with_block_range E err b (b + 1) (hs_limit st) = Some \<lparr>rt_from = b, rt_to = b + 1, rt_max_block_range = Some 1\<rparr>"
    using retry_unhinted [OF query(2)] fallback_two_blocks [OF range(2) Suc.prems(2)] by simp
  have "fetch_historic_logs_stream E (hs_filter st) (hs_limit st) snapshot w =
    (\<lparr>fo_result = None, fo_next = Some (with_range f b (b + 1), Some 1),
      fo_error_kind = Some (classify_fetch_error E err), fo_panic = False\<rparr>, w2)"
    using less_not_sym [OF order] by (simp add: fetch_historic_logs_stream_def Suc.prems(1) channel query_range_def Let_def query(1) retry)
  moreover have "historic_loop E snapshot original n
      (st\<lparr>hs_filter := with_range f b (b + 1), hs_limit := (if c then original else Some 1)\<rparr>) w3 = None"
    using original by (intro Suc.IH) simp_all
  ultimately show ?case
    using range(1) running(1) Suc.prems(1) by (simp add: result_list_def reset not_less)
qed simp

definition refusing_env :: "unit fetch_env" where
  "refusing_env =
     \<lparr>fe_get_logs = (\<lambda>g w. (Inl (Request_Failed ''busy'' None), w)),
      fe_timestamps = False, fe_attach_timestamps = (\<lambda>ls. io_ret ls), fe_channel_open = (\<lambda>w. (True, w)),
      fe_stopped = (\<lambda>_. False), fe_one_in_ten = (\<lambda>w. (True, w)), fe_report = (\<lambda>_ w. w),
      fe_lowercase = (\<lambda>s. s), fe_take_chars = take, fe_captures = (\<lambda>_ _. None), fe_u64_from_str = (\<lambda>_. None)\<rparr>"

theorem two_block_range_never_shrinks_witness:
  "historic_loop refusing_env 100 (Some 1) 1000000 (historic_start (with_range first_blocks 7 8) (Some 1)) () = None"
  by (rule two_block_range_never_shrinks [where f = first_blocks and b = 7])
    (simp_all add: historic_start_def set_to_block_with_range calculate_process_historic_log_to_block_def,
     simp_all add: refusing_env_def silent_unhinted)


section \<open>A failure at the newest block\<close>

text \<open>C6: When the backfill ends at the head of the chain and the query for that last block fails once, the retry
  covers two blocks that do not exist yet. The node has nothing to answer for them, so the loop counts them as
  done: it ends with its filter three blocks up, and the live stream that takes the filter over starts there.
  The two blocks in between are never queried again, whatever they come to hold.\<close>

theorem failed_last_block_skips_two_blocks:
  assumes st: "hs_filter st = with_range f b b" and room: "unat b + 3 < 2 ^ 64"
    and running: "\<And>v. \<not> fe_stopped E v" "\<And>v. fe_channel_open E v = (True, v)" "\<not> fe_timestamps E"
    and fails: "fe_get_logs E (with_range f b b) w = (Inl err, w1)" "unhinted E err"
    and reset: "fe_one_in_ten E w1 = (c, w2)" and empty: "fe_get_logs E (with_range f b (b + 2)) w2 = (Inr [], w3)"
  shows "\<exists>st' w'. historic_loop E b original (Suc (Suc (Suc n))) st w = Some (Finished st', w') \<and>
    filter_from_block (hs_filter st') = b + 3 \<and> sent_logs (hs_sent st') = sent_logs (hs_sent st)"
proof -
  have "unat (b + 3) = unat b + 3" "unat (b + 2) = unat b + 2" using room by (subst unat_add_lem [THEN iffD1]; simp)+
  then have order: "b < b + 3" "b \<le> b + 2" "b + 2 + 1 = b + 3" by (simp_all add: word_less_nat_alt word_le_nat_alt)
  have retry: "retry_with_block_range E err b b limit = None" for limit
    using retry_unhinted [OF fails(2)] by (simp add: fallback_retry_def)
  have halved: "halved_block_number b b = b + 2" using room by (intro halved_single) simp
  obtain c' w4 where reset': "fe_one_in_ten E w3 = (c', w4)" by fastforce
  show ?thesis
    using running order(1,2) st
    by (simp add: fetch_historic_logs_stream_def query_range_def fails(1) retry halved reset empty reset' leD
        next_from_block_def result_list_def order(3) sent_logs_def not_less Let_def)
qed

theorem failed_last_block_skips_two_blocks_witness:
  "\<exists>st' w'. historic_loop (flaky_env []) 1000 None (Suc (Suc (Suc 0)))
       \<lparr>hs_filter = with_range first_blocks 1000 1000, hs_limit = None, hs_sent = []\<rparr> [True, False] = Some (Finished st', w') \<and>
     filter_from_block (hs_filter st') = 1000 + 3 \<and> sent_logs (hs_sent st') =
     sent_logs (hs_sent \<lparr>hs_filter = with_range first_blocks 1000 1000, hs_limit = None, hs_sent = []\<rparr>)"
proof (rule failed_last_block_skips_two_blocks)
  show "fe_get_logs (flaky_env []) (with_range first_blocks 1000 1000) [True, False] = (Inl (Request_Failed ''busy'' None), [False])"
    by (simp add: flaky_env_def)
  show "unhinted (flaky_env []) (Request_Failed ''busy'' None)" by (rule silent_unhinted) (simp_all add: flaky_env_def)
  show "fe_one_in_ten (flaky_env []) [False] = (False, [False])" by (simp add: flaky_env_def)
  show "fe_get_logs (flaky_env []) (with_range first_blocks 1000 (1000 + 2)) [False] = (Inr [], [])"
    by (simp add: flaky_env_def)
qed (simp_all add: flaky_env_def)

end
