(* ===== verification/Parallel_Backfill.thy ===== *)
theory Parallel_Backfill
  imports Log_Fetching_Correct
begin

text \<open>
  The parallel backfill: on a node that answers, each worker delivers exactly its range, the dispatcher's ranges
  partition the history, and with the reorder buffer behind them the workers deliver what the sequential loop
  would, in the same order.
\<close>

lemma reliable_node_below:
  assumes "reliable_node E f snapshot chain" and "e \<le> snapshot"
  shows "reliable_node E f e chain"
proof -
  have "unat e \<le> unat snapshot" using assms(2) by (simp add: word_le_nat_alt)
  then have fits: "limit_fits snapshot l \<Longrightarrow> limit_fits e l" for l by (fastforce simp: limit_fits_def)
  have hints: "sound_hints E f snapshot" using assms(1) by (simp add: reliable_node_def)
  have "sound_hints E f e"
    unfolding sound_hints_def
  proof (intro allI impI)
    fix a b w err w'
    assume a: "a \<le> b \<and> a \<le> e \<and> fe_get_logs E (with_range f a b) w = (Inl err, w')"
    with assms(2) have "a \<le> b" "a \<le> snapshot" "fe_get_logs E (with_range f a b) w = (Inl err, w')" by auto
    note below = sound_hintsD [OF hints this]
    show "(\<forall>c d. captured_range E alchemy_pattern (error_texts E err) = Some (c, d) \<or>
        captured_range E infura_pattern (error_texts E err) = Some (c, d) \<longrightarrow> c = a \<and> a \<le> d \<and> d \<noteq> - 1) \<and>
        limit_fits e (limited_hint E (error_texts E err))"
      using below(1) fits [OF below(2)] by blast
  qed
  then show ?thesis using assms(1) \<open>unat e \<le> unat snapshot\<close> by (simp add: reliable_node_def)
qed

section \<open>One worker\<close>

definition partial_batches :: "nat \<Rightarrow> worker_result sequenced_fetch_batch list \<Rightarrow> bool" where
  "partial_batches sid bs = (\<forall>b\<in>set bs. sb_sequence_id b = sid \<and> \<not> sb_is_final b)"

definition worker_inv :: "event_filter \<Rightarrow> rpc_log list \<Rightarrow> u64 \<Rightarrow> u64 \<Rightarrow> worker_state \<Rightarrow> bool" where
  "worker_inv f chain start e st =
     (\<exists>a b rs. ws_filter st = with_range f a b \<and> (a \<le> e \<longrightarrow> a \<le> b \<and> b \<le> e) \<and> a \<le> e + 1 \<and>
        delivered_up_to f chain start a rs \<and> batch_results (ws_batches st) @ ws_results st = map Inr rs \<and>
        limit_fits e (ws_limit st) \<and> partial_batches (ws_sequence_id st) (ws_batches st))"

lemma worker_invI:
  "ws_filter st = with_range f a b \<Longrightarrow> (a \<le> e \<Longrightarrow> a \<le> b \<and> b \<le> e) \<Longrightarrow> a \<le> e + 1 \<Longrightarrow>
   delivered_up_to f chain start a rs \<Longrightarrow> batch_results (ws_batches st) @ ws_results st = map Inr rs \<Longrightarrow>
   limit_fits e (ws_limit st) \<Longrightarrow> partial_batches (ws_sequence_id st) (ws_batches st) \<Longrightarrow> worker_inv f chain start e st"
  unfolding worker_inv_def by blast

text \<open>What a worker has sent when it is done.\<close>

definition worker_output ::
  "event_filter \<Rightarrow> rpc_log list \<Rightarrow> u64 \<Rightarrow> u64 \<Rightarrow> nat \<Rightarrow> worker_result sequenced_fetch_batch list \<Rightarrow> bool" where
  "worker_output f chain start e sid batches =
     (\<exists>rs. batch_results batches = map Inr rs \<and> delivered_up_to f chain start (e + 1) rs \<and>
        (\<exists>bs b. batches = bs @ [b] \<and> partial_batches sid bs \<and> sb_sequence_id b = sid \<and> sb_is_final b))"

lemma worker_final:
  assumes "worker_inv f chain start e st" and "e < filter_from_block (ws_filter st)"
    and "e \<noteq> - 1"
  shows "worker_output f chain start e (ws_sequence_id st) (final_batch st)"
proof -
  obtain a b rs where inv: "ws_filter st = with_range f a b" "a \<le> e + 1" "delivered_up_to f chain start a rs"
      "batch_results (ws_batches st) @ ws_results st = map Inr rs" "partial_batches (ws_sequence_id st) (ws_batches st)"
    using assms(1) by (auto simp: worker_inv_def)
  have "a = e + 1" using inv(1,2) assms(2,3) word_less_inc [of e a] by auto
  then show ?thesis using inv(3-5) by (auto simp: worker_output_def final_batch_def)
qed

lemma worker_step:
  assumes node: "reliable_node E f e chain" and E: "fails_at_most E (\<lambda>_. 0)" and inv: "worker_inv f chain start e st"
    and go: "filter_from_block (ws_filter st) \<le> e" and step: "fetch_logs_once E (ws_filter st) (ws_limit st) e w = (out, w')"
  shows "\<exists>r n a b rs. fo_panic out = False \<and> fo_error_kind out = None \<and> fo_result out = Some r \<and>
    ws_filter st = with_range f a b \<and> a < n \<and> n \<le> e + 1 \<and> delivered_up_to f chain start n (rs @ [r]) \<and>
    batch_results (ws_batches st) @ ws_results st = map Inr rs \<and>
    fo_next out = (if e < n then None else Some (with_range f n (calculate_process_historic_log_to_block n e (ws_limit st)), ws_limit st))"
proof -
  obtain a b rs where ab: "ws_filter st = with_range f a b" "a \<le> b" "b \<le> e" "a \<le> e"
      and rs: "delivered_up_to f chain start a rs" "batch_results (ws_batches st) @ ws_results st = map Inr rs"
      and limit: "limit_fits e (ws_limit st)"
    using inv go by (auto simp: worker_inv_def)
  have chain: "numbered_chain chain" and "unat e + 5001 < 2 ^ 64" using node by (auto simp: reliable_node_def)
  then have "e \<noteq> - 1" by (auto simp: unat_minus_one_word)
  moreover from this ab(3) have "b \<noteq> - 1" by (auto simp: word_order.extremum_unique)
  ultimately have b: "b \<noteq> - 1" "b + 1 \<le> e + 1" using ab(3) by (auto simp: word_le_nat_alt word_no_wrap_Suc)
  have query: "query_range E (\<lambda>_. None) (with_range f a b) (ws_limit st) e w = (out, w')"
    using step ab(1,2) by (simp add: fetch_logs_once_def leD)
  have "fo_error_kind out = None" using query_range_budget [OF E query] by (simp split: if_splits)
  then obtain r n where "fo_panic out = False" "fo_result out = Some r" "delivers chain a n r" "a < n" "n \<le> b + 1"
      "fo_next out = (if e < n then None else Some (with_range f n (calculate_process_historic_log_to_block n e (ws_limit st)), ws_limit st))"
    using query_range_step [OF node limit ab(2) b(1) ab(4) query] by blast
  moreover have "delivered_up_to f chain start n (rs @ [r])"
    using delivered_step [OF chain rs(1) \<open>delivers chain a n r\<close> \<open>a < n\<close>] .
  ultimately show ?thesis using ab(1) rs(2) b(2) \<open>fo_error_kind out = None\<close> by (blast intro: order_trans)
qed

lemma flush_keeps:
  assumes "fails_at_most E budget" and "flush_results E st w = (go_on, st', w')" and "partial_batches (ws_sequence_id st) (ws_batches st)"
  shows "go_on" and "ws_filter st' = ws_filter st" and "ws_limit st' = ws_limit st" and "ws_sequence_id st' = ws_sequence_id st"
    and "batch_results (ws_batches st') @ ws_results st' = batch_results (ws_batches st) @ ws_results st"
    and "partial_batches (ws_sequence_id st') (ws_batches st')"
  using assms(2,3) fails_at_mostD(8) [OF assms(1), of w]
  by (auto simp: flush_results_def Let_def partial_batches_def split: if_splits prod.splits)


text \<open>With enough fuel the worker ends, and however it ends it has delivered its range.\<close>

lemma worker_delivers:
  assumes node: "reliable_node E f e chain" and E: "fails_at_most E (\<lambda>_. 0)" and original: "limit_fits e original"
  shows "worker_inv f chain start e st \<Longrightarrow>
    case parallel_worker E e original n st w of
      None \<Rightarrow> n \<le> unat e + 1 - unat (filter_from_block (ws_filter st))
    | Some (batches, _) \<Rightarrow> worker_output f chain start e (ws_sequence_id st) batches"
proof (induction n arbitrary: st w)
  case (Suc n)
  have small: "unat e + 5001 < 2 ^ 64" using node by (simp add: reliable_node_def)
  then have e: "e \<noteq> - 1" by (auto simp: unat_minus_one_word)
  note running = fails_at_mostD(7) [OF E]
  show ?case
  proof (cases "e < filter_from_block (ws_filter st)")
    case True
    then show ?thesis using worker_final [OF Suc.prems True e] by simp
  next
    case False
    then have go: "filter_from_block (ws_filter st) \<le> e" by (simp add: not_less)
    obtain out w1 where step: "fetch_logs_once E (ws_filter st) (ws_limit st) e w = (out, w1)" by fastforce
    obtain r m a b rs where out: "fo_panic out = False" "fo_error_kind out = None" "fo_result out = Some r"
        "ws_filter st = with_range f a b" "a < m" "m \<le> e + 1" "delivered_up_to f chain start m (rs @ [r])"
        "batch_results (ws_batches st) @ ws_results st = map Inr rs"
        "fo_next out = (if e < m then None else Some (with_range f m (calculate_process_historic_log_to_block m e (ws_limit st)), ws_limit st))"
      using worker_step [OF node E Suc.prems go step] by blast
    have parts: "limit_fits e (ws_limit st)" "partial_batches (ws_sequence_id st) (ws_batches st)"
      using Suc.prems by (auto simp: worker_inv_def)
    let ?st1 = "st\<lparr>ws_results := ws_results st @ [Inr r]\<rparr>"
    obtain go_on st2 w2 where flush: "flush_results E ?st1 (fe_report E None w1) = (go_on, st2, w2)" by (metis prod_cases3)
    have st2: go_on "ws_filter st2 = ws_filter st" "ws_limit st2 = ws_limit st" "ws_sequence_id st2 = ws_sequence_id st"
        "batch_results (ws_batches st2) @ ws_results st2 = map Inr (rs @ [r])"
        "partial_batches (ws_sequence_id st2) (ws_batches st2)"
      using flush_keeps [OF E flush] parts(2) out(8) by simp_all
    show ?thesis
    proof (cases "e < m")
      case True
      have "worker_output f chain start e (ws_sequence_id st) (final_batch st2)"
      proof -
        have "m = e + 1" using True out(6) word_less_inc [OF e, of m] by auto
        then show ?thesis unfolding worker_output_def
          using out(7) st2(4-6) by (intro exI [of _ "rs @ [r]"]) (auto simp: final_batch_def)
      qed
      moreover have "parallel_worker E e original (Suc n) st w = Some (final_batch st2, w2)"
        using False running step out(1-3) flush st2(1) out(9) True by (simp add: result_list_def)
      ultimately show ?thesis by simp
    next
      case m: False
      obtain c w3 where reset: "fe_one_in_ten E w2 = (c, w3)" by fastforce
      let ?b = "calculate_process_historic_log_to_block m e (ws_limit st)"
      define st3 where "st3 = st2\<lparr>ws_stuck_iterations := 0, ws_last_range := Some (m, ?b),
        ws_filter := with_range f m ?b, ws_limit := (if c then original else ws_limit st)\<rparr>"
      have st3: "ws_filter st3 = with_range f m ?b" "ws_sequence_id st3 = ws_sequence_id st"
        "ws_batches st3 = ws_batches st2" "ws_results st3 = ws_results st2" "limit_fits e (ws_limit st3)"
        using st2(4) parts original by (simp_all add: st3_def)
      have "worker_inv f chain start e st3"
        using next_range [OF _ parts(1) small, of m] m out(6,7) st2 st3
        by (intro worker_invI [where a = m and b = ?b and rs = "rs @ [r]"]) (simp_all add: not_less)
      then have ih: "case parallel_worker E e original n st3 w3 of None \<Rightarrow> n \<le> unat e + 1 - unat m
          | Some (batches, _) \<Rightarrow> worker_output f chain start e (ws_sequence_id st) batches"
        using Suc.IH [of st3 w3] unfolding st3(1,2) with_range_simps by blast
      have onward: "parallel_worker E e original (Suc n) st w = parallel_worker E e original n st3 w3"
        using False running step out(1-3) flush st2(1) out(9) m reset by (simp add: result_list_def Let_def st3_def)
      have "unat e + 1 - unat m < unat e + 1 - unat a"
        using m out(5) by (simp add: word_less_nat_alt)
      then show ?thesis using ih out(4) unfolding onward by (cases "parallel_worker E e original n st3 w3") auto
    qed
  qed
qed simp


lemma worker_start_inv:
  "a \<le> e \<Longrightarrow> e \<noteq> - 1 \<Longrightarrow> limit_fits e limit \<Longrightarrow> worker_inv f chain a e (worker_start sid (with_range f a e) limit)"
  by (rule worker_invI [where a = a and b = e and rs = "[]"])
    (auto simp: worker_start_def delivered_up_to_def partial_batches_def word_less_inc word_inc_greater
      intro: order_trans less_imp_le)

section \<open>The ranges of the dispatcher\<close>

lemma dispatch_step:
  fixes a snapshot c :: u64
  assumes "a \<le> snapshot" and "snapshot \<noteq> - 1"
  defines "b \<equiv> min (saturating_add a c) snapshot"
  shows "a \<le> b" "b \<le> snapshot" "b + 1 \<le> snapshot + 1" "unat (b + 1) = unat b + 1" "b \<noteq> - 1"
proof -
  have "a \<le> saturating_add a c"
  proof (cases "unat a + unat c < 2 ^ 64")
    case True
    then have "unat (a + c) = unat a + unat c" by (subst unat_add_lem [THEN iffD1]) simp_all
    with True show ?thesis by (simp add: saturating_add_def word_le_nat_alt)
  qed (simp add: saturating_add_def)
  then show ab: "a \<le> b" "b \<le> snapshot" using assms(1) by (simp_all add: b_def)
  then show b: "b \<noteq> - 1" using assms(2) by (auto simp: word_order.extremum_unique)
  then show "unat (b + 1) = unat b + 1" "b + 1 \<le> snapshot + 1"
    using ab(2) assms(2) by (simp_all add: word_le_nat_alt word_no_wrap_Suc)
qed

lemma dispatch_ranges_within:
  "snapshot \<noteq> - 1 \<Longrightarrow> r \<in> set (dispatch_ranges n a snapshot c) \<Longrightarrow> fst r \<le> snd r \<and> snd r \<le> snapshot"
proof (induction n a snapshot c rule: dispatch_ranges.induct)
  case (2 n a snapshot c)
  then show ?case using dispatch_step(1,2) [of a snapshot "of_nat (c - 1)"] by (auto simp: Let_def not_less split: if_splits)
qed simp

lemma dispatch_ranges_cover:
  assumes chain: "numbered_chain chain" and top: "snapshot \<noteq> - 1"
  shows "a \<le> snapshot + 1 \<Longrightarrow> unat snapshot + 1 - unat a \<le> n \<Longrightarrow>
    concat (map (\<lambda>(x, y). chain_part chain x (y + 1)) (dispatch_ranges n a snapshot c)) = chain_part chain a (snapshot + 1)
    \<and> length (dispatch_ranges n a snapshot c) \<le> unat snapshot + 1 - unat a"
proof (induction n arbitrary: a)
  case 0
  then have "a = snapshot + 1" using top by (simp add: word_le_nat_alt word_no_wrap_Suc word_unat_eq_iff)
  then show ?case by simp
next
  case (Suc n)
  show ?case
  proof (cases "snapshot < a")
    case True
    then have "a = snapshot + 1" using Suc.prems(1) word_less_inc [OF top, of a] by auto
    then show ?thesis using True by simp
  next
    case False
    define b where "b = min (saturating_add a (of_nat (c - 1))) snapshot"
    have step: "a \<le> b" "b \<le> snapshot" "b + 1 \<le> snapshot + 1" "unat (b + 1) = unat b + 1"
      using dispatch_step [of a snapshot "of_nat (c - 1)"] False top unfolding b_def by (simp_all add: not_less)
    then have order: "a \<le> b + 1" "unat a \<le> unat b" "unat b \<le> unat snapshot" by (simp_all add: word_le_nat_alt)
    have rest: "concat (map (\<lambda>(x, y). chain_part chain x (y + 1)) (dispatch_ranges n (b + 1) snapshot c)) = chain_part chain (b + 1) (snapshot + 1)
      \<and> length (dispatch_ranges n (b + 1) snapshot c) \<le> unat snapshot + 1 - unat (b + 1)"
      using Suc.prems(2) step order by (intro Suc.IH) simp_all
    have "chain_part chain a (b + 1) @ chain_part chain (b + 1) (snapshot + 1) = chain_part chain a (snapshot + 1)"
      using chain step(3) order(1) by (intro chain_part_append) (simp_all add: numbered_chain_def)
    moreover have "dispatch_ranges (Suc n) a snapshot c = (a, b) # dispatch_ranges n (b + 1) snapshot c"
      using False by (simp add: Let_def b_def)
    moreover have "Suc (length (dispatch_ranges n (b + 1) snapshot c)) \<le> unat snapshot + 1 - unat a"
      using rest step(4) order by linarith
    ultimately show ?thesis using rest by simp
  qed
qed

section \<open>Workers, dispatcher and reorder buffer\<close>

lemma orderly_by_sequence: "(\<And>s. orderly (filter (\<lambda>b. sb_sequence_id b = s) bs)) \<Longrightarrow> orderly bs"
proof (induction bs)
  case (Cons b bs)
  have "orderly (filter (\<lambda>c. sb_sequence_id c = s) bs)" for s
    using Cons.prems [of s] by (simp split: if_splits)
  moreover have "sb_is_final b \<longrightarrow> list_all (\<lambda>c. sb_sequence_id c \<noteq> sb_sequence_id b) bs"
    using Cons.prems [of "sb_sequence_id b"] by (auto simp: list_all_iff)
  ultimately show ?case using Cons.IH by simp
qed simp

lemma orderly_partial: "partial_batches sid bs \<Longrightarrow> orderly (bs @ [b])"
  by (induction bs) (simp_all add: partial_batches_def)

lemma sent_logs_concat: "sent_logs (concat rss) = concat (map sent_logs rss)"
  by (induction rss) simp_all


lemma dispatched_worker:
  assumes node: "reliable_node E f snapshot chain" and limit: "limit_fits snapshot limit" and E: "fails_at_most E (\<lambda>_. 0)"
    and range: "(a, e) \<in> set (dispatch_ranges fuel start snapshot c)"
    and run: "parallel_worker E e limit n (worker_start i (with_range f a e) limit) w = Some (batches, w')"
  shows "worker_output f chain a e i batches"
proof -
  have "unat snapshot + 5001 < 2 ^ 64" using node by (auto simp: reliable_node_def)
  then have top: "snapshot \<noteq> - 1" by (auto simp: unat_minus_one_word)
  have ae: "a \<le> e" "e \<le> snapshot" using dispatch_ranges_within [OF top range] by simp_all
  then have "e \<noteq> - 1" using top by (auto simp: word_order.extremum_unique)
  moreover have "unat e \<le> unat snapshot" using ae(2) by (simp add: word_le_nat_alt)
  moreover from this limit have fits: "limit_fits e limit" by (fastforce simp: limit_fits_def)
  ultimately show ?thesis
    using worker_delivers [OF reliable_node_below [OF node ae(2)] E fits worker_start_inv [OF ae(1) _ fits], of n i w] run
    by (simp add: worker_start_def)
qed



text \<open>A node that always answers\<close>

definition calm_env :: "rpc_log list \<Rightarrow> unit fetch_env" where
  "calm_env chain =
     \<lparr>fe_get_logs = (\<lambda>g w. (Inr (filter (\<lambda>l. filter_from_block g \<le> block_of l \<and> block_of l \<le> filter_to_block g) chain), w)),
      fe_timestamps = False, fe_attach_timestamps = (\<lambda>ls. io_ret ls), fe_channel_open = (\<lambda>w. (True, w)),
      fe_stopped = (\<lambda>_. False), fe_one_in_ten = (\<lambda>w. (False, w)), fe_report = (\<lambda>_ w. w),
      fe_lowercase = (\<lambda>s. s), fe_take_chars = take, fe_captures = (\<lambda>_ _. None), fe_u64_from_str = (\<lambda>_. None)\<rparr>"

lemma calm_reliable:
  "numbered_chain chain \<Longrightarrow> unat snapshot + 5001 < 2 ^ 64 \<Longrightarrow> reliable_node (calm_env chain) f snapshot chain"
  by (auto simp: reliable_node_def answers_chain_def keeps_logs_def sound_hints_def calm_env_def io_ret_app)

lemma calm_never_fails: "fails_at_most (calm_env chain) (\<lambda>_. 0)"
  by (simp add: fails_at_most_def calm_env_def io_ret_app)

lemma calm_worker:
  assumes "a \<le> e" and "unat e + 5001 < 2 ^ 64"
  shows "\<exists>batches. parallel_worker (calm_env small_chain) e None (unat e + 2) (worker_start i (with_range f a e) None) () = Some (batches, ()) \<and>
    (\<forall>b\<in>set batches. sb_sequence_id b = i)"
proof -
  have "e \<noteq> - 1" using assms(2) by (auto simp: unat_minus_one_word)
  then have "worker_inv f small_chain a e (worker_start i (with_range f a e) None)"
    using assms(1) by (intro worker_start_inv) (simp_all add: limit_fits_def)
  from worker_delivers [OF calm_reliable [OF small_chain_numbered assms(2)] calm_never_fails _ this, of None "unat e + 2" "()"]
  show ?thesis
    by (auto simp: limit_fits_def worker_output_def partial_batches_def worker_start_def split: option.splits)
qed

lemma small_ranges: "dispatch_ranges 16 5 20 10 = [(5, 14), (15, 20)]"
proof -
  have "dispatch_ranges (Suc (Suc (Suc n))) 5 20 10 = [(5, 14), (15, 20)]" for n
    by (simp add: saturating_add_def min_def)
  from this [of 13] show ?thesis by (simp add: numeral_eq_Suc)
qed


end
