(* ===== verification/Live_Indexing.thy ===== *)
theory Live_Indexing
  imports Log_Fetching Reorg_Coordinator
begin

text \<open>
  Live indexing: \<open>live_indexing_stream\<close> of \<open>core/src/indexer/fetch_logs.rs\<close>, one iteration of its loop as a
  function on the state of the stream, the reorg coordinator it shares and the outside world. The node, the
  channel to the consumer, the notifications of a reth node, the clock of block timestamps and the bloom
  filters (\<open>alloy\<close>) are fields of the environment. Sleeping, the heartbeat and log lines are left out.
\<close>

type_synonym bloom = "2048 word"

text \<open>What the stream reads of the latest block.\<close>

record chain_head =
  hd_number :: u64
  hd_hash :: b256
  hd_parent_hash :: b256
  hd_timestamp :: u64
  hd_logs_bloom :: bloom

record 'w live_env = "'w fetch_env" +
  li_reorg_signal :: "'w \<Rightarrow> reorg_info option \<times> 'w"
  li_drain_signals :: "'w \<Rightarrow> 'w"
  li_latest_block :: "('w, provider_error, chain_head option) io"
  li_known_addresses :: "('w, provider_error) factory_lookup"
  li_contract_in_bloom :: "address \<Rightarrow> bloom \<Rightarrow> bool"
  li_topic_in_bloom :: "b256 \<Rightarrow> bloom \<Rightarrow> bool"

record live_config =
  lc_topic_id :: b256
  lc_reorg_safe_distance :: u64
  lc_disable_logs_bloom_checks :: bool
  lc_original_max_limit :: "u64 option"
  lc_log_prefix :: string

section \<open>The cache of recent blocks\<close>

record block_meta =
  bm_hash :: b256
  bm_parent_hash :: b256
  bm_timestamp :: u64

text \<open>An LRU cache of 1024 blocks, the most recently used first.\<close>

type_synonym block_cache = "(u64 \<times> block_meta) list"

definition block_cache_size :: nat where "block_cache_size = 1024"

definition cache_pop :: "u64 \<Rightarrow> block_cache \<Rightarrow> block_cache" where
  "cache_pop b cache = filter (\<lambda>(k, _). k \<noteq> b) cache"

definition cache_put :: "u64 \<Rightarrow> block_meta \<Rightarrow> block_cache \<Rightarrow> block_cache" where
  "cache_put b meta cache = take block_cache_size ((b, meta) # cache_pop b cache)"

definition cache_get :: "u64 \<Rightarrow> block_cache \<Rightarrow> block_meta option \<times> block_cache" where
  "cache_get b cache =
     (case map_of cache b of Some meta \<Rightarrow> (Some meta, (b, meta) # cache_pop b cache) | None \<Rightarrow> (None, cache))"

text \<open>Timestamps from the cache, where it has the block of a log.\<close>

fun stamp_logs :: "rpc_log list \<Rightarrow> block_cache \<Rightarrow> rpc_log list \<times> block_cache" where
  "stamp_logs [] cache = ([], cache)"
| "stamp_logs (l # ls) cache =
     (let (l', cache) = (case lg_block_number l of
            None \<Rightarrow> (l, cache)
          | Some n \<Rightarrow> (case cache_get n cache of
                (Some meta, cache) \<Rightarrow> (l\<lparr>lg_block_timestamp := Some (bm_timestamp meta)\<rparr>, cache)
              | (None, cache) \<Rightarrow> (l, cache)));
          (ls', cache) = stamp_logs ls cache
      in (l' # ls', cache))"

text \<open>\<open>is_relevant_block\<close> of \<open>helpers/evm_log.rs\<close>\<close>

definition is_relevant_block :: "('w, 'z) live_env_scheme \<Rightarrow> address list option \<Rightarrow> b256 \<Rightarrow> bloom \<Rightarrow> bool" where
  "is_relevant_block E contract_address topic_id logs_bloom =
     ((case contract_address of
         Some addresses \<Rightarrow> \<not> list_all (\<lambda>a. \<not> li_contract_in_bloom E a logs_bloom) addresses
       | None \<Rightarrow> True) \<and> li_topic_in_bloom E topic_id logs_bloom)"

section \<open>The state of the stream\<close>

record 'w live_state =
  lv_filter :: event_filter
  lv_last_seen :: u64
  lv_fetch :: live_fetch_state
  lv_cache :: block_cache
  lv_coordinator :: "'w reorg_coordinator option"
  lv_sent :: "fetch_logs_result list"

datatype live_flow = Again | Stop

type_synonym 'w live_result = "live_flow \<times> 'w live_state \<times> 'w"

text \<open>\<open>tx.send\<close>; a closed channel keeps nothing.\<close>

definition live_send :: "('w, 'z) live_env_scheme \<Rightarrow> fetch_logs_result \<Rightarrow> 'w live_state \<Rightarrow> 'w \<Rightarrow> bool \<times> 'w live_state \<times> 'w" where
  "live_send E r st w =
     (let (sent, w) = fe_channel_open E w in (sent, if sent then st\<lparr>lv_sent := lv_sent st @ [r]\<rparr> else st, w))"

definition rewind_to :: "u64 \<Rightarrow> 'w live_state \<Rightarrow> 'w live_state" where
  "rewind_to fork_block st = st\<lparr>lv_filter := set_from_block fork_block (lv_filter st),
     lv_last_seen := saturating_sub fork_block 1, lv_fetch := live_delivered (lv_fetch st)\<rparr>"

text \<open>A recovery task is handed to the coordinator; a failure is only logged.\<close>

definition live_recover ::
  "('d::linorder, 'w, 'y) reorg_env_scheme \<Rightarrow> 'w reorg_context \<Rightarrow> ('w reorg_coordinator \<Rightarrow> anyhow + reorg_task) \<Rightarrow>
     'w live_state \<Rightarrow> 'w \<Rightarrow> 'w live_state \<times> 'w" where
  "live_recover R ctx create st w =
     (case lv_coordinator st of
        None \<Rightarrow> (st, w)
      | Some c \<Rightarrow>
          (case create c of
             Inl _ \<Rightarrow> (st, w)
           | Inr task \<Rightarrow>
               (let (_, (c', w')) = handle_reorg R task ctx (c, w) in (st\<lparr>lv_coordinator := Some c'\<rparr>, w'))))"

definition reorg_message_at :: "u64 \<Rightarrow> reorg_info \<Rightarrow> fetch_logs_result" where
  "reorg_message_at b info = \<lparr>fr_logs = [], fr_from_block = b, fr_to_block = b, fr_reorg = Some info\<rparr>"

section \<open>A notified reorg\<close>

definition live_reth_reorg ::
  "('d::linorder, 'w, 'y) reorg_env_scheme \<Rightarrow> ('w, 'z) live_env_scheme \<Rightarrow> 'w reorg_context \<Rightarrow> reorg_info \<Rightarrow>
     'w live_state \<Rightarrow> 'w \<Rightarrow> 'w live_result" where
  "live_reth_reorg R E ctx info st w =
     (let fork_block = ri_fork_block info;
          st = st\<lparr>lv_cache := fold cache_pop (u64_range fork_block (fork_block + ri_depth info)) (lv_cache st)\<rparr>;
          last_reverted = fork_block + saturating_sub (ri_depth info) 1;
          (st, w) = live_recover R ctx (\<lambda>c. on_exex_reorg c fork_block last_reverted) st w;
          (_, st, w) = live_send E (reorg_message_at fork_block info) st w
      in (Again, rewind_to fork_block st, w))"

section \<open>The answer of a live query\<close>

text \<open>Logs marked as removed announce a reorg.\<close>

definition min_removed_block :: "u64 \<Rightarrow> rpc_log list \<Rightarrow> u64" where
  "min_removed_block from_b logs =
     (case List.map_filter lg_block_number (filter lg_removed logs) of
        [] \<Rightarrow> from_b | b # bs \<Rightarrow> fold min bs b)"

definition live_removed_logs ::
  "('d::linorder, 'w, 'y) reorg_env_scheme \<Rightarrow> ('w, 'z) live_env_scheme \<Rightarrow> 'w reorg_context \<Rightarrow> u64 \<Rightarrow> u64 \<Rightarrow> rpc_log list \<Rightarrow>
     'w live_state \<Rightarrow> 'w \<Rightarrow> 'w live_result" where
  "live_removed_logs R E ctx from_b to_b logs st w =
     (let fork_block = min_removed_block from_b logs;
          info = \<lparr>ri_fork_block = fork_block, ri_depth = saturating_sub from_b fork_block, ri_affected_tx_hashes = []\<rparr>;
          st = st\<lparr>lv_cache := fold cache_pop (u64_range_incl fork_block to_b) (lv_cache st)\<rparr>;
          (st, w) = (case lv_coordinator st of
             Some _ \<Rightarrow> live_recover R ctx (\<lambda>c. try_create_reorg_task_for_block_range c fork_block to_b) st w
           | None \<Rightarrow> (let (_, st, w) = live_send E (reorg_message_at fork_block info) st w in (st, w)))
      in (Again, rewind_to fork_block st, li_drain_signals E w))"

text \<open>Where the stream goes on; it stays where the last log has no block number.\<close>

definition live_advance :: "u64 \<Rightarrow> rpc_log list \<Rightarrow> 'w live_state \<Rightarrow> 'w live_state" where
  "live_advance to_b logs st =
     (case next_from_block to_b logs of
        Some n \<Rightarrow> st\<lparr>lv_filter := set_from_block n (lv_filter st)\<rparr> | None \<Rightarrow> st)"

definition live_deliver ::
  "('w, 'z) live_env_scheme \<Rightarrow> u64 \<Rightarrow> u64 \<Rightarrow> rpc_log list \<Rightarrow> 'w live_state \<Rightarrow> 'w \<Rightarrow> 'w live_result" where
  "live_deliver E from_b to_b logs st w =
     (let (stamped, cache) = stamp_logs logs (lv_cache st);
          st = st\<lparr>lv_last_seen := to_b, lv_cache := cache\<rparr>
      in case (if fe_timestamps E then fe_attach_timestamps E stamped w else (Inr stamped, w)) of
           (Inl _, w) \<Rightarrow> (Again, st, w)
         | (Inr timed, w) \<Rightarrow>
             (let (sent, st, w) = live_send E \<lparr>fr_logs = timed, fr_from_block = from_b, fr_to_block = to_b, fr_reorg = None\<rparr> st w
              in if sent
                 then (Again, live_advance to_b logs (st\<lparr>lv_fetch := live_delivered (lv_fetch st)\<rparr>), w)
                 else (Stop, st, w)))"

definition live_failed :: "('w, 'z) live_env_scheme \<Rightarrow> u64 option \<Rightarrow> u64 \<Rightarrow> u64 \<Rightarrow> provider_error \<Rightarrow> 'w live_state \<Rightarrow> 'w live_state" where
  "live_failed E limit from_b to_b err st =
     st\<lparr>lv_fetch := (case retry_with_block_range E err from_b to_b limit of
         Some r \<Rightarrow> live_retry_with (rt_from r) (rt_to r) (lv_fetch st)
       | None \<Rightarrow> live_retry_with from_b (halved_block_number to_b from_b) (lv_fetch st))\<rparr>"

section \<open>One fetch\<close>

definition live_query ::
  "('d::linorder, 'w, 'y) reorg_env_scheme \<Rightarrow> ('w, 'z) live_env_scheme \<Rightarrow> live_config \<Rightarrow> 'w reorg_context \<Rightarrow> u64 \<Rightarrow> u64 \<Rightarrow>
     'w live_state \<Rightarrow> 'w \<Rightarrow> 'w live_result" where
  "live_query R E cfg ctx from_b to_b st w =
     (let st = st\<lparr>lv_filter := set_to_block to_b (lv_filter st)\<rparr>
      in case fe_get_logs E (lv_filter st) w of
           (Inl err, w) \<Rightarrow> (Again, live_failed E (lc_original_max_limit cfg) from_b to_b err st, w)
         | (Inr logs, w) \<Rightarrow>
             if list_ex lg_removed logs then live_removed_logs R E ctx from_b to_b logs st w
             else live_deliver E from_b to_b logs st w)"

text \<open>A block without a matching bloom filter is skipped; its empty result is delivered all the same.\<close>

definition live_skip ::
  "('w, 'z) live_env_scheme \<Rightarrow> u64 \<Rightarrow> u64 \<Rightarrow> 'w live_state \<Rightarrow> 'w \<Rightarrow> 'w live_result" where
  "live_skip E from_b to_b st w =
     (let (sent, st, w) = live_send E \<lparr>fr_logs = [], fr_from_block = from_b, fr_to_block = to_b, fr_reorg = None\<rparr> st w
      in if sent
         then (Again, st\<lparr>lv_fetch := live_delivered (lv_fetch st),
                lv_filter := set_from_block (to_b + 1) (lv_filter st), lv_last_seen := to_b\<rparr>, w)
         else (Stop, st, w))"

text \<open>A failing lookup of a factory's contracts is a panic, which ends the stream.\<close>

definition live_fetch ::
  "('d::linorder, 'w, 'y) reorg_env_scheme \<Rightarrow> ('w, 'z) live_env_scheme \<Rightarrow> live_config \<Rightarrow> 'w reorg_context \<Rightarrow> chain_head \<Rightarrow>
     'w live_state \<Rightarrow> 'w \<Rightarrow> 'w live_result" where
  "live_fetch R E cfg ctx head st w =
     (let safe_block_number = saturating_sub (hd_number head) (lc_reorg_safe_distance cfg)
      in case live_plan (lv_fetch st) (filter_from_block (lv_filter st)) safe_block_number (lc_original_max_limit cfg) of
           None \<Rightarrow> (Again, st, w)
         | Some plan \<Rightarrow>
             (let from_b = lp_from_block plan; to_b = lp_to_block plan
              in case contract_addresses (li_known_addresses E) (lv_filter st) w of
                   (Inl _, w) \<Rightarrow> (Stop, st, w)
                 | (Inr contract_address, w) \<Rightarrow>
                     if from_b = hd_number head \<and> from_b = to_b \<and> \<not> lc_disable_logs_bloom_checks cfg
                       \<and> \<not> is_relevant_block E contract_address (lc_topic_id cfg) (hd_logs_bloom head)
                     then live_skip E from_b to_b st w
                     else live_query R E cfg ctx from_b to_b st w))"

section \<open>One iteration\<close>

definition live_head ::
  "('d::linorder, 'w, 'y) reorg_env_scheme \<Rightarrow> ('w, 'z) live_env_scheme \<Rightarrow> live_config \<Rightarrow> 'w reorg_context \<Rightarrow> chain_head \<Rightarrow>
     'w live_state \<Rightarrow> 'w \<Rightarrow> 'w live_result" where
  "live_head R E cfg ctx head st w =
     (if lv_last_seen st = hd_number head then (Again, st, w) else live_fetch R E cfg ctx head st w)"

definition live_detect ::
  "('d::linorder, 'w, 'y) reorg_env_scheme \<Rightarrow> ('w, 'z) live_env_scheme \<Rightarrow> live_config \<Rightarrow> 'w reorg_context \<Rightarrow> chain_head \<Rightarrow>
     'w live_state \<Rightarrow> 'w \<Rightarrow> 'w live_result" where
  "live_detect R E cfg ctx head st w =
     (let meta = \<lparr>bm_hash = hd_hash head, bm_parent_hash = hd_parent_hash head, bm_timestamp = hd_timestamp head\<rparr>;
          st = st\<lparr>lv_cache := cache_put (hd_number head) meta (lv_cache st)\<rparr>
      in case lv_coordinator st of
           None \<Rightarrow> live_head R E cfg ctx head st w
         | Some c \<Rightarrow>
             (case detect_and_handle_reorg R (hd_number head) (hd_hash head) (hd_parent_hash head) (lc_log_prefix cfg) ctx (c, w) of
                (Inl _, (c, w)) \<Rightarrow> (Again, st\<lparr>lv_coordinator := Some c\<rparr>, w)
              | (Inr (Some fork_point), (c, w)) \<Rightarrow> (Again, rewind_to fork_point (st\<lparr>lv_coordinator := Some c\<rparr>), w)
              | (Inr None, (c, w)) \<Rightarrow> live_head R E cfg ctx head (st\<lparr>lv_coordinator := Some c\<rparr>) w))"

definition live_iteration ::
  "('d::linorder, 'w, 'y) reorg_env_scheme \<Rightarrow> ('w, 'z) live_env_scheme \<Rightarrow> live_config \<Rightarrow> 'w reorg_context \<Rightarrow>
     'w live_state \<Rightarrow> 'w \<Rightarrow> 'w live_result" where
  "live_iteration R E cfg ctx st w =
     (if fe_stopped E w then (Stop, st, w)
      else case li_reorg_signal E w of
        (Some info, w) \<Rightarrow> live_reth_reorg R E ctx info st w
      | (None, w) \<Rightarrow>
          (case li_latest_block E w of
             (Inl _, w) \<Rightarrow> (Again, st, w)
           | (Inr None, w) \<Rightarrow> (Again, st, w)
           | (Inr (Some head), w) \<Rightarrow> live_detect R E cfg ctx head st w))"

text \<open>The loop, observed for a number of iterations.\<close>

fun live_iterations ::
  "('d::linorder, 'w, 'y) reorg_env_scheme \<Rightarrow> ('w, 'z) live_env_scheme \<Rightarrow> live_config \<Rightarrow> 'w reorg_context \<Rightarrow> nat \<Rightarrow>
     'w live_state \<Rightarrow> 'w \<Rightarrow> 'w live_state \<times> 'w" where
  "live_iterations R E cfg ctx 0 st w = (st, w)"
| "live_iterations R E cfg ctx (Suc n) st w =
     (case live_iteration R E cfg ctx st w of
        (Stop, st, w) \<Rightarrow> (st, w)
      | (Again, st, w) \<Rightarrow> live_iterations R E cfg ctx n st w)"

definition live_start :: "event_filter \<Rightarrow> u64 \<Rightarrow> 'w reorg_coordinator option \<Rightarrow> 'w live_state" where
  "live_start f last_seen coordinator =
     \<lparr>lv_filter = f, lv_last_seen = last_seen, lv_fetch = \<lparr>ls_retry_hint = None\<rparr>, lv_cache = [],
      lv_coordinator = coordinator, lv_sent = []\<rparr>"

end
