(* ===== verification/Live_Indexing_Correct.thy ===== *)
theory Live_Indexing_Correct
  imports Live_Indexing Log_Fetching_Correct Coordinator_Correct
begin

text \<open>
  What live indexing promises: without a reorg every log is delivered once, in order, and never above the safe
  head; a reorg takes the stream back to the fork point; and what happens when timestamps cannot be attached.
\<close>

section \<open>Plans and timestamps\<close>

lemma live_plan_Some:
  assumes "live_plan st a safe limit = Some p"
  shows "lp_from_block p = a" "a \<le> lp_to_block p" "lp_to_block p \<le> safe"
proof -
  have a: "a \<le> safe" using assms by (simp add: live_plan_def split: if_splits)
  have "a \<le> saturating_add a l" for l
  proof (cases "unat a + unat l < 2 ^ 64")
    case True
    then have "unat (a + l) = unat a + unat l" by (subst unat_add_lem [THEN iffD1]) simp_all
    with True show ?thesis by (simp add: saturating_add_def word_le_nat_alt)
  qed (simp add: saturating_add_def)
  then have "a \<le> (case limit of Some l \<Rightarrow> min (saturating_add a l) safe | None \<Rightarrow> safe)"
    "(case limit of Some l \<Rightarrow> min (saturating_add a l) safe | None \<Rightarrow> safe) \<le> safe"
    using a by (auto split: option.split)
  then show "lp_from_block p = a" "a \<le> lp_to_block p" "lp_to_block p \<le> safe"
    using assms a by (auto simp: live_plan_def clamp_def Let_def not_less min.bounded_iff split: option.splits if_splits)
qed

lemma stamp_logs_untimed: "map untimed (fst (stamp_logs ls cache)) = map untimed ls"
  by (induction ls arbitrary: cache)
    (auto simp: untimed_def Let_def split: prod.splits option.splits, (metis fst_conv untimed_def)+)

lemma word_inc_mono: "a \<le> b \<Longrightarrow> (b::u64) \<noteq> - 1 \<Longrightarrow> a + 1 \<le> b + 1"
  using word_order.extremum_unique [of b] by (cases "a = - 1") (auto simp: word_le_nat_alt word_no_wrap_Suc)

section \<open>A node without reorgs\<close>

text \<open>\<open>tip\<close> is the highest block the node knows; it only grows. Up to there the node answers with the logs of the
  chain, and the bloom filter of a block covers its logs.\<close>

definition tip_grows :: "('w, 'z) live_env_scheme \<Rightarrow> ('w \<Rightarrow> u64) \<Rightarrow> bool" where
  "tip_grows E tip =
     ((\<forall>w. tip w \<le> tip (snd (li_reorg_signal E w)) \<and> tip w \<le> tip (snd (li_latest_block E w)) \<and>
        tip w \<le> tip (snd (fe_channel_open E w)) \<and> tip w \<noteq> - 1) \<and>
      (\<forall>f w. tip w \<le> tip (snd (contract_addresses (li_known_addresses E) f w)) \<and> tip w \<le> tip (snd (fe_get_logs E f w))) \<and>
      (\<forall>ls w. tip w \<le> tip (snd (fe_attach_timestamps E ls w))))"

definition quiet_node ::
  "('w, 'z) live_env_scheme \<Rightarrow> live_config \<Rightarrow> event_filter \<Rightarrow> ('w \<Rightarrow> u64) \<Rightarrow> rpc_log list \<Rightarrow> bool" where
  "quiet_node E cfg f tip chain =
     (numbered_chain chain \<and> keeps_logs E \<and> tip_grows E tip \<and>
      (\<forall>l\<in>set chain. \<not> lg_removed l) \<and>
      (\<forall>a b w logs w'. b \<le> tip w \<longrightarrow> fe_get_logs E (with_range f a b) w = (Inr logs, w') \<longrightarrow>
         logs = filter (\<lambda>l. a \<le> block_of l \<and> block_of l \<le> b) chain) \<and>
      (\<forall>w. fst (li_reorg_signal E w) = None) \<and>
      (\<forall>w head w'. li_latest_block E w = (Inr (Some head), w') \<longrightarrow> hd_number head \<le> tip w' \<and>
         (\<forall>a b v addresses v'. contract_addresses (li_known_addresses E) (with_range f a b) v = (Inr addresses, v') \<longrightarrow>
            (\<exists>l\<in>set chain. block_of l = hd_number head) \<longrightarrow>
            is_relevant_block E addresses (lc_topic_id cfg) (hd_logs_bloom head))))"

definition live_inv ::
  "event_filter \<Rightarrow> rpc_log list \<Rightarrow> u64 \<Rightarrow> u64 \<Rightarrow> 'w live_state \<Rightarrow> bool" where
  "live_inv f chain start bound st =
     (\<exists>a b. lv_filter st = with_range f a b \<and> delivered_up_to f chain start a (lv_sent st) \<and>
        (start < a \<longrightarrow> a \<le> bound + 1) \<and> lv_coordinator st = None)"

lemma set_from_with_range [simp]: "set_from_block n (with_range f a b) = with_range f n b"
  by (cases f) (simp_all add: with_range_def)

lemma set_to_with_range [simp]: "set_to_block n (with_range f a b) = with_range f a n"
  by (simp add: set_to_block_with_range)


lemma live_invI:
  "lv_filter st = with_range f a b \<Longrightarrow> delivered_up_to f chain start a (lv_sent st) \<Longrightarrow> (start < a \<Longrightarrow> a \<le> bound + 1) \<Longrightarrow>
   lv_coordinator st = None \<Longrightarrow> live_inv f chain start bound st"
  unfolding live_inv_def by blast

lemma live_inv_mono:
  assumes "live_inv f chain start bound st" and "bound \<le> bound'" and "bound' \<noteq> - 1"
  shows "live_inv f chain start bound' st"
proof -
  have "bound + 1 \<le> bound' + 1" using assms(2,3) by (rule word_inc_mono)
  then show ?thesis using assms(1) unfolding live_inv_def by (meson order_trans)
qed

lemma tip_growsD:
  assumes "tip_grows E tip"
  shows "li_reorg_signal E w = (s, w') \<Longrightarrow> tip w \<le> tip w'" "li_latest_block E w = (r, w') \<Longrightarrow> tip w \<le> tip w'"
    "fe_channel_open E w = (o', w') \<Longrightarrow> tip w \<le> tip w'" "tip w \<noteq> - 1"
    "contract_addresses (li_known_addresses E) f w = (a, w') \<Longrightarrow> tip w \<le> tip w'" "fe_get_logs E f w = (q, w') \<Longrightarrow> tip w \<le> tip w'"
    "fe_attach_timestamps E ls w = (t, w') \<Longrightarrow> tip w \<le> tip w'"
  using assms unfolding tip_grows_def by (metis snd_conv)+

lemma keeps_logsD: "keeps_logs E \<Longrightarrow> fe_attach_timestamps E ls w = (Inr ls', w') \<Longrightarrow> map untimed ls' = map untimed ls"
  unfolding keeps_logs_def by blast

text \<open>A delivery moves the stream on; a failed attachment leaves it where it was.\<close>

lemma live_send_result:
  assumes "live_send E r st w = (sent, st', w')"
  shows "st' = (if sent then st\<lparr>lv_sent := lv_sent st @ [r]\<rparr> else st)" and "fe_channel_open E w = (sent, w')"
  using assms by (auto simp: live_send_def split: prod.splits)

lemma live_deliver_inv:
  assumes chain: "numbered_chain chain" and keeps: "keeps_logs E" and grows: "tip_grows E tip"
    and range: "a \<le> b" "b \<le> bound" "bound \<noteq> - 1" and logs: "logs = filter (\<lambda>l. a \<le> block_of l \<and> block_of l \<le> b) chain"
    and st: "lv_filter st = with_range f a b" "delivered_up_to f chain start a (lv_sent st)" "start < a \<Longrightarrow> a \<le> bound + 1"
      "lv_coordinator st = None"
    and run: "live_deliver E a b logs st w = (flow, st', w')"
  shows "live_inv f chain start bound st'" and "tip w \<le> tip w'"
proof -
  have b: "b \<noteq> - 1" using range(2,3) by (auto simp: word_order.extremum_unique)
  have "b + 1 \<le> bound + 1" using range(2,3) by (rule word_inc_mono)
  obtain n where n: "next_from_block b logs = Some n" "a < n" "n \<le> b + 1" "logs = chain_part chain a n"
    using answer_covers [OF chain range(1) b logs] by blast
  obtain stamped cache where stamped: "stamp_logs logs (lv_cache st) = (stamped, cache)" by fastforce
  then have "map untimed stamped = map untimed logs" using stamp_logs_untimed [of logs "lv_cache st"] by simp
  obtain res w1 where attach: "(if fe_timestamps E then fe_attach_timestamps E stamped w else (Inr stamped, w)) = (res, w1)" by fastforce
  have w1: "tip w \<le> tip w1" using attach tip_growsD(7) [OF grows] by (auto split: if_splits)
  let ?st = "st\<lparr>lv_last_seen := b, lv_cache := cache\<rparr>"
  have "live_inv f chain start bound st' \<and> tip w \<le> tip w'"
  proof (cases res)
    case (Inl e)
    then have "st' = ?st" "w' = w1" using run stamped attach by (simp_all add: live_deliver_def)
    then show ?thesis using st w1 by (auto intro: live_invI)
  next
    case (Inr timed)
    have timed: "map untimed timed = map untimed logs"
      using attach Inr keeps_logsD [OF keeps, of stamped w timed w1] \<open>map untimed stamped = _\<close> by (auto split: if_splits)
    let ?r = "\<lparr>fr_logs = timed, fr_from_block = a, fr_to_block = b, fr_reorg = None\<rparr>"
    obtain sent st2 w2 where send: "live_send E ?r ?st w1 = (sent, st2, w2)" by (metis prod_cases3)
    note sent = live_send_result [OF send]
    have w2: "tip w1 \<le> tip w2" using sent(2) tip_growsD(3) [OF grows] by blast
    show ?thesis
    proof (cases sent)
      case False
      then have "st' = ?st" "w' = w2" using run stamped attach Inr send sent(1) by (simp_all add: live_deliver_def)
      then show ?thesis using st w1 w2 by (auto intro: live_invI)
    next
      case True
      then have st': "st' = live_advance b logs (st2\<lparr>lv_fetch := live_delivered (lv_fetch st2)\<rparr>)" "w' = w2"
        using run stamped attach Inr send by (simp_all add: live_deliver_def)
      have "delivers chain a n ?r" using timed n(4) by (simp add: delivers_def)
      then have "delivered_up_to f chain start n (lv_sent st2)"
        using delivered_step [OF chain st(2) _ n(2)] True sent(1) by simp
      moreover have "lv_filter st2 = with_range f a b" "lv_coordinator st2 = None" using sent(1) True st by simp_all
      ultimately show ?thesis using st' n w1 w2 \<open>b + 1 \<le> bound + 1\<close>
        by (auto simp: live_advance_def intro!: live_invI intro: order_trans)
    qed
  qed
  then show "live_inv f chain start bound st'" "tip w \<le> tip w'" by blast+
qed


definition safe_tip :: "live_config \<Rightarrow> ('w \<Rightarrow> u64) \<Rightarrow> 'w \<Rightarrow> u64" where
  "safe_tip cfg tip w = saturating_sub (tip w) (lc_reorg_safe_distance cfg)"

lemma saturating_sub_mono: "a \<le> b \<Longrightarrow> saturating_sub a c \<le> saturating_sub b (c::u64)"
  by (simp add: word_le_nat_alt diff_le_mono)

lemma saturating_sub_le: "saturating_sub a b \<le> (a::u64)"
  by (simp add: word_le_nat_alt)

lemma safe_tip_not_top: "tip_grows E tip \<Longrightarrow> safe_tip cfg tip w \<noteq> - 1"
  using tip_growsD(4) [of E tip w] saturating_sub_le [of "tip w" "lc_reorg_safe_distance cfg"]
  by (auto simp: safe_tip_def word_order.extremum_unique)

lemma safe_tip_mono: "tip w \<le> tip w' \<Longrightarrow> safe_tip cfg tip w \<le> safe_tip cfg tip w'"
  by (simp add: safe_tip_def saturating_sub_mono)

lemma live_inv_tip:
  assumes "live_inv f chain start (safe_tip cfg tip w) st" and "tip w \<le> tip w'" and "tip_grows E tip"
  shows "live_inv f chain start (safe_tip cfg tip w') st"
  by (rule live_inv_mono [OF assms(1) safe_tip_mono [of tip w w' cfg, OF assms(2)] safe_tip_not_top [OF assms(3)]])

lemma quiet_nodeD:
  assumes "quiet_node E cfg f tip chain"
  shows "numbered_chain chain" "keeps_logs E" "tip_grows E tip"
    "b \<le> tip w \<Longrightarrow> fe_get_logs E (with_range f a b) w = (Inr logs, w') \<Longrightarrow>
       logs = filter (\<lambda>l. a \<le> block_of l \<and> block_of l \<le> b) chain \<and> \<not> list_ex lg_removed logs"
    "fst (li_reorg_signal E w) = None"
    "li_latest_block E w = (Inr (Some head), w') \<Longrightarrow> hd_number head \<le> tip w'"
    "li_latest_block E w = (Inr (Some head), w') \<Longrightarrow> contract_addresses (li_known_addresses E) (with_range f a b) v = (Inr addresses, v') \<Longrightarrow>
       \<not> is_relevant_block E addresses (lc_topic_id cfg) (hd_logs_bloom head) \<Longrightarrow> \<forall>l\<in>set chain. block_of l \<noteq> hd_number head"
proof -
  note q = assms [unfolded quiet_node_def]
  show "numbered_chain chain" "keeps_logs E" "tip_grows E tip" "fst (li_reorg_signal E w) = None" using q by blast+
  show "hd_number head \<le> tip w'" if "li_latest_block E w = (Inr (Some head), w')" using q that by blast
  show "\<forall>l\<in>set chain. block_of l \<noteq> hd_number head" if "li_latest_block E w = (Inr (Some head), w')"
    "contract_addresses (li_known_addresses E) (with_range f a b) v = (Inr addresses, v')"
    "\<not> is_relevant_block E addresses (lc_topic_id cfg) (hd_logs_bloom head)"
    using q that by blast
  have removed: "\<forall>l\<in>set chain. \<not> lg_removed l" using q by blast
  assume "b \<le> tip w" "fe_get_logs E (with_range f a b) w = (Inr logs, w')"
  then have "logs = filter (\<lambda>l. a \<le> block_of l \<and> block_of l \<le> b) chain" using q by blast
  then show "logs = filter (\<lambda>l. a \<le> block_of l \<and> block_of l \<le> b) chain \<and> \<not> list_ex lg_removed logs"
    using removed by (auto simp: list_ex_iff)
qed

lemma live_query_inv:
  assumes node: "quiet_node E cfg f tip chain"
    and range: "a \<le> b" "b \<le> bound" "bound \<noteq> - 1" "b \<le> tip w"
    and st: "lv_filter st = with_range f a b'" "delivered_up_to f chain start a (lv_sent st)" "start < a \<Longrightarrow> a \<le> bound + 1"
      "lv_coordinator st = None"
    and run: "live_query R E cfg ctx a b st w = (flow, st', w')"
  shows "live_inv f chain start bound st' \<and> tip w \<le> tip w'"
proof -
  note n = quiet_nodeD [OF node]
  obtain res w1 where query: "fe_get_logs E (with_range f a b) w = (res, w1)" by fastforce
  have w1: "tip w \<le> tip w1" using tip_growsD(6) [OF n(3) query] .
  let ?st = "st\<lparr>lv_filter := with_range f a b\<rparr>"
  show ?thesis
  proof (cases res)
    case (Inl err)
    then have "st' = live_failed E (lc_original_max_limit cfg) a b err ?st" "w' = w1"
      using run query st(1) by (simp_all add: live_query_def)
    then show ?thesis using st w1 by (auto simp: live_failed_def intro!: live_invI)
  next
    case (Inr logs)
    have logs: "logs = filter (\<lambda>l. a \<le> block_of l \<and> block_of l \<le> b) chain" "\<not> list_ex lg_removed logs"
      using n(4) [OF range(4) query [unfolded Inr]] by blast+
    have "live_deliver E a b logs ?st w1 = (flow, st', w')"
      using run query st(1) Inr logs(2) by (simp add: live_query_def Let_def)
    from live_deliver_inv [OF n(1,2,3) range(1-3) logs(1) _ _ _ _ this] st(2-4) w1 show ?thesis
      by (auto intro: order_trans)
  qed
qed

lemma live_skip_inv:
  assumes grows: "tip_grows E tip" and range: "b \<le> bound" "bound \<noteq> - 1" and none: "\<forall>l\<in>set chain. block_of l \<noteq> b"
    and chain: "numbered_chain chain"
    and st: "lv_filter st = with_range f b b'" "delivered_up_to f chain start b (lv_sent st)" "start < b \<Longrightarrow> b \<le> bound + 1"
      "lv_coordinator st = None"
    and run: "live_skip E b b st w = (flow, st', w')"
  shows "live_inv f chain start bound st' \<and> tip w \<le> tip w'"
proof -
  have b: "b \<noteq> - 1" using range by (auto simp: word_order.extremum_unique)
  have upper: "b + 1 \<le> bound + 1" using range by (rule word_inc_mono)
  let ?r = "\<lparr>fr_logs = [], fr_from_block = b, fr_to_block = b, fr_reorg = None\<rparr>"
  obtain sent st2 w2 where send: "live_send E ?r st w = (sent, st2, w2)" by (metis prod_cases3)
  note sent = live_send_result [OF send]
  have w2: "tip w \<le> tip w2" using sent(2) tip_growsD(3) [OF grows] by blast
  have "chain_part chain b (b + 1) = []"
    using none b by (auto simp: chain_part_def filter_empty_conv word_less_inc dest: order_antisym)
  then have "delivers chain b (b + 1) ?r" by (simp add: delivers_def)
  then have "delivered_up_to f chain start (b + 1) (lv_sent st @ [?r])"
    using delivered_step [OF chain st(2)] word_inc_greater [OF b] by blast
  then show ?thesis using run send sent(1) st w2 upper
    by (cases sent) (auto simp: live_skip_def intro!: live_invI)
qed


lemma live_fetch_inv:
  assumes node: "quiet_node E cfg f tip chain" and head: "li_latest_block E v = (Inr (Some head), w)"
    and inv: "live_inv f chain start (safe_tip cfg tip w) st"
    and run: "live_fetch R E cfg ctx head st w = (flow, st', w')"
  shows "live_inv f chain start (safe_tip cfg tip w') st' \<and> tip w \<le> tip w'"
proof -
  note n = quiet_nodeD [OF node]
  obtain a b0 where st: "lv_filter st = with_range f a b0" "delivered_up_to f chain start a (lv_sent st)"
      "start < a \<longrightarrow> a \<le> safe_tip cfg tip w + 1" "lv_coordinator st = None"
    using inv by (auto simp: live_inv_def)
  let ?safe = "saturating_sub (hd_number head) (lc_reorg_safe_distance cfg)"
  show ?thesis
  proof (cases "live_plan (lv_fetch st) a ?safe (lc_original_max_limit cfg)")
    case None
    then show ?thesis using run st(1) inv by (simp add: live_fetch_def)
  next
    case (Some plan)
    note plan = live_plan_Some [OF Some]
    let ?b = "lp_to_block plan"
    obtain res w1 where contracts: "contract_addresses (li_known_addresses E) (lv_filter st) w = (res, w1)" by fastforce
    have w1: "tip w \<le> tip w1" using tip_growsD(5) [OF n(3) contracts] .
    have top: "hd_number head \<le> tip w" using n(6) [OF head] .
    have b: "?b \<le> safe_tip cfg tip w1" "?b \<le> tip w1"
      using plan(3) saturating_sub_mono [of "hd_number head" "tip w1" "lc_reorg_safe_distance cfg"] top w1 saturating_sub_le [of "hd_number head" "lc_reorg_safe_distance cfg"]
      by (auto simp: safe_tip_def intro: order_trans)
    note st1 = live_inv_tip [OF inv w1 n(3)]
    have low: "start < a \<Longrightarrow> a \<le> safe_tip cfg tip w1 + 1"
      using st(3) word_inc_mono [OF safe_tip_mono [of tip w w1 cfg, OF w1] safe_tip_not_top [OF n(3)]] by (blast intro: order_trans)
    have goal: "live_inv f chain start (safe_tip cfg tip w1) st' \<and> tip w1 \<le> tip w'"
      if addresses: "res = Inr addresses" for addresses
    proof -
      let ?skip = "a = hd_number head \<and> a = ?b \<and> \<not> lc_disable_logs_bloom_checks cfg \<and>
        \<not> is_relevant_block E addresses (lc_topic_id cfg) (hd_logs_bloom head)"
      have fetch: "(if ?skip then live_skip E a ?b st w1 else live_query R E cfg ctx a ?b st w1) = (flow, st', w')"
        using run st(1) Some contracts addresses plan(1) unfolding live_fetch_def Let_def by (simp split del: if_split cong: if_cong)
      show ?thesis
      proof (cases ?skip)
        case True
        then have eq: "?b = hd_number head" "a = ?b" by metis+
        have none: "\<forall>l\<in>set chain. block_of l \<noteq> ?b"
          using n(7) [OF head, of a b0 w addresses w1] contracts addresses True eq(1) st(1) by simp
        have "live_skip E ?b ?b st w1 = (flow, st', w')" using fetch [unfolded if_P [OF True]] eq(2) by simp
        then show ?thesis
          using live_skip_inv [OF n(3) b(1) safe_tip_not_top [OF n(3)] none n(1)] st(1,2,4) low eq(2) by auto
      next
        case False
        from live_query_inv [OF node plan(2) b(1) safe_tip_not_top [OF n(3)] b(2) st(1,2) low st(4) fetch [unfolded if_not_P [OF False]]]
        show ?thesis .
      qed
    qed
    show ?thesis
    proof (cases res)
      case (Inl e)
      then have "st' = st" "w' = w1" using run st(1) Some contracts by (simp_all add: live_fetch_def)
      then show ?thesis using st1 w1 by simp
    next
      case (Inr addresses)
      with goal have "live_inv f chain start (safe_tip cfg tip w1) st'" "tip w1 \<le> tip w'" by blast+
      then show ?thesis using live_inv_tip [OF _ _ n(3)] w1 by (blast intro: order_trans)
    qed
  qed
qed

lemma live_iteration_inv:
  assumes node: "quiet_node E cfg f tip chain" and inv: "live_inv f chain start (safe_tip cfg tip w) st"
    and run: "live_iteration R E cfg ctx st w = (flow, st', w')"
  shows "live_inv f chain start (safe_tip cfg tip w') st' \<and> tip w \<le> tip w'"
proof (cases "fe_stopped E w")
  case True
  then show ?thesis using run inv by (simp add: live_iteration_def)
next
  case False
  note n = quiet_nodeD [OF node]
  obtain w1 where signal: "li_reorg_signal E w = (None, w1)" using n(5) by (metis prod.collapse)
  obtain res w2 where latest: "li_latest_block E w1 = (res, w2)" by fastforce
  have w2: "tip w \<le> tip w2" using tip_growsD(1) [OF n(3) signal] tip_growsD(2) [OF n(3) latest] by simp
  note inv2 = live_inv_tip [OF inv w2 n(3)]
  have it: "live_iteration R E cfg ctx st w = (case res of Inl _ \<Rightarrow> (Again, st, w2) | Inr None \<Rightarrow> (Again, st, w2)
      | Inr (Some head) \<Rightarrow> live_detect R E cfg ctx head st w2)"
    using False signal latest by (simp add: live_iteration_def split: sum.split option.split)
  show ?thesis
  proof (cases "\<exists>head. res = Inr (Some head)")
    case True
    then obtain head where head: "res = Inr (Some head)" by blast
    let ?st = "st\<lparr>lv_cache := cache_put (hd_number head) \<lparr>bm_hash = hd_hash head, bm_parent_hash = hd_parent_hash head,
      bm_timestamp = hd_timestamp head\<rparr> (lv_cache st)\<rparr>"
    have inv3: "live_inv f chain start (safe_tip cfg tip w2) ?st" using inv2 by (auto simp: live_inv_def)
    have "live_detect R E cfg ctx head st w2 = live_head R E cfg ctx head ?st w2"
      using inv2 by (auto simp: live_detect_def live_inv_def Let_def)
    then have "live_head R E cfg ctx head ?st w2 = (flow, st', w')" using it run head by simp
    then have "(flow, st', w') = (Again, ?st, w2) \<or> live_fetch R E cfg ctx head ?st w2 = (flow, st', w')"
      by (simp add: live_head_def split: if_splits)
    then show ?thesis
    proof
      assume "live_fetch R E cfg ctx head ?st w2 = (flow, st', w')"
      from live_fetch_inv [OF node latest [unfolded head] inv3 this] w2 show ?thesis by (blast intro: order_trans)
    qed (use inv3 w2 in simp)
  next
    case False
    then have "st' = st" "w' = w2" using it run by (auto split: sum.splits option.splits)
    then show ?thesis using inv2 w2 by simp
  qed
qed

lemma live_iterations_inv:
  assumes node: "quiet_node E cfg f tip chain"
  shows "live_inv f chain start (safe_tip cfg tip w) st \<Longrightarrow> live_iterations R E cfg ctx n st w = (st', w') \<Longrightarrow>
    live_inv f chain start (safe_tip cfg tip w') st'"
proof (induction n arbitrary: st w)
  case (Suc n)
  obtain flow st1 w1 where step: "live_iteration R E cfg ctx st w = (flow, st1, w1)" by (metis prod_cases3)
  from live_iteration_inv [OF node Suc.prems(1) step] Suc.prems(2) step Suc.IH [of w1 st1] show ?case
    by (cases flow) auto
qed simp



section \<open>The whole stream\<close>

text \<open>The sequential \<open>fetch_logs_stream\<close> without a coordinator: history first, then the live stream, which takes over the
  filter of the loop and starts from the snapshot as the last block seen.\<close>

definition whole_stream ::
  "('d::linorder, 'w, 'y) reorg_env_scheme \<Rightarrow> ('w, 'z) live_env_scheme \<Rightarrow> live_config \<Rightarrow> 'w reorg_context \<Rightarrow> nat \<Rightarrow> nat \<Rightarrow>
     event_filter \<Rightarrow> 'w \<Rightarrow> (fetch_logs_result list \<times> event_filter) option" where
  "whole_stream R E cfg ctx fuel iterations f w =
     (case historic_logs_stream E (lc_original_max_limit cfg) fuel f w of
        Some (Finished st, w1) \<Rightarrow>
          (let (lv, _) = live_iterations R E cfg ctx iterations (live_start (hs_filter st) (filter_to_block f) None) w1
           in Some (hs_sent st @ lv_sent lv, lv_filter lv))
      | _ \<Rightarrow> None)"

lemma quiet_with_range: "quiet_node E cfg f tip chain \<Longrightarrow> quiet_node E cfg (with_range f a b) tip chain"
  by (simp add: quiet_node_def)


section \<open>Timestamps that cannot be attached\<close>

text \<open>C7: When the timestamps of a fetched block cannot be attached, the code says it tries again in a second. But the
  block already counts as seen: with a safe distance of zero, and for as long as it stays the newest block,
  no further iteration queries it again, and its logs stay undelivered.\<close>

theorem failed_timestamps_wait_for_a_new_block:
  assumes "lv_coordinator st = None" and "fe_timestamps E"
    and deliver: "live_deliver E a b logs st w = (Again, st1, w1)" and "fe_attach_timestamps E (fst (stamp_logs logs (lv_cache st))) w = (Inl e, w1)"
    and same_head: "\<And>v. \<exists>head v'. li_latest_block E v = (Inr (Some head), v') \<and> hd_number head = b"
    and "\<And>v. fst (li_reorg_signal E v) = None"
  shows "lv_sent (fst (live_iterations R E cfg ctx n st1 w2)) = lv_sent st"
proof -
  have st1: "lv_last_seen st1 = b" "lv_sent st1 = lv_sent st" "lv_coordinator st1 = None"
    using assms(1,2,4) deliver by (auto simp: live_deliver_def split: prod.splits)
  have "lv_last_seen s = b \<Longrightarrow> lv_coordinator s = None \<Longrightarrow> lv_sent (fst (live_iterations R E cfg ctx n s v)) = lv_sent s" for s v
  proof (induction n arbitrary: s v)
    case (Suc n)
    obtain v1 where signal: "li_reorg_signal E v = (None, v1)" using assms(6) by (metis prod.collapse)
    obtain head v2 where head: "li_latest_block E v1 = (Inr (Some head), v2)" "hd_number head = b" using same_head by blast
    show ?case
      using Suc.prems signal head Suc.IH [where v = v2]
      by (cases "fe_stopped E v") (simp_all add: live_iteration_def live_detect_def live_head_def Let_def)
  qed simp
  with st1 show ?thesis by simp
qed


section \<open>A node whose head is block 30\<close>

definition calm_live :: "unit live_env" where
  "calm_live =
     \<lparr>fe_get_logs = (\<lambda>g w. (Inr (filter (\<lambda>l. filter_from_block g \<le> block_of l \<and> block_of l \<le> filter_to_block g) small_chain), w)),
      fe_timestamps = False, fe_attach_timestamps = (\<lambda>ls. io_ret ls), fe_channel_open = (\<lambda>w. (True, w)),
      fe_stopped = (\<lambda>_. False), fe_one_in_ten = (\<lambda>w. (False, w)), fe_report = (\<lambda>_ w. w),
      fe_lowercase = (\<lambda>s. s), fe_take_chars = take, fe_captures = (\<lambda>_ _. None), fe_u64_from_str = (\<lambda>_. None),
      li_reorg_signal = (\<lambda>w. (None, w)), li_drain_signals = (\<lambda>w. w),
      li_latest_block = io_ret (Some \<lparr>hd_number = 30, hd_hash = 1, hd_parent_hash = 0, hd_timestamp = 99, hd_logs_bloom = 0\<rparr>),
      li_known_addresses = (\<lambda>_ _. io_ret None), li_contract_in_bloom = (\<lambda>_ _. True), li_topic_in_bloom = (\<lambda>_ _. True)\<rparr>"

definition calm_config :: live_config where
  "calm_config = \<lparr>lc_topic_id = 9, lc_reorg_safe_distance = 5, lc_disable_logs_bloom_checks = False,
     lc_original_max_limit = Some 6, lc_log_prefix = []\<rparr>"

definition no_database :: "unit reorg_context" where
  "no_database = \<lparr>cx_postgres = None, cx_clickhouse = None, cx_registry = None, cx_trace_registry = None\<rparr>"

lemma calm_addresses: "contract_addresses (li_known_addresses calm_live) (with_range first_blocks a b) v = (Inr None, ())"
  by (simp add: first_blocks_def new_filter_def with_range_def calm_live_def simple_contract_address_def io_ret_app)

lemma calm_quiet: "quiet_node calm_live calm_config first_blocks (\<lambda>_. 30) small_chain"
proof -
  have "\<forall>l\<in>set small_chain. \<not> lg_removed l" by (simp add: small_chain_def numbered_log_def)
  moreover have "is_relevant_block calm_live addresses t bl"
    if "contract_addresses (li_known_addresses calm_live) (with_range first_blocks a b) v = (Inr addresses, v')" for addresses t bl a b v v'
    using that by (simp add: calm_addresses) (simp add: is_relevant_block_def calm_live_def)
  moreover have "keeps_logs calm_live" "tip_grows calm_live (\<lambda>_. 30)"
    by (simp_all add: keeps_logs_def tip_grows_def calm_live_def io_ret_app)
  moreover have "fst (li_reorg_signal calm_live w) = None" "li_latest_block calm_live w = (Inr (Some head), w') \<Longrightarrow> hd_number head \<le> 30"
    "fe_get_logs calm_live (with_range first_blocks a b) w = (Inr logs, w') \<Longrightarrow>
       logs = filter (\<lambda>l. a \<le> block_of l \<and> block_of l \<le> b) small_chain" for w w' head a b logs
    by (auto simp: calm_live_def io_ret_app)
  ultimately show ?thesis using small_chain_numbered unfolding quiet_node_def by (intro conjI allI impI) blast+
qed



definition clockless :: "unit live_env" where
  "clockless = calm_live\<lparr>fe_timestamps := True, fe_attach_timestamps := (\<lambda>_ w. (Inl ''no clock'', w))\<rparr>"

theorem failed_timestamps_wait_for_a_new_block_witness:
  "lv_sent (fst (live_iterations toy_env clockless calm_config no_database 1000
     (fst (snd (live_deliver clockless 30 30 [numbered_log 30] (live_start first_blocks 29 None) ()))) ())) = []"
proof -
  have "lv_sent (fst (live_iterations toy_env clockless calm_config no_database 1000
      (fst (snd (live_deliver clockless 30 30 [numbered_log 30] (live_start first_blocks 29 None) ()))) ())) =
    lv_sent (live_start first_blocks 29 (None :: unit reorg_coordinator option))"
    by (rule failed_timestamps_wait_for_a_new_block [where E = clockless and b = 30 and e = "''no clock''"
        and a = 30 and logs = "[numbered_log 30]" and w = "()" and ?w1.0 = "()"])
      (simp_all add: live_start_def live_deliver_def clockless_def calm_live_def io_ret_app split: prod.split)
  then show ?thesis by (simp add: live_start_def)
qed

end
