(* ===== verification/Checkpoints.thy ===== *)
theory Checkpoints
  imports Reorg_Sql "HOL-Library.AList"
begin

text \<open>
  The durable cursor of an event stream (\<open>core/src/indexer/last_synced.rs\<close>, the cursor operations of
  \<open>database/postgres/client.rs\<close> and the choice of the first block in \<open>indexer/start.rs\<close>): how far the events of a
  stream have been handed over, and where indexing resumes after a restart. A cursor lives in a table of
  PostgreSQL or ClickHouse, or in a file. The model keeps these stores as data: the rows of PostgreSQL, every row
  ever inserted in ClickHouse (\<open>FINAL\<close> shows the row with the greatest version of each key), and the contents of
  the files. Each round trip may fail, as an oracle of the environment decides; a failed commit may or may not
  have taken effect.
\<close>

section \<open>The stores\<close>

type_synonym cursor_key = "string \<times> string \<times> string"

text \<open>table, network and detail key\<close>

record 'w durable =
  du_pg :: "(cursor_key \<times> u64) list"
  du_ch :: "(cursor_key \<times> u64) list"
  du_files :: "(string \<times> string) list"
  du_active :: nat
  du_world :: 'w

datatype commit_outcome = Committed | Rolled_Back string | In_Doubt string

record 'w cursor_env =
  ce_pg_call :: "'w \<Rightarrow> string option \<times> 'w"
  ce_pg_commit :: "'w \<Rightarrow> commit_outcome \<times> 'w"
  ce_ch_call :: "'w \<Rightarrow> string option \<times> 'w"
  ce_ch_insert :: "'w \<Rightarrow> commit_outcome \<times> 'w"
  ce_fs_call :: "'w \<Rightarrow> string option \<times> 'w"
  ce_publish :: "u64 \<Rightarrow> 'w \<Rightarrow> 'w"
  ce_canonicalize :: "string \<Rightarrow> string option"
  ce_lowercase :: "string \<Rightarrow> string"
  ce_keccak_hex :: "string \<Rightarrow> string"
  ce_u64_from_str :: "string \<Rightarrow> u64 option"

text \<open>How a task ends other than with \<open>Ok\<close>\<close>

datatype task_failure = Task_Error string | Task_Panic string

type_synonym ('w, 'a) durable_io = "('w durable, task_failure, 'a) io"

text \<open>A round trip whose fault, if any, leaves the stores as they are\<close>

definition store_call :: "('w \<Rightarrow> string option \<times> 'w) \<Rightarrow> ('w, unit) durable_io" where
  "store_call call = (\<lambda>s. case call (du_world s) of
     (Some e, w) \<Rightarrow> (Inl (Task_Error e), s\<lparr>du_world := w\<rparr>) | (None, w) \<Rightarrow> (Inr (), s\<lparr>du_world := w\<rparr>))"

text \<open>The round trip that makes a change durable\<close>

definition store_commit ::
  "('w \<Rightarrow> commit_outcome \<times> 'w) \<Rightarrow> ('w durable \<Rightarrow> 'w durable) \<Rightarrow> ('w, unit) durable_io" where
  "store_commit commit change = (\<lambda>s. case commit (du_world s) of
     (Committed, w) \<Rightarrow> (Inr (), (change s)\<lparr>du_world := w\<rparr>)
   | (Rolled_Back e, w) \<Rightarrow> (Inl (Task_Error e), s\<lparr>du_world := w\<rparr>)
   | (In_Doubt e, w) \<Rightarrow> (Inl (Task_Error e), (change s)\<lparr>du_world := w\<rparr>))"

definition store_modify :: "('w durable \<Rightarrow> 'w durable) \<Rightarrow> ('w, unit) durable_io" where
  "store_modify f = (\<lambda>s. (Inr (), f s))"

definition store_read :: "('w durable \<Rightarrow> 'a) \<Rightarrow> ('w, 'a) durable_io" where
  "store_read f = (\<lambda>s. (Inr (f s), s))"

section \<open>PostgreSQL\<close>

definition legacy_detail_key :: string where
  "legacy_detail_key = ''__event__''"

definition validate_exact_cursor_identity :: "string \<Rightarrow> string list \<Rightarrow> task_failure + unit" where
  "validate_exact_cursor_identity requested existing =
     (let has_legacy = legacy_detail_key \<in> set existing;
          has_exact = (\<exists>key\<in>set existing. key \<noteq> legacy_detail_key)
      in if (if requested = legacy_detail_key then has_exact else has_legacy)
         then Inl (Task_Error (''exact cursor identity conflict: requested detail_key='' @ requested))
         else Inr ())"

definition existing_keys :: "(cursor_key \<times> u64) list \<Rightarrow> string \<Rightarrow> string \<Rightarrow> string list" where
  "existing_keys rows table network = [k. ((t, n, k), _) \<leftarrow> rows, t = table \<and> n = network]"

definition pg_put :: "cursor_key \<Rightarrow> u64 \<Rightarrow> 'w durable \<Rightarrow> 'w durable" where
  "pg_put key block s = s\<lparr>du_pg := AList.update key block (du_pg s)\<rparr>"

text \<open>Seeding a missing cursor: connection, transaction, table lock, select, insert and commit\<close>

definition ensure_detail_cursor ::
  "('w, 'z) cursor_env_scheme \<Rightarrow> string \<Rightarrow> string \<Rightarrow> string \<Rightarrow> ('w, unit) durable_io" where
  "ensure_detail_cursor E table network detail_key =
     (let call = store_call (ce_pg_call E)
      in io_then call (io_then call (io_then call (io_then call
        (io_bind (store_read (\<lambda>s. existing_keys (du_pg s) table network)) (\<lambda>existing.
         io_then (io_lift (validate_exact_cursor_identity detail_key existing))
           (io_then call
             (store_commit (ce_pg_commit E)
               (\<lambda>s. if map_of (du_pg s) (table, network, detail_key) = None
                     then pg_put (table, network, detail_key) 0 s else s)))))))))"

text \<open>Advancing it: only forward, and a missing row is an error\<close>

definition advance_detail_cursor ::
  "('w, 'z) cursor_env_scheme \<Rightarrow> string \<Rightarrow> string \<Rightarrow> string \<Rightarrow> u64 \<Rightarrow> ('w, unit) durable_io" where
  "advance_detail_cursor E table network detail_key new_block =
     (let call = store_call (ce_pg_call E); key = (table, network, detail_key)
      in io_then call (io_then call (io_then call
        (io_bind (store_read (\<lambda>s. map_of (du_pg s) key)) (\<lambda>row.
         case row of
           Some last_synced \<Rightarrow>
             (if last_synced < new_block then store_commit (ce_pg_commit E) (pg_put key new_block)
              else io_then call (store_commit (ce_pg_commit E) id))
         | None \<Rightarrow> io_then call (io_fail (Task_Error ''missing exact cursor seed'')))))))"

section \<open>ClickHouse\<close>

text \<open>\<open>ReplacingMergeTree(last_synced_block)\<close> ordered by network and detail key, read with \<open>FINAL\<close>\<close>

definition ch_final :: "(cursor_key \<times> u64) list \<Rightarrow> cursor_key \<Rightarrow> u64 option" where
  "ch_final rows key =
     (case map snd (filter (\<lambda>r. fst r = key) rows) of [] \<Rightarrow> None | b # bs \<Rightarrow> Some (fold max bs b))"

definition ch_insert :: "('w, 'z) cursor_env_scheme \<Rightarrow> cursor_key \<Rightarrow> u64 \<Rightarrow> ('w, unit) durable_io" where
  "ch_insert E key block = store_commit (ce_ch_insert E) (\<lambda>s. s\<lparr>du_ch := du_ch s @ [(key, block)]\<rparr>)"

section \<open>Files\<close>

definition path_join :: "string \<Rightarrow> string \<Rightarrow> string" where
  "path_join base p = (if starts_with ''/'' p then p else base @ ''/'' @ p)"

definition get_full_path :: "('w, 'z) cursor_env_scheme \<Rightarrow> string \<Rightarrow> string \<Rightarrow> string option" where
  "get_full_path E project_path file_path =
     (case ce_canonicalize E file_path of
        Some p \<Rightarrow> Some p
      | None \<Rightarrow> ce_canonicalize E (path_join project_path file_path))"

record cursor_config =
  cc_pg_table :: string
  cc_ch_table :: string
  cc_contract_name :: string
  cc_network :: string
  cc_event_name :: string
  cc_detail_key :: string
  cc_project_path :: string
  cc_postgres :: bool
  cc_clickhouse :: bool
  cc_csv_path :: "string option"
  cc_contract_csv_enabled :: bool
  cc_stream_path :: "string option"

definition build_last_synced_block_number_file ::
  "('w, 'z) cursor_env_scheme \<Rightarrow> string \<Rightarrow> ('y) cursor_config_scheme \<Rightarrow> string" where
  "build_last_synced_block_number_file E full_path c =
     (let suffix = (if cc_detail_key c = legacy_detail_key then []
                    else ''-detail-'' @ ce_keccak_hex E (cc_detail_key c));
          name = ce_lowercase E (cc_contract_name c) @ ''-'' @ ce_lowercase E (cc_network c) @ ''-'' @
                 ce_lowercase E (cc_event_name c) @ suffix @ ''.txt''
      in path_join (path_join (path_join full_path (cc_contract_name c)) ''last-synced-blocks'') name)"

definition is_whitespace :: "char \<Rightarrow> bool" where
  "is_whitespace c = (char_in 9 13 c \<or> char_in 32 32 c)"

definition trim :: "string \<Rightarrow> string" where
  "trim s = rev (dropWhile is_whitespace (rev (dropWhile is_whitespace s)))"

definition file_cursor ::
  "('w, 'z) cursor_env_scheme \<Rightarrow> string \<Rightarrow> ('w, u64 option) durable_io" where
  "file_cursor E path =
     io_bind (store_read (\<lambda>s. map_of (du_files s) path)) (\<lambda>content.
       case content of
         None \<Rightarrow> io_ret None
       | Some text \<Rightarrow>
           io_then (store_call (ce_fs_call E)) (io_then (store_call (ce_fs_call E))
             (if text = [] then io_ret None
              else case ce_u64_from_str E (trim (takeWhile (\<lambda>c. c \<noteq> CHR 0x0A) text)) of
                     Some value \<Rightarrow> io_ret (Some value)
                   | None \<Rightarrow> io_fail (Task_Error ''Failed to parse block number''))))"

definition get_last_synced_block_number_file ::
  "('w, 'z) cursor_env_scheme \<Rightarrow> string \<Rightarrow> 'y cursor_config_scheme \<Rightarrow> ('w, u64 option) durable_io" where
  "get_last_synced_block_number_file E full_path c =
     file_cursor E (build_last_synced_block_number_file E full_path c)"

definition put_file :: "string \<Rightarrow> string \<Rightarrow> 'w durable \<Rightarrow> 'w durable" where
  "put_file path text s = s\<lparr>du_files := AList.update path text (du_files s)\<rparr>"

definition rename_file :: "string \<Rightarrow> string \<Rightarrow> 'w durable \<Rightarrow> 'w durable" where
  "rename_file from_path to_path s =
     (case map_of (du_files s) from_path of
        Some text \<Rightarrow> s\<lparr>du_files := AList.update to_path text (AList.delete from_path (du_files s))\<rparr>
      | None \<Rightarrow> s)"

text \<open>
  The new value is written to a temporary file, flushed, and renamed over the old one. A fault while writing
  leaves the temporary file empty or complete.
\<close>

definition update_last_synced_block_number_for_file ::
  "('w, 'z) cursor_env_scheme \<Rightarrow> 'y cursor_config_scheme \<Rightarrow> string \<Rightarrow> u64 \<Rightarrow> ('w, unit) durable_io" where
  "update_last_synced_block_number_for_file E c full_path new_block =
     (let path = build_last_synced_block_number_file E full_path c; temp = path @ ''.tmp'';
          call = store_call (ce_fs_call E)
      in io_bind (get_last_synced_block_number_file E full_path c) (\<lambda>last_block.
        if (case last_block of Some last_value \<Rightarrow> last_value < new_block | None \<Rightarrow> True)
        then io_then call (io_then call (io_then (store_modify (put_file temp []))
               (io_then call (io_then (store_modify (put_file temp (show_word new_block)))
                 (io_then call (io_then call (store_modify (rename_file temp path))))))))
        else io_ret ()))"

section \<open>Reading the cursor back\<close>

definition nonzero :: "u64 option \<Rightarrow> u64 option" where
  "nonzero v = (if v = Some 0 then None else v)"

definition get_last_synced_block_number ::
  "('w, 'z) cursor_env_scheme \<Rightarrow> 'y cursor_config_scheme \<Rightarrow> ('w, u64 option) durable_io" where
  "get_last_synced_block_number E c =
     (let pg_key = (cc_pg_table c, cc_network c, cc_detail_key c);
          ch_key = (cc_ch_table c, cc_network c, cc_detail_key c)
      in if cc_postgres c then
           io_then (ensure_detail_cursor E (cc_pg_table c) (cc_network c) (cc_detail_key c))
             (io_then (store_call (ce_pg_call E))
               (io_bind (store_read (\<lambda>s. map_of (du_pg s) pg_key)) (\<lambda>row.
                 case row of Some b \<Rightarrow> io_ret (nonzero (Some b))
                 | None \<Rightarrow> io_fail (Task_Error ''seeded exact cursor disappeared''))))
         else if cc_clickhouse c then
           io_then (store_call (ce_ch_call E))
             (io_bind (store_read (\<lambda>s. existing_keys (du_ch s) (cc_ch_table c) (cc_network c))) (\<lambda>existing.
               io_then (io_lift (validate_exact_cursor_identity (cc_detail_key c) existing))
                 (io_then (if cc_detail_key c \<in> set existing then io_ret () else ch_insert E ch_key 0)
                   (io_then (store_call (ce_ch_call E))
                     (io_bind (store_read (\<lambda>s. ch_final (du_ch s) ch_key)) (\<lambda>row.
                       case row of Some b \<Rightarrow> io_ret (nonzero (Some b))
                       | None \<Rightarrow> io_fail (Task_Error ''no row'')))))))
         else case (if cc_contract_csv_enabled c then cc_csv_path c else None) of
             Some csv_path \<Rightarrow>
               (case get_full_path E (cc_project_path c) csv_path of
                  Some full_path \<Rightarrow>
                    io_bind (get_last_synced_block_number_file E full_path c) (\<lambda>r. io_ret (nonzero r))
                | None \<Rightarrow> io_fail (Task_Panic ''failed to get full path''))
           | None \<Rightarrow>
               (case cc_stream_path c of
                  Some stream_path \<Rightarrow>
                    io_bind (get_last_synced_block_number_file E (path_join (cc_project_path c) stream_path) c)
                      (\<lambda>r. io_ret (nonzero r))
                | None \<Rightarrow> io_ret None))"

section \<open>Moving the cursor\<close>

definition persist_cursor ::
  "('w, 'z) cursor_env_scheme \<Rightarrow> 'y cursor_config_scheme \<Rightarrow> u64 \<Rightarrow> ('w, unit) durable_io" where
  "persist_cursor E c new_block =
     (if cc_postgres c then
        advance_detail_cursor E (cc_pg_table c) (cc_network c) (cc_detail_key c) new_block
      else if cc_clickhouse c then ch_insert E (cc_ch_table c, cc_network c, cc_detail_key c) new_block
      else case cc_csv_path c of
          Some csv_path \<Rightarrow>
            (case get_full_path E (cc_project_path c) csv_path of
               Some full_path \<Rightarrow> update_last_synced_block_number_for_file E c full_path new_block
             | None \<Rightarrow> io_fail (Task_Panic ''failed to get full path''))
        | None \<Rightarrow>
            (case cc_stream_path c of
               Some stream_path \<Rightarrow>
                 update_last_synced_block_number_for_file E c (path_join (cc_project_path c) stream_path) new_block
             | None \<Rightarrow> io_ret ()))"

definition indexing_event_processing :: "'w durable \<Rightarrow> 'w durable" where
  "indexing_event_processing s = s\<lparr>du_active := du_active s + 1\<rparr>"

definition indexing_event_processed :: "'w durable \<Rightarrow> 'w durable" where
  "indexing_event_processed s = s\<lparr>du_active := du_active s - 1\<rparr>"

text \<open>
  \<open>update_progress_and_last_synced_task\<close>: after the cursor is durable, the progress in memory and the telemetry
  are brought up to date, whose faults are only logged. \<open>on_complete\<close> runs on every path but a panic.
\<close>

definition update_progress_and_last_synced_task ::
  "('w, 'z) cursor_env_scheme \<Rightarrow> 'y cursor_config_scheme \<Rightarrow> u64 \<Rightarrow> ('w durable \<Rightarrow> 'w durable) \<Rightarrow> ('w, unit) durable_io" where
  "update_progress_and_last_synced_task E c new_block on_complete = (\<lambda>s.
     case persist_cursor E c new_block s of
       (Inl (Task_Error e), s') \<Rightarrow> (Inl (Task_Error e), on_complete s')
     | (Inl (Task_Panic e), s') \<Rightarrow> (Inl (Task_Panic e), s')
     | (Inr _, s') \<Rightarrow> (Inr (), on_complete (s'\<lparr>du_world := ce_publish E new_block (du_world s')\<rparr>)))"

section \<open>The first and the last block of a stream\<close>

datatype start_indexing_error =
  StartBlockIsHigherThanLatestBlock u64 u64
| EndBlockIsHigherThanLatestBlock u64 u64
| ExactCursor task_failure

definition calculate_safe_block_number :: "reorg_safe_distance option \<Rightarrow> u64 \<Rightarrow> u64 \<Rightarrow> u64 \<Rightarrow> u64 \<times> u64" where
  "calculate_safe_block_number config chain_id latest_block end_block =
     (case Option.bind config (\<lambda>c. rsd_resolve c chain_id) of
        Some distance \<Rightarrow> (min end_block (saturating_sub latest_block distance), distance)
      | None \<Rightarrow> (end_block, 0))"

definition get_start_end_block ::
  "('w, 'z) cursor_env_scheme \<Rightarrow> u64 \<Rightarrow> u64 \<Rightarrow> u64 option \<Rightarrow> u64 option \<Rightarrow> 'y cursor_config_scheme \<Rightarrow> reorg_safe_distance option \<Rightarrow>
     ('w durable, start_indexing_error, u64 \<times> u64 \<times> u64) io" where
  "get_start_end_block E chain_id latest_block manifest_start manifest_end c safe_distance =
     io_then (case manifest_start of
                Some b \<Rightarrow> if latest_block < b then io_fail (StartBlockIsHigherThanLatestBlock b latest_block) else io_ret ()
              | None \<Rightarrow> io_ret ())
       (io_then (case manifest_end of
                   Some b \<Rightarrow> if latest_block < b then io_fail (EndBlockIsHigherThanLatestBlock b latest_block) else io_ret ()
                 | None \<Rightarrow> io_ret ())
         (io_bind (io_map_err ExactCursor (get_last_synced_block_number E c)) (\<lambda>last_synced.
           let start_block =
                 (case (manifest_start, last_synced) of
                    (Some _, Some value) \<Rightarrow> value + 1
                  | (Some b, None) \<Rightarrow> b
                  | (None, _) \<Rightarrow> latest_block);
               end_block = min (case manifest_end of Some b \<Rightarrow> b | None \<Rightarrow> latest_block) latest_block;
               (safe_end, distance) = calculate_safe_block_number safe_distance chain_id latest_block end_block
           in io_ret (start_block, safe_end, distance))))"

end
