(* ===== verification/Event_Processing.thy ===== *)
theory Event_Processing
  imports Checkpoints Log_Fetching "HOL-Library.Monad_Syntax"
begin

text \<open>
  What happens to the batches of a log stream (\<open>core/src/indexer/process.rs\<close>, the retry loop of
  \<open>event/callback_registry.rs\<close>): batches that are ready are coalesced, each batch becomes a task that runs the
  event callback and then moves the durable cursor, and the ends of the tasks are joined. A single permit makes the
  tasks run one after the other, so a task is run when the next one needs the permit or when it is joined. What
  the scheduler decides is an argument: whether a task has finished and been seen to have by the time the handles
  are polled. A callback that fails is retried for as long as the process runs, so these functions need not
  return: the result is \<open>None\<close> then.
\<close>

section \<open>Event results\<close>

record event_result =
  er_log :: rpc_log
  er_from_block :: u64
  er_to_block :: u64
  er_detail_key :: string

text \<open>Constructing the transaction information panics when a field of the log is missing.\<close>

definition complete_log :: "rpc_log \<Rightarrow> bool" where
  "complete_log l =
     (lg_block_hash l \<noteq> None \<and> lg_block_number l \<noteq> None \<and> lg_transaction_hash l \<noteq> None \<and>
      lg_transaction_index l \<noteq> None \<and> lg_log_index l \<noteq> None)"

definition event_results :: "string \<Rightarrow> fetch_logs_result \<Rightarrow> event_result list option" where
  "event_results detail_key r =
     (if list_all complete_log (fr_logs r)
      then Some (map (\<lambda>l. \<lparr>er_log = l, er_from_block = fr_from_block r, er_to_block = fr_to_block r,
                           er_detail_key = detail_key\<rparr>) (fr_logs r))
      else None)"

section \<open>Callbacks\<close>

datatype callback_result = Callback_Ok | Callback_Error string | Callback_Panic string

record 'w process_env = "'w cursor_env" +
  pe_callback :: "event_result list \<Rightarrow> 'w \<Rightarrow> callback_result \<times> 'w"
  pe_registered :: bool
  pe_store_children :: "(event_result list \<Rightarrow> 'w \<Rightarrow> string option \<times> 'w) option"
  pe_running :: "'w \<Rightarrow> bool"
  pe_cancelled :: "'w \<Rightarrow> bool"
  pe_sleep :: "nat \<Rightarrow> 'w \<Rightarrow> 'w"

definition shutdown_text :: string where
  "shutdown_text = ''Detected shutdown, stopping event trigger''"

text \<open>The delays are in milliseconds.\<close>

partial_function (option) trigger_until_ok ::
  "('w, 'z) process_env_scheme \<Rightarrow> event_result list \<Rightarrow> nat \<Rightarrow> 'w \<Rightarrow> ((task_failure + unit) \<times> 'w) option" where
  "trigger_until_ok E data delay w =
     (if \<not> pe_running E w then Some (Inl (Task_Error shutdown_text), w)
      else case pe_callback E data w of
          (Callback_Ok, w1) \<Rightarrow> Some (Inr (), w1)
        | (Callback_Panic e, w1) \<Rightarrow> Some (Inl (Task_Panic e), w1)
        | (Callback_Error e, w1) \<Rightarrow>
            (if \<not> pe_running E w1 then Some (Inl (Task_Error e), w1)
             else let d = min (delay * 2) 15000 in trigger_until_ok E data d (pe_sleep E d w1)))"

definition registry_trigger_event ::
  "('w, 'z) process_env_scheme \<Rightarrow> event_result list \<Rightarrow> 'w \<Rightarrow> ((task_failure + unit) \<times> 'w) option" where
  "registry_trigger_event E data w =
     (if pe_registered E then trigger_until_ok E data 100 w
      else Some (Inl (Task_Error ''EventCallbackRegistry: No event found''), w))"

text \<open>The event that announces the children of a factory also stores their addresses.\<close>

definition config_trigger_event ::
  "('w, 'z) process_env_scheme \<Rightarrow> event_result list \<Rightarrow> 'w \<Rightarrow> ((task_failure + unit) \<times> 'w) option" where
  "config_trigger_event E data w = do {
     (r, w1) \<leftarrow> registry_trigger_event E data w;
     Some (case (r, pe_store_children E) of
             (Inr _, Some store) \<Rightarrow>
               (case store data w1 of (Some e, w2) \<Rightarrow> (Inl (Task_Error e), w2) | (None, w2) \<Rightarrow> (Inr (), w2))
           | _ \<Rightarrow> (r, w1))
   }"

section \<open>One task\<close>

type_synonym 'w task_end = "(task_failure + unit) \<times> 'w durable"

definition trigger_event ::
  "('w, 'z) process_env_scheme \<Rightarrow> 'y cursor_config_scheme \<Rightarrow> event_result list \<Rightarrow> u64 \<Rightarrow> 'w durable \<Rightarrow> 'w task_end option" where
  "trigger_event E c data new_block s0 =
     (let s = indexing_event_processing s0;
          advance = update_progress_and_last_synced_task E c new_block indexing_event_processed
      in if data = [] then
           (if \<not> pe_running E (du_world s) \<or> pe_cancelled E (du_world s)
            then Some (Inr (), indexing_event_processed s)
            else Some (advance s))
         else do {
           (r, w1) \<leftarrow> config_trigger_event E data (du_world s);
           let s1 = s\<lparr>du_world := w1\<rparr>;
           Some (case r of
                   Inl (Task_Error e) \<Rightarrow> (Inl (Task_Error e), indexing_event_processed s1)
                 | Inl (Task_Panic e) \<Rightarrow> (Inl (Task_Panic e), s1)
                 | Inr _ \<Rightarrow> advance s1)
         })"

text \<open>A batch that only announces a reorg is not processed.\<close>

datatype task = Nothing_To_Do | Run_Batch "event_result list" u64

definition handle_logs_result :: "'y cursor_config_scheme \<Rightarrow> fetch_logs_result \<Rightarrow> task option" where
  "handle_logs_result c r =
     (if fr_reorg r \<noteq> None then Some Nothing_To_Do
      else map_option (\<lambda>data. Run_Batch data (fr_to_block r)) (event_results (cc_detail_key c) r))"

fun run_task ::
  "('w, 'z) process_env_scheme \<Rightarrow> 'y cursor_config_scheme \<Rightarrow> task \<Rightarrow> 'w durable \<Rightarrow> 'w task_end option" where
  "run_task E c Nothing_To_Do s = Some (Inr (), s)"
| "run_task E c (Run_Batch data new_block) s = trigger_event E c data new_block s"

section \<open>Dispatching batches\<close>

text \<open>The tasks in flight: the ends not joined yet, and the task that holds the permit\<close>

record in_flight =
  if_ended :: "(task_failure + unit) list"
  if_holding :: "task option"

definition no_tasks :: in_flight where
  "no_tasks = \<lparr>if_ended = [], if_holding = None\<rparr>"

definition finish_holding ::
  "('w, 'z) process_env_scheme \<Rightarrow> 'y cursor_config_scheme \<Rightarrow> in_flight \<times> 'w durable \<Rightarrow> (in_flight \<times> 'w durable) option" where
  "finish_holding E c = (\<lambda>(f, s).
     case if_holding f of
       None \<Rightarrow> Some (f, s)
     | Some t \<Rightarrow> do {
         (r, s1) \<leftarrow> run_task E c t s;
         Some (\<lparr>if_ended = if_ended f @ [r], if_holding = None\<rparr>, s1)
       })"

fun first_failure :: "(task_failure + unit) list \<Rightarrow> task_failure option" where
  "first_failure [] = None"
| "first_failure (Inl e # _) = Some e"
| "first_failure (Inr _ # rs) = first_failure rs"

text \<open>
  What polling the handles finds after a dispatch: whether the new task has already run, and how many of the ends
  are visible
\<close>

record polling =
  po_ran :: bool
  po_seen :: nat

definition dispatch_batch ::
  "('w, 'z) process_env_scheme \<Rightarrow> 'y cursor_config_scheme \<Rightarrow> bool \<Rightarrow> polling \<Rightarrow> fetch_logs_result \<Rightarrow>
     in_flight \<times> 'w durable \<Rightarrow> ((task_failure + unit) \<times> in_flight \<times> 'w durable) option" where
  "dispatch_batch E c block_until_indexed polled r = (\<lambda>(f, s).
     case handle_logs_result c r of
       None \<Rightarrow> Some (Inl (Task_Panic ''log should contain its position''), f, s)
     | Some t \<Rightarrow>
         if block_until_indexed then do {
           (e, s1) \<leftarrow> run_task E c t s;
           Some (e, f, s1)
         }
         else do {
           (f1, s1) \<leftarrow> (if t = Nothing_To_Do then Some (f, s) else finish_holding E c (f, s));
           let f2 = (if t = Nothing_To_Do then f1\<lparr>if_ended := if_ended f1 @ [Inr ()]\<rparr> else f1\<lparr>if_holding := Some t\<rparr>);
           (f3, s3) \<leftarrow> (if po_ran polled then finish_holding E c (f2, s1) else Some (f2, s1));
           let seen = take (po_seen polled) (if_ended f3);
           Some (case first_failure seen of
                   Some e \<Rightarrow> (Inl e, f3\<lparr>if_ended := drop (po_seen polled) (if_ended f3)\<rparr>, s3)
                 | None \<Rightarrow> (Inr (), f3\<lparr>if_ended := drop (po_seen polled) (if_ended f3)\<rparr>, s3))
         })"

section \<open>Coalescing\<close>

text \<open>What the stream yields, and whether it is there when the coalescing loop looks for it\<close>

record stream_item =
  si_result :: "string + fetch_logs_result"
  si_ready :: bool

definition max_coalesce_logs :: nat where
  "max_coalesce_logs = 5000"

datatype coalesce_stop = Nothing_Ready | Reorg_Follows fetch_logs_result | Error_Follows string

fun coalesce :: "fetch_logs_result \<Rightarrow> stream_item list \<Rightarrow> fetch_logs_result \<times> coalesce_stop \<times> stream_item list" where
  "coalesce r [] = (r, Nothing_Ready, [])"
| "coalesce r (i # is) =
     (if \<not> length (fr_logs r) < max_coalesce_logs \<or> \<not> si_ready i then (r, Nothing_Ready, i # is)
      else case si_result i of
          Inl e \<Rightarrow> (r, Error_Follows e, is)
        | Inr x \<Rightarrow>
            if fr_reorg x \<noteq> None then (r, Reorg_Follows x, is)
            else coalesce (r\<lparr>fr_logs := fr_logs r @ fr_logs x,
                             fr_from_block := min (fr_from_block r) (fr_from_block x),
                             fr_to_block := max (fr_to_block r) (fr_to_block x)\<rparr>) is)"

lemma length_coalesce: "length (snd (snd (coalesce r is))) \<le> length is"
  by (induction r "is" rule: coalesce.induct) (auto simp: Let_def split: sum.splits)

lemma length_coalesce_eq: "(b, stop, rest) = coalesce r is \<Longrightarrow> length rest < Suc (length is)"
  using length_coalesce [of r "is"] by (metis le_imp_less_Suc snd_conv)

section \<open>The loop over the stream\<close>

definition ensure_logs_stream_end_is_expected :: "bool \<Rightarrow> bool \<Rightarrow> bool \<Rightarrow> bool \<Rightarrow> task_failure + unit" where
  "ensure_logs_stream_end_is_expected live_indexing force_no_live_indexing cancelled running =
     (if live_indexing \<and> \<not> force_no_live_indexing \<and> \<not> cancelled \<and> running
      then Inl (Task_Error ''live logs stream ended unexpectedly'') else Inr ())"

record process_config = cursor_config +
  pc_live_indexing :: bool
  pc_force_no_live_indexing :: bool
  pc_block_until_indexed :: bool

definition finish_stream ::
  "('w, 'z) process_env_scheme \<Rightarrow> 'y process_config_scheme \<Rightarrow> in_flight \<times> 'w durable \<Rightarrow>
     ((task_failure + unit) \<times> in_flight \<times> 'w durable) option" where
  "finish_stream E c st = do {
     (f, s) \<leftarrow> finish_holding E c st;
     Some (case first_failure (if_ended f) of
             Some e \<Rightarrow> (Inl e, no_tasks, s)
           | None \<Rightarrow>
               (ensure_logs_stream_end_is_expected (pc_live_indexing c) (pc_force_no_live_indexing c)
                  (pe_cancelled E (du_world s)) (pe_running E (du_world s)), no_tasks, s))
   }"

text \<open>
  An error that ends the coalescing loop is reported when the next result has arrived, which is then dropped.
  The tasks that are still in flight when the function returns go on running on their own.
\<close>

function process_stream ::
  "('w, 'z) process_env_scheme \<Rightarrow> 'y process_config_scheme \<Rightarrow> (nat \<Rightarrow> polling) \<Rightarrow> nat \<Rightarrow> string option \<Rightarrow>
     stream_item list \<Rightarrow> in_flight \<times> 'w durable \<Rightarrow> ((task_failure + unit) \<times> in_flight \<times> 'w durable) option" where
  "process_stream E c polls k (Some e) is st = Some (Inl (Task_Error e), st)"
| "process_stream E c polls k None [] st = finish_stream E c st"
| "process_stream E c polls k None (i # is) st =
     (case si_result i of
        Inl e \<Rightarrow> Some (Inl (Task_Error e), st)
      | Inr r \<Rightarrow>
          let (batch, stop, rest) = (if fr_reorg r \<noteq> None then (r, Nothing_Ready, is) else coalesce r is)
          in do {
            (e, st1) \<leftarrow> dispatch_batch E c (pc_block_until_indexed c) (polls k) batch st;
            (case (e, stop) of
               (Inl e, _) \<Rightarrow> Some (Inl e, st1)
             | (Inr _, Nothing_Ready) \<Rightarrow> process_stream E c polls (k + 1) None rest st1
             | (Inr _, Error_Follows e) \<Rightarrow> process_stream E c polls (k + 1) (Some e) rest st1
             | (Inr _, Reorg_Follows x) \<Rightarrow> do {
                 (e, st2) \<leftarrow> dispatch_batch E c (pc_block_until_indexed c) (polls (k + 1)) x st1;
                 (case e of
                    Inl e \<Rightarrow> Some (Inl e, st2)
                  | Inr _ \<Rightarrow> process_stream E c polls (k + 2) None rest st2)
               })
          })"
  by pat_completeness auto
termination
  by (relation "measure (\<lambda>(E, c, polls, k, e, is, st). length is)") (auto simp: length_coalesce_eq split: if_splits)

definition process_event_logs ::
  "('w, 'z) process_env_scheme \<Rightarrow> 'y process_config_scheme \<Rightarrow> (nat \<Rightarrow> polling) \<Rightarrow> stream_item list \<Rightarrow> 'w durable \<Rightarrow>
     ((task_failure + unit) \<times> in_flight \<times> 'w durable) option" where
  "process_event_logs E c polls items s = process_stream E c polls 0 None items (no_tasks, s)"

end
