(* ===== verification/Checkpoints_Correct.thy ===== *)
theory Checkpoints_Correct
  imports Checkpoints
begin

text \<open>
  The cursor only moves forward, a successful update is what the next start resumes behind, and two cases in
  which it does not do its work: a CSV section that is present but switched off, and two streams that share one
  cursor. Failing calls are covered by triples over the effect type: a precondition, a postcondition for
  \<open>Ok\<close> and one for every other end.
\<close>

section \<open>Triples\<close>

definition io_triple :: "('s \<Rightarrow> bool) \<Rightarrow> ('s, 'e, 'a) io \<Rightarrow> ('a \<Rightarrow> 's \<Rightarrow> bool) \<Rightarrow> ('s \<Rightarrow> bool) \<Rightarrow> bool" where
  "io_triple P m Q R = (\<forall>s r s'. P s \<longrightarrow> m s = (r, s') \<longrightarrow> (case r of Inr x \<Rightarrow> Q x s' | Inl _ \<Rightarrow> R s'))"

named_theorems triples "proof rules of triples"

lemma io_tripleD: "io_triple P m Q R \<Longrightarrow> P s \<Longrightarrow> m s = (Inr x, s') \<Longrightarrow> Q x s'"
  and io_tripleD_err: "io_triple P m Q R \<Longrightarrow> P s \<Longrightarrow> m s = (Inl e, s') \<Longrightarrow> R s'"
  by (fastforce simp: io_triple_def split: sum.splits)+

lemma io_triple_ret [triples]: "(\<And>s. P s \<Longrightarrow> Q x s) \<Longrightarrow> io_triple P (io_ret x) Q R"
  and io_triple_fail [triples]: "(\<And>s. P s \<Longrightarrow> R s) \<Longrightarrow> io_triple P (io_fail e) Q R"
  and io_triple_lift [triples]: "(\<And>x s. P s \<Longrightarrow> r = Inr x \<Longrightarrow> Q x s) \<Longrightarrow> (\<And>s. P s \<Longrightarrow> R s) \<Longrightarrow> io_triple P (io_lift r) Q R"
  by (auto simp: io_triple_def split: sum.splits)

lemma io_triple_bind: "io_triple P m M R \<Longrightarrow> (\<And>x. io_triple (M x) (f x) Q R) \<Longrightarrow> io_triple P (io_bind m f) Q R"
  unfolding io_triple_def io_bind_def by (fastforce split: prod.splits sum.splits)

lemma io_triple_then: "io_triple P m (\<lambda>_. M) R \<Longrightarrow> io_triple M n Q R \<Longrightarrow> io_triple P (io_then m n) Q R"
  unfolding io_then_def by (rule io_triple_bind)

lemma io_triple_weaken:
  "io_triple P' m Q' R' \<Longrightarrow> (\<And>s. P s \<Longrightarrow> P' s) \<Longrightarrow> (\<And>x s. Q' x s \<Longrightarrow> Q x s) \<Longrightarrow> (\<And>s. R' s \<Longrightarrow> R s) \<Longrightarrow>
    io_triple P m Q R"
  unfolding io_triple_def by (fastforce split: sum.splits)

lemma io_triple_pre: "(\<And>s. P s \<Longrightarrow> io_triple P m Q R) \<Longrightarrow> io_triple P m Q R"
  by (auto simp: io_triple_def)

text \<open>An assertion about the stores that does not look at the world\<close>

definition worldless :: "('w durable \<Rightarrow> bool) \<Rightarrow> bool" where
  "worldless P = (\<forall>s w. P (s\<lparr>du_world := w\<rparr>) = P s)"

lemma io_triple_call [triples]: "worldless P \<Longrightarrow> (\<And>s. P s \<Longrightarrow> R s) \<Longrightarrow> io_triple P (store_call f) (\<lambda>_. P) R"
  unfolding io_triple_def store_call_def worldless_def by (auto split: prod.splits option.splits)

lemma io_triple_commit:
  "worldless Q \<Longrightarrow> worldless R \<Longrightarrow> (\<And>s. P s \<Longrightarrow> Q (change s)) \<Longrightarrow> (\<And>s. P s \<Longrightarrow> R s) \<Longrightarrow> (\<And>s. P s \<Longrightarrow> R (change s)) \<Longrightarrow>
    io_triple P (store_commit f change) (\<lambda>_. Q) R"
  unfolding io_triple_def store_commit_def worldless_def by (auto split: prod.splits commit_outcome.splits)

text \<open>Rules that walk along a sequence of calls, keeping the precondition\<close>

lemma io_triple_call_then [triples]:
  "worldless P \<Longrightarrow> (\<And>s. P s \<Longrightarrow> R s) \<Longrightarrow> io_triple P n Q R \<Longrightarrow> io_triple P (io_then (store_call f) n) Q R"
  by (rule io_triple_then [OF io_triple_call])

lemma io_triple_read_bind [triples]:
  "(\<And>x. io_triple (\<lambda>s. P s \<and> x = f s) (g x) Q R) \<Longrightarrow> io_triple P (io_bind (store_read f) g) Q R"
  by (rule io_triple_bind [where M = "\<lambda>x s. P s \<and> x = f s"]) (simp_all add: io_triple_def store_read_def)

lemma io_triple_modify_then [triples]:
  "(\<And>s. P s \<Longrightarrow> M (f s)) \<Longrightarrow> io_triple M n Q R \<Longrightarrow> io_triple P (io_then (store_modify f) n) Q R"
  by (rule io_triple_then [where M = M]) (auto simp: io_triple_def store_modify_def)

lemma io_triple_lift_then [triples]:
  "(\<And>s. P s \<Longrightarrow> R s) \<Longrightarrow> io_triple P n Q R \<Longrightarrow> io_triple P (io_then (io_lift r) n) Q R"
  by (rule io_triple_then [where M = P]) (auto intro: triples)

lemma io_triple_cases: "(\<And>a. x = Some a \<Longrightarrow> io_triple P (g a) Q R) \<Longrightarrow> (x = None \<Longrightarrow> io_triple P m Q R) \<Longrightarrow>
    io_triple P (case x of Some a \<Rightarrow> g a | None \<Rightarrow> m) Q R"
  and io_triple_if: "(b \<Longrightarrow> io_triple P m Q R) \<Longrightarrow> (\<not> b \<Longrightarrow> io_triple P n Q R) \<Longrightarrow> io_triple P (if b then m else n) Q R"
  by (auto split: option.splits)

section \<open>Where a cursor stands\<close>

definition file_value :: "('w, 'z) cursor_env_scheme \<Rightarrow> string \<Rightarrow> (string \<times> string) list \<Rightarrow> u64 option" where
  "file_value E path files =
     (case map_of files path of
        Some text \<Rightarrow> if text = [] then None else ce_u64_from_str E (trim (takeWhile (\<lambda>c. c \<noteq> CHR 0x0A) text))
      | None \<Rightarrow> None)"

text \<open>The file that is written, and the one that is read\<close>

definition written_file :: "('w, 'z) cursor_env_scheme \<Rightarrow> 'y cursor_config_scheme \<Rightarrow> string option" where
  "written_file E c =
     map_option (\<lambda>p. build_last_synced_block_number_file E p c)
       (case cc_csv_path c of
          Some csv_path \<Rightarrow> get_full_path E (cc_project_path c) csv_path
        | None \<Rightarrow> map_option (path_join (cc_project_path c)) (cc_stream_path c))"

definition cursor_value :: "('w, 'z) cursor_env_scheme \<Rightarrow> 'y cursor_config_scheme \<Rightarrow> 'w durable \<Rightarrow> u64 option" where
  "cursor_value E c s =
     (if cc_postgres c then map_of (du_pg s) (cc_pg_table c, cc_network c, cc_detail_key c)
      else if cc_clickhouse c then ch_final (du_ch s) (cc_ch_table c, cc_network c, cc_detail_key c)
      else Option.bind (written_file E c) (\<lambda>path. file_value E path (du_files s)))"

definition position :: "('w, 'z) cursor_env_scheme \<Rightarrow> 'y cursor_config_scheme \<Rightarrow> 'w durable \<Rightarrow> u64" where
  "position E c s = (case cursor_value E c s of Some b \<Rightarrow> b | None \<Rightarrow> 0)"

definition has_store :: "'y cursor_config_scheme \<Rightarrow> bool" where
  "has_store c = (cc_postgres c \<or> cc_clickhouse c \<or> cc_csv_path c \<noteq> None \<or> cc_stream_path c \<noteq> None)"

text \<open>\<open>U64::from_str\<close> reads back what \<open>to_string\<close> wrote.\<close>

definition reads_decimals :: "('w, 'z) cursor_env_scheme \<Rightarrow> bool" where
  "reads_decimals E = (\<forall>n :: u64. ce_u64_from_str E (show_word n) = Some n)"

lemma position_world [simp]: "position E c (s\<lparr>du_world := w\<rparr>) = position E c s"
  by (simp add: position_def cursor_value_def)

lemma show_word_no_space: "c \<in> set (show_word (n :: u64)) \<Longrightarrow> \<not> is_whitespace c \<and> c \<noteq> CHR 0x0A"
  using show_nat_digits [of c "unat n"]
  by (auto simp: show_word_def is_ascii_digit_def is_whitespace_def char_in_def)

lemma trim_show_word [simp]: "trim (takeWhile (\<lambda>c. c \<noteq> CHR 0x0A) (show_word (n :: u64))) = show_word n"
proof -
  have digits: "dropWhile is_whitespace s = s" if "set s \<subseteq> set (show_word n)" for s
    using that show_word_no_space by (cases s) auto
  have line: "takeWhile (\<lambda>c. c \<noteq> CHR 0x0A) (show_word n) = show_word n"
    using show_word_no_space by (intro takeWhile_eq_all_conv [THEN iffD2]) blast
  show ?thesis unfolding line trim_def by (simp add: digits)
qed

lemma file_value_written [simp]:
  "reads_decimals E \<Longrightarrow> file_value E path (AList.update path (show_word n) fs) = Some n"
  using trim_show_word [of n] by (auto simp: file_value_def update_conv' reads_decimals_def)
   (simp add: show_word_def)

lemma ch_final_append: "ch_final (rows @ [(k, b)]) k = Some (case ch_final rows k of Some a \<Rightarrow> max a b | None \<Rightarrow> b)"
  by (cases "map snd (filter (\<lambda>r. fst r = k) rows)") (auto simp: ch_final_def max.commute)

lemma position_active [simp]: "position E c (s\<lparr>du_active := n\<rparr>) = position E c s"
  by (simp add: position_def cursor_value_def)

section \<open>A cursor only moves forward\<close>

definition advanced :: "('w, 'z) cursor_env_scheme \<Rightarrow> 'y cursor_config_scheme \<Rightarrow> u64 \<Rightarrow> u64 \<Rightarrow> 'w durable \<Rightarrow> bool" where
  "advanced E c p b s = (position E c s = p \<or> position E c s = max p b)"

lemma worldless_advanced [simp]: "worldless (advanced E c p b)"
  by (simp add: worldless_def advanced_def position_def cursor_value_def)

lemma advance_pg:
  assumes "cc_postgres c"
  shows "io_triple (\<lambda>s. position E c s = p)
    (advance_detail_cursor E (cc_pg_table c) (cc_network c) (cc_detail_key c) b)
    (\<lambda>_ s. position E c s = max p b) (advanced E c p b)"
  unfolding advance_detail_cursor_def Let_def
  by (intro triples io_triple_cases io_triple_if io_triple_commit)
    (auto simp: assms advanced_def worldless_def position_def cursor_value_def pg_put_def update_conv' max_def
      split: option.splits)

lemma advance_ch:
  assumes "\<not> cc_postgres c" "cc_clickhouse c"
  shows "io_triple (\<lambda>s. position E c s = p) (ch_insert E (cc_ch_table c, cc_network c, cc_detail_key c) b)
    (\<lambda>_ s. position E c s = max p b) (advanced E c p b)"
  unfolding ch_insert_def
  by (intro io_triple_commit)
    (auto simp: assms advanced_def worldless_def position_def cursor_value_def ch_final_append split: option.splits)

lemma file_cursor_triple:
  "worldless P \<Longrightarrow> (\<And>s. P s \<Longrightarrow> R s) \<Longrightarrow>
    io_triple P (file_cursor E path) (\<lambda>r s. P s \<and> r = file_value E path (du_files s)) R"
  unfolding file_cursor_def
  by (intro triples io_triple_cases io_triple_if) (auto simp: file_value_def worldless_def)

lemma advance_file:
  assumes "reads_decimals E" and no_db: "\<not> cc_postgres c" "\<not> cc_clickhouse c"
    and path: "written_file E c = Some (build_last_synced_block_number_file E full_path c)"
  shows "io_triple (\<lambda>s. position E c s = p) (update_last_synced_block_number_for_file E c full_path b)
    (\<lambda>_ s. position E c s = max p b) (advanced E c p b)"
proof -
  let ?path = "build_last_synced_block_number_file E full_path c"
  have pos: "position E c s = (case file_value E ?path (du_files s) of Some v \<Rightarrow> v | None \<Rightarrow> 0)" for s :: "'a durable"
    by (simp add: position_def cursor_value_def no_db path)
  have other: "file_value E ?path (AList.update (?path @ ''.tmp'') t fs) = file_value E ?path fs" for t fs
    by (simp add: file_value_def update_conv')
  let ?P = "\<lambda>s. position E c s = p" and ?temp = "?path @ ''.tmp''"
  let ?W = "\<lambda>s. position E c s = p \<and> map_of (du_files s) ?temp = Some (show_word b)"
  have read: "io_triple ?P (get_last_synced_block_number_file E full_path c)
      (\<lambda>r s. ?P s \<and> r = file_value E ?path (du_files s)) (advanced E c p b)"
    unfolding get_last_synced_block_number_file_def
    by (rule file_cursor_triple) (simp_all add: advanced_def worldless_def)
  have rename: "io_triple ?W (store_modify (rename_file ?temp ?path)) (\<lambda>_ s. position E c s = b) R" for R
    using assms(1) by (auto simp: io_triple_def store_modify_def rename_file_def pos)
  have writes: "io_triple ?P (io_then (store_call (ce_fs_call E)) (io_then (store_call (ce_fs_call E))
      (io_then (store_modify (put_file ?temp [])) (io_then (store_call (ce_fs_call E))
        (io_then (store_modify (put_file ?temp (show_word b))) (io_then (store_call (ce_fs_call E))
          (io_then (store_call (ce_fs_call E)) (store_modify (rename_file ?temp ?path)))))))))
      (\<lambda>_ s. position E c s = b) (advanced E c p b)"
    apply (rule io_triple_call_then, simp add: worldless_def, simp add: advanced_def)+
    apply (rule io_triple_modify_then [where M = ?P], simp add: pos put_file_def other)
    apply (rule io_triple_call_then, simp add: worldless_def, simp add: advanced_def)
    apply (rule io_triple_modify_then [where M = ?W], simp add: pos put_file_def other update_conv')
    apply (rule io_triple_call_then, simp add: worldless_def, simp add: advanced_def)+
    by (rule rename)
  show ?thesis
    unfolding update_last_synced_block_number_for_file_def Let_def
    apply (rule io_triple_bind [OF read])
    apply (rule io_triple_pre)
    subgoal premises pre for x s
    proof -
      have p: "p = (case x of Some v \<Rightarrow> v | None \<Rightarrow> 0)" using pre by (simp add: pos)
      show ?thesis
      proof (cases "case x of Some v \<Rightarrow> v < b | None \<Rightarrow> True")
        case True
        then have "max p b = b" using p by (cases x) auto
        then have "io_triple ?P (io_then (store_call (ce_fs_call E)) (io_then (store_call (ce_fs_call E))
            (io_then (store_modify (put_file ?temp [])) (io_then (store_call (ce_fs_call E))
              (io_then (store_modify (put_file ?temp (show_word b))) (io_then (store_call (ce_fs_call E))
                (io_then (store_call (ce_fs_call E)) (store_modify (rename_file ?temp ?path)))))))))
            (\<lambda>_ s. position E c s = max p b) (advanced E c p b)" using writes by simp
        then show ?thesis unfolding if_P [OF True] by (rule io_triple_weaken) auto
      next
        case False
        then have "max p b = p" using p by (cases x) auto
        with False show ?thesis by (auto intro!: io_triple_ret)
      qed
    qed
    done
qed

text \<open>Whatever the outcome, an update leaves the cursor where it was or moves it forward to the new block.\<close>

lemma persist_cursor_triple:
  assumes "reads_decimals E"
  shows "io_triple (\<lambda>s. position E c s = p) (persist_cursor E c b)
    (\<lambda>_ s. has_store c \<longrightarrow> position E c s = max p b) (advanced E c p b)"
proof (cases "cc_postgres c \<or> cc_clickhouse c")
  case True
  then show ?thesis unfolding persist_cursor_def
    by (auto intro!: io_triple_if io_triple_weaken [OF advance_pg] io_triple_weaken [OF advance_ch])
next
  case no_db: False
  have update: "io_triple (\<lambda>s. position E c s = p) (update_last_synced_block_number_for_file E c full_path b)
      (\<lambda>_ s. has_store c \<longrightarrow> position E c s = max p b) (advanced E c p b)"
    if "written_file E c = Some (build_last_synced_block_number_file E full_path c)" for full_path
    using no_db that by (auto intro!: io_triple_weaken [OF advance_file [OF assms]])
  show ?thesis
  proof (cases "cc_csv_path c")
    case None
    then show ?thesis using no_db update
      by (cases "cc_stream_path c")
        (auto simp: persist_cursor_def has_store_def written_file_def intro!: io_triple_ret)
  next
    case (Some csv_path)
    then show ?thesis using no_db update
      by (cases "get_full_path E (cc_project_path c) csv_path")
        (auto simp: persist_cursor_def written_file_def advanced_def intro!: io_triple_fail)
  qed
qed

section \<open>Resuming behind the cursor\<close>

text \<open>Reading looks where writing wrote.\<close>

definition same_place :: "'y cursor_config_scheme \<Rightarrow> bool" where
  "same_place c = (cc_postgres c \<or> cc_clickhouse c \<or> cc_csv_path c = None \<or> cc_contract_csv_enabled c)"

definition resumable :: "u64 \<Rightarrow> u64 option" where
  "resumable p = (if p = 0 then None else Some p)"

lemma nonzero_position: "nonzero r = resumable (case r of Some b \<Rightarrow> b | None \<Rightarrow> 0)"
  by (cases r) (auto simp: nonzero_def resumable_def)

lemma get_last_synced_pg:
  assumes "cc_postgres c"
  shows "io_triple (\<lambda>s. position E c s = p) (get_last_synced_block_number E c) (\<lambda>r _. r = resumable p) (\<lambda>_. True)"
  unfolding get_last_synced_block_number_def Let_def if_P [OF assms]
proof (rule io_triple_then)
  show "io_triple (\<lambda>s. position E c s = p) (ensure_detail_cursor E (cc_pg_table c) (cc_network c) (cc_detail_key c))
      (\<lambda>_ s. position E c s = p) (\<lambda>_. True)"
    unfolding ensure_detail_cursor_def Let_def
    by (intro triples io_triple_commit)
      (auto simp: worldless_def assms position_def cursor_value_def pg_put_def update_conv')
  show "io_triple (\<lambda>s. position E c s = p) (io_then (store_call (ce_pg_call E))
      (io_bind (store_read (\<lambda>s. map_of (du_pg s) (cc_pg_table c, cc_network c, cc_detail_key c))) (\<lambda>row.
         case row of Some b \<Rightarrow> io_ret (nonzero (Some b))
         | None \<Rightarrow> io_fail (Task_Error ''seeded exact cursor disappeared''))))
      (\<lambda>r _. r = resumable p) (\<lambda>_. True)"
    by (intro triples io_triple_cases)
      (auto simp: worldless_def assms position_def cursor_value_def nonzero_position split: option.splits)
qed

lemma get_last_synced_ch:
  assumes "\<not> cc_postgres c" "cc_clickhouse c"
  shows "io_triple (\<lambda>s. position E c s = p) (get_last_synced_block_number E c) (\<lambda>r _. r = resumable p) (\<lambda>_. True)"
proof -
  have insert: "io_triple (\<lambda>s. position E c s = p) (ch_insert E (cc_ch_table c, cc_network c, cc_detail_key c) 0)
      (\<lambda>_ s. position E c s = p) (\<lambda>_. True)"
    unfolding ch_insert_def
    by (intro io_triple_commit)
      (auto simp: assms worldless_def position_def cursor_value_def ch_final_append split: option.splits)
  have seed: "io_triple (\<lambda>s. position E c s = p)
      (if b then io_ret () else ch_insert E (cc_ch_table c, cc_network c, cc_detail_key c) 0)
      (\<lambda>_ s. position E c s = p) (\<lambda>_. True)" for b
    by (intro io_triple_if insert io_triple_ret)
  have final: "io_triple (\<lambda>s. position E c s = p) (io_then (store_call (ce_ch_call E))
      (io_bind (store_read (\<lambda>s. ch_final (du_ch s) (cc_ch_table c, cc_network c, cc_detail_key c))) (\<lambda>row.
         case row of Some b \<Rightarrow> io_ret (nonzero (Some b)) | None \<Rightarrow> io_fail (Task_Error ''no row''))))
      (\<lambda>r _. r = resumable p) (\<lambda>_. True)"
    by (intro triples io_triple_cases)
      (auto simp: worldless_def assms position_def cursor_value_def nonzero_position split: option.splits)
  show ?thesis
    unfolding get_last_synced_block_number_def Let_def if_not_P [OF assms(1)] if_P [OF assms(2)]
    by (intro triples io_triple_weaken [OF io_triple_then [OF seed final]]) (auto simp: worldless_def)
qed

lemma get_last_synced_triple:
  assumes "same_place c"
  shows "io_triple (\<lambda>s. position E c s = p) (get_last_synced_block_number E c) (\<lambda>r _. r = resumable p) (\<lambda>_. True)"
proof (cases "cc_postgres c \<or> cc_clickhouse c")
  case True
  then show ?thesis by (cases "cc_postgres c") (auto intro: get_last_synced_pg get_last_synced_ch)
next
  case no_db: False
  have from_file: "io_triple (\<lambda>s. position E c s = p)
      (io_bind (get_last_synced_block_number_file E full_path c) (\<lambda>r. io_ret (nonzero r))) (\<lambda>r _. r = resumable p) (\<lambda>_. True)"
    if "written_file E c = Some (build_last_synced_block_number_file E full_path c)" for full_path
    unfolding get_last_synced_block_number_file_def
    by (rule io_triple_bind [OF file_cursor_triple], simp add: worldless_def, simp, rule io_triple_ret)
      (use no_db that in \<open>auto simp: nonzero_position position_def cursor_value_def\<close>)
  show ?thesis
  proof (cases "cc_csv_path c")
    case None
    then show ?thesis using no_db from_file
      by (cases "cc_stream_path c")
        (auto simp: get_last_synced_block_number_def written_file_def position_def cursor_value_def resumable_def
          intro!: io_triple_ret)
  next
    case (Some csv_path)
    then show ?thesis using no_db from_file assms
      by (cases "get_full_path E (cc_project_path c) csv_path")
        (auto simp: get_last_synced_block_number_def written_file_def same_place_def intro!: io_triple_fail)
  qed
qed

lemma start_block_read:
  assumes "get_start_end_block E chain latest (Some first) manifest_end c distance s = (Inr (start_block, rest), s')"
  obtains r where "get_last_synced_block_number E c s = (Inr r, s')"
    and "start_block = (case r of Some v \<Rightarrow> v + 1 | None \<Rightarrow> first)"
  using assms
  by (auto simp: get_start_end_block_def io_then_eq_Inr io_bind_eq_Inr io_map_err_eq_Inr Let_def
      split: option.splits if_splits prod.splits)

lemma resume_position:
  assumes "reads_decimals E" "same_place c" "has_store c"
    and written: "update_progress_and_last_synced_task E c b done s = (Inr (), s1)"
    and on_complete: "\<And>s. position E c (done s) = position E c s"
    and restart: "get_start_end_block E chain latest (Some first) manifest_end c distance s1 = (Inr (start_block, rest), s2)"
    and "b \<noteq> 0"
  shows "start_block = max (position E c s) b + 1"
proof -
  obtain s' where persist: "persist_cursor E c b s = (Inr (), s')"
    and s1: "s1 = done (s'\<lparr>du_world := ce_publish E b (du_world s')\<rparr>)"
    using written by (auto simp: update_progress_and_last_synced_task_def split: prod.splits sum.splits task_failure.splits)
  let ?p = "max (position E c s) b"
  have "position E c s1 = ?p"
    using io_tripleD [OF persist_cursor_triple [OF assms(1)] refl persist] assms(3) on_complete by (simp add: s1)
  moreover obtain r where "get_last_synced_block_number E c s1 = (Inr r, s2)"
    and start: "start_block = (case r of Some v \<Rightarrow> v + 1 | None \<Rightarrow> first)"
    by (rule start_block_read [OF restart])
  ultimately have "r = resumable ?p"
    using io_tripleD [OF get_last_synced_triple [OF assms(2)], where s = s1] by auto
  moreover have "?p \<noteq> 0" using assms(7) by (auto simp: max_def)
  ultimately show ?thesis by (simp add: start resumable_def)
qed


section \<open>A CSV section that is switched off\<close>

lemma update_file_keeps_absent:
  assumes "path \<noteq> build_last_synced_block_number_file E full_path c"
    and "path \<noteq> build_last_synced_block_number_file E full_path c @ ''.tmp''"
  shows "io_keeps (\<lambda>s. map_of (du_files s) path = None) (update_last_synced_block_number_for_file E c full_path b)"
proof -
  let ?P = "\<lambda>s. map_of (du_files s) path = None"
  have call: "io_keeps ?P (store_call f)" for f
    by (auto simp: io_keeps_def store_call_def split: prod.splits option.splits)
  have modify: "io_keeps ?P (store_modify g)" if "\<And>s. ?P s \<Longrightarrow> ?P (g s)" for g
    using that by (simp add: io_keeps_def store_modify_def)
  have fetch: "io_keeps ?P (store_read g)" for g
    by (simp add: io_keeps_def store_read_def)
  have put: "?P (put_file t x s)" if "t \<noteq> path" "?P s" for t x s
    using that by (simp add: put_file_def update_conv')
  have rename: "?P (rename_file t u s)" if "u \<noteq> path" "?P s" for t u s
    using that by (auto simp: rename_file_def update_conv' delete_conv' split: option.splits)
  show ?thesis
    unfolding update_last_synced_block_number_for_file_def get_last_synced_block_number_file_def file_cursor_def Let_def
    by (intro call modify fetch put rename io_keeps_then io_keeps_bind io_keeps_ret io_keeps_fail
          | simp add: assms [symmetric] split: option.split if_split | intro conjI impI allI)+
qed

text \<open>C15: With a CSV section in the manifest that is switched off (or a contract that does not write CSV) and a stream
  sink, the cursor is written below the CSV directory and looked up in the stream's own file, which is never
  written: after every restart the stream is indexed again from its first block.
\<close>

theorem disabled_csv_section_forgets_progress:
  assumes "\<not> cc_postgres c" "\<not> cc_clickhouse c" "cc_csv_path c = Some csv_path" "\<not> cc_contract_csv_enabled c"
    and "cc_stream_path c = Some stream_path" "get_full_path E (cc_project_path c) csv_path = Some full_path"
    and stream_file: "stream_file = build_last_synced_block_number_file E (path_join (cc_project_path c) stream_path) c"
    and "stream_file \<noteq> build_last_synced_block_number_file E full_path c"
    and "stream_file \<noteq> build_last_synced_block_number_file E full_path c @ ''.tmp''"
    and "map_of (du_files s) stream_file = None"
    and written: "update_progress_and_last_synced_task E c b indexing_event_processed s = (Inr (), s1)"
    and restart: "get_start_end_block E chain latest (Some first) manifest_end c distance s1 = (Inr (start_block, rest), s2)"
  shows "start_block = first"
proof -
  obtain s' where persist: "update_last_synced_block_number_for_file E c full_path b s = (Inr (), s')"
    and s1: "du_files s1 = du_files s'"
    using written assms(1-6)
    by (auto simp: update_progress_and_last_synced_task_def persist_cursor_def indexing_event_processed_def
        split: prod.splits sum.splits task_failure.splits)
  have absent: "map_of (du_files s1) stream_file = None"
    using io_keepsD [OF update_file_keeps_absent [OF assms(8,9)] assms(10) persist] s1 by simp
  obtain r where fetched: "get_last_synced_block_number E c s1 = (Inr r, s2)"
    and start: "start_block = (case r of Some v \<Rightarrow> v + 1 | None \<Rightarrow> first)"
    by (rule start_block_read [OF restart])
  have "get_last_synced_block_number E c =
      io_bind (get_last_synced_block_number_file E (path_join (cc_project_path c) stream_path) c) (\<lambda>r. io_ret (nonzero r))"
    using assms(1,2,4,5) by (simp add: get_last_synced_block_number_def)
  then have "r = None" using fetched absent
    by (auto simp: get_last_synced_block_number_file_def file_cursor_def stream_file [symmetric] store_read_def
        nonzero_def io_then_eq_Inr io_bind_eq_Inr split: option.splits if_splits prod.splits)
  then show ?thesis by (simp add: start)
qed

section \<open>Example\<close>

definition calm_cursors :: "unit cursor_env" where
  "calm_cursors =
     \<lparr>ce_pg_call = (\<lambda>w. (None, w)), ce_pg_commit = (\<lambda>w. (Committed, w)), ce_ch_call = (\<lambda>w. (None, w)),
      ce_ch_insert = (\<lambda>w. (Committed, w)), ce_fs_call = (\<lambda>w. (None, w)), ce_publish = (\<lambda>_ w. w),
      ce_canonicalize = (\<lambda>p. if p = ''/data/csv'' then Some p else None), ce_lowercase = map to_ascii_lowercase,
      ce_keccak_hex = (\<lambda>s. s), ce_u64_from_str = (\<lambda>s. Some (of_nat (read_nat s)))\<rparr>"

definition file_config :: cursor_config where
  "file_config =
     \<lparr>cc_pg_table = ''t'', cc_ch_table = ''t'', cc_contract_name = ''Token'', cc_network = ''main'',
      cc_event_name = ''Transfer'', cc_detail_key = legacy_detail_key, cc_project_path = ''/app'',
      cc_postgres = False, cc_clickhouse = False, cc_csv_path = Some ''/data/csv'',
      cc_contract_csv_enabled = False, cc_stream_path = Some ''.rindexer/kafka_''\<rparr>"

definition empty_durable :: "'w \<Rightarrow> 'w durable" where
  "empty_durable w = \<lparr>du_pg = [], du_ch = [], du_files = [], du_active = 0, du_world = w\<rparr>"

definition written_to :: "string \<Rightarrow> unit durable" where
  "written_to path = (empty_durable ())\<lparr>du_files := [(path, show_word (7 :: u64))]\<rparr>"

lemma calm_reads_decimals [simp]: "reads_decimals calm_cursors"
  by (simp add: reads_decimals_def calm_cursors_def show_word_def)

definition token_file :: string where
  "token_file = ''/data/csv/Token/last-synced-blocks/token-main-transfer.txt''"

abbreviation "enabled_config \<equiv> file_config\<lparr>cc_contract_csv_enabled := True\<rparr>"

lemma sample_paths:
  "build_last_synced_block_number_file calm_cursors ''/data/csv'' file_config = token_file"
  "build_last_synced_block_number_file calm_cursors ''/data/csv'' enabled_config = token_file"
  "build_last_synced_block_number_file calm_cursors (path_join ''/app'' ''.rindexer/kafka_'') file_config =
     ''/app/.rindexer/kafka_/Token/last-synced-blocks/token-main-transfer.txt''"
  by code_simp+

lemma sample_update:
  "update_progress_and_last_synced_task calm_cursors file_config 7 indexing_event_processed (empty_durable ()) =
     (Inr (), written_to token_file)"
  "update_progress_and_last_synced_task calm_cursors enabled_config 7 indexing_event_processed (empty_durable ()) =
     (Inr (), written_to token_file)"
  by code_simp+

lemma sample_restart:
  "get_start_end_block calm_cursors 1 100 (Some 3) None file_config None (written_to token_file) =
     (Inr (3, 100, 0), written_to token_file)"
  "get_start_end_block calm_cursors 1 100 (Some 3) None enabled_config None (written_to token_file) =
     (Inr (8, 100, 0), written_to token_file)"
  by code_simp+


theorem disabled_csv_section_forgets_progress_witness:
  "\<exists>s1. update_progress_and_last_synced_task calm_cursors file_config 7 indexing_event_processed (empty_durable ()) =
     (Inr (), s1) \<and> fst (get_start_end_block calm_cursors 1 100 (Some 3) None file_config None s1) = Inr (3, 100, 0)"
proof -
  have "(3 :: u64) = 3"
    by (rule disabled_csv_section_forgets_progress [where csv_path = "''/data/csv''" and full_path = "''/data/csv''"
          and stream_path = "''.rindexer/kafka_''", OF _ _ _ _ _ _ refl _ _ _ sample_update(1) sample_restart(1)])
      code_simp+
  then show ?thesis using sample_update sample_restart by auto
qed

end
