(* ===== verification/Event_Processing_Correct.thy ===== *)
theory Event_Processing_Correct
  imports Event_Processing Checkpoints_Correct
begin

text \<open>
  The durable cursor and the callbacks: whatever fails, the cursor does not move past a log that no callback has
  accepted, so a restart hands over everything that was missed. What this needs is stated: in the mode that does
  not wait for each task it fails for a stream that announces factory children.
\<close>

section \<open>What the world remembers\<close>

text \<open>Every operation of the environment keeps a property of the world.\<close>

definition env_keeps :: "('w \<Rightarrow> bool) \<Rightarrow> ('w, 'z) process_env_scheme \<Rightarrow> bool" where
  "env_keeps P E =
     (\<forall>w. P w \<longrightarrow>
        P (snd (ce_pg_call E w)) \<and> P (snd (ce_pg_commit E w)) \<and> P (snd (ce_ch_call E w)) \<and> P (snd (ce_ch_insert E w)) \<and>
        P (snd (ce_fs_call E w)) \<and> (\<forall>b. P (ce_publish E b w)) \<and> (\<forall>d. P (snd (pe_callback E d w))) \<and>
        (\<forall>d. P (pe_sleep E d w)) \<and>
        (case pe_store_children E of Some store \<Rightarrow> \<forall>d. P (snd (store d w)) | None \<Rightarrow> True))"

text \<open>\<open>accepted\<close> shows which logs callbacks have returned \<open>Ok\<close> for.\<close>

definition remembers :: "('w \<Rightarrow> rpc_log set) \<Rightarrow> ('w, 'z) process_env_scheme \<Rightarrow> bool" where
  "remembers accepted E =
     ((\<forall>l. env_keeps (\<lambda>w. l \<in> accepted w) E) \<and>
      (\<forall>data w w'. pe_callback E data w = (Callback_Ok, w') \<longrightarrow> er_log ` set data \<subseteq> accepted w'))"

text \<open>Once the process is shutting down it does not start running again.\<close>

definition stops_for_good :: "('w, 'z) process_env_scheme \<Rightarrow> bool" where
  "stops_for_good E = env_keeps (\<lambda>w. \<not> pe_running E w) E"

definition never_panics :: "('w, 'z) process_env_scheme \<Rightarrow> bool" where
  "never_panics E = (\<forall>data w e w'. pe_callback E data w \<noteq> (Callback_Panic e, w'))"

section \<open>One task\<close>

lemma env_keepsD:
  assumes "env_keeps P E" "P w"
  shows "P (snd (pe_callback E d w))" "P (pe_sleep E n w)" "P (ce_publish E b w)"
    "pe_store_children E = Some store \<Longrightarrow> P (snd (store d w))"
  using assms by (auto simp: env_keeps_def split: option.splits)

lemmas trigger_induct = trigger_until_ok.raw_induct [rotated, consumes 1, case_names step]

lemma trigger_until_ok_keeps:
  "trigger_until_ok E data d w = Some x \<Longrightarrow> env_keeps P E \<longrightarrow> P w \<longrightarrow> P (snd x)"
proof (induction E data d w x rule: trigger_induct)
  case (step rec E data d w x)
  show ?case
  proof (intro impI)
    assume keeps: "env_keeps P E" and w: "P w"
    obtain r w1 where callback: "pe_callback E data w = (r, w1)" by fastforce
    then have w1: "P w1" using env_keepsD(1) [OF keeps w, of data] by simp
    then have "P (pe_sleep E n w1)" for n by (rule env_keepsD(2) [OF keeps])
    then show "P (snd x)" using step keeps w w1 callback
      by (cases r) (auto simp: Let_def split: if_splits)
  qed
qed

lemma trigger_until_ok_accepted:
  "trigger_until_ok E data d w = Some x \<Longrightarrow> remembers accepted E \<longrightarrow>
    (case fst x of Inr _ \<Rightarrow> er_log ` set data \<subseteq> accepted (snd x)
     | Inl _ \<Rightarrow> never_panics E \<longrightarrow> stops_for_good E \<longrightarrow> \<not> pe_running E (snd x))"
proof (induction E data d w x rule: trigger_induct)
  case (step rec E data d w x)
  obtain r w1 where callback: "pe_callback E data w = (r, w1)" by fastforce
  then show ?case using step
    by (cases r) (auto simp: remembers_def never_panics_def Let_def split: if_splits)
qed

lemma trigger_until_ok_stopped: "\<not> pe_running E w \<Longrightarrow> trigger_until_ok E data d w = Some (Inl (Task_Error shutdown_text), w)"
  by (subst trigger_until_ok.simps) simp

lemma config_trigger_event_keeps:
  assumes "env_keeps P E" "P w" "config_trigger_event E data w = Some (r, w')"
  shows "P w'"
proof -
  obtain r1 w1 where trigger: "registry_trigger_event E data w = Some (r1, w1)"
    using assms(3) by (auto simp: config_trigger_event_def Option.bind_eq_Some_conv)
  then have w1: "P w1"
    using trigger_until_ok_keeps [of E data 100 w _ P] assms(1,2) by (auto simp: registry_trigger_event_def split: if_splits)
  have "P w2" if "pe_store_children E = Some store" "store data w1 = (e, w2)" for store e w2
    using env_keepsD(4) [OF assms(1) w1 that(1), of data] that(2) by simp
  then show ?thesis using assms(3) trigger w1
    by (auto simp: config_trigger_event_def split: sum.splits option.splits prod.splits)
qed

lemma persist_keeps_world:
  assumes "env_keeps P E"
  shows "io_keeps (\<lambda>s. P (du_world s)) (persist_cursor E c b)"
proof -
  have call: "io_keeps (\<lambda>s. P (du_world s)) (store_call f)" if "\<And>w. P w \<Longrightarrow> P (snd (f w))" for f
    using that by (fastforce simp: io_keeps_def store_call_def split: prod.splits option.splits)
  have commit: "io_keeps (\<lambda>s. P (du_world s)) (store_commit f g)"
    if "\<And>w. P w \<Longrightarrow> P (snd (f w))" "\<And>s. du_world (g s) = du_world s" for f g
    using that by (fastforce simp: io_keeps_def store_commit_def split: prod.splits commit_outcome.splits)
  have modify: "io_keeps (\<lambda>s. P (du_world s)) (store_modify g)" if "\<And>s. du_world (g s) = du_world s" for g
    using that by (simp add: io_keeps_def store_modify_def)
  have read: "io_keeps (\<lambda>s. P (du_world s)) (store_read g)" for g
    by (simp add: io_keeps_def store_read_def)
  have calls: "\<And>w. P w \<Longrightarrow> P (snd (ce_pg_call E w))" "\<And>w. P w \<Longrightarrow> P (snd (ce_pg_commit E w))"
      "\<And>w. P w \<Longrightarrow> P (snd (ce_ch_insert E w))" "\<And>w. P w \<Longrightarrow> P (snd (ce_fs_call E w))"
    using assms by (auto simp: env_keeps_def)
  show ?thesis
    unfolding persist_cursor_def advance_detail_cursor_def ch_insert_def update_last_synced_block_number_for_file_def
      get_last_synced_block_number_file_def file_cursor_def Let_def
    by (intro call commit modify read calls io_keeps_then io_keeps_bind conjI impI allI io_keeps_ret io_keeps_fail
          | simp add: pg_put_def put_file_def rename_file_def split: option.split if_split)+
qed

lemma update_progress_effect:
  assumes "reads_decimals E" "env_keeps P E" "P (du_world s)"
    and run: "update_progress_and_last_synced_task E c b indexing_event_processed s = (r, s')"
  shows "P (du_world s')" "position E c s' = position E c s \<or> position E c s' = max (position E c s) b"
proof -
  obtain r1 s1 where persist: "persist_cursor E c b s = (r1, s1)" by fastforce
  have "P (du_world s1)" using persist_keeps_world [OF assms(2), of c b] assms(3) persist
    by (metis io_keepsD)
  then show "P (du_world s')" using run persist env_keepsD(3) [OF assms(2)]
    by (auto simp: update_progress_and_last_synced_task_def indexing_event_processed_def
        split: sum.splits task_failure.splits)
  have "position E c s1 = position E c s \<or> position E c s1 = max (position E c s) b"
  proof (cases r1)
    case (Inl e)
    then show ?thesis
      using io_tripleD_err [OF persist_cursor_triple [OF assms(1)] refl, of c b s] persist by (simp add: advanced_def)
  next
    case (Inr u)
    then show ?thesis
      using io_tripleD [OF persist_cursor_triple [OF assms(1)] refl, of c b s] persist
      by (cases "has_store c") (auto simp: persist_cursor_def has_store_def)
  qed
  then show "position E c s' = position E c s \<or> position E c s' = max (position E c s) b"
    using run persist
    by (auto simp: update_progress_and_last_synced_task_def indexing_event_processed_def
        split: sum.splits task_failure.splits)
qed

lemma config_trigger_event_effect:
  assumes "remembers accepted E" "config_trigger_event E data w = Some (r, w')"
  shows "r = Inr u \<Longrightarrow> er_log ` set data \<subseteq> accepted w'"
    and "r = Inl e \<Longrightarrow> never_panics E \<Longrightarrow> stops_for_good E \<Longrightarrow> pe_store_children E = None \<Longrightarrow> pe_registered E \<Longrightarrow>
      \<not> pe_running E w'"
    and "pe_registered E \<Longrightarrow> \<not> pe_running E w \<Longrightarrow> (r, w') = (Inl (Task_Error shutdown_text), w)"
proof -
  obtain r1 w1 where trigger: "registry_trigger_event E data w = Some (r1, w1)"
    using assms(2) by (auto simp: config_trigger_event_def Option.bind_eq_Some_conv)
  have keeps: "env_keeps (\<lambda>w. l \<in> accepted w) E" for l using assms(1) by (simp add: remembers_def)
  have stored: "accepted w1 \<subseteq> accepted w2" if "pe_store_children E = Some store" "store data w1 = (e, w2)" for store e w2
    using env_keepsD(4) [OF keeps _ that(1), of _ w1 data] that(2) by auto
  show "er_log ` set data \<subseteq> accepted w'" if "r = Inr u"
  proof -
    have "r1 = Inr ()" using assms(2) trigger that
      by (auto simp: config_trigger_event_def split: sum.splits option.splits)
    then have "er_log ` set data \<subseteq> accepted w1"
      using trigger_until_ok_accepted [of E data 100 w _ accepted] assms(1) trigger
      by (auto simp: registry_trigger_event_def split: if_splits)
    then show ?thesis using assms(2) trigger stored
      by (auto simp: config_trigger_event_def split: sum.splits option.splits prod.splits) blast+
  qed
  show "\<not> pe_running E w'" if "r = Inl e" "never_panics E" "stops_for_good E" "pe_store_children E = None" "pe_registered E"
    using trigger_until_ok_accepted [of E data 100 w _ accepted] assms trigger that
    by (auto simp: registry_trigger_event_def config_trigger_event_def split: sum.splits)
  show "(r, w') = (Inl (Task_Error shutdown_text), w)" if "pe_registered E" "\<not> pe_running E w"
    using assms(2) trigger that
    by (auto simp: registry_trigger_event_def config_trigger_event_def trigger_until_ok_stopped split: sum.splits option.splits)
qed

lemma trigger_event_cases [consumes 1, case_names skipped empty refused accepted]:
  assumes "trigger_event E c data b s = Some (r, s')"
  obtains "data = []" "r = Inr ()" "s' = indexing_event_processed (indexing_event_processing s)"
  | "data = []" "pe_running E (du_world s)"
    "update_progress_and_last_synced_task E c b indexing_event_processed (indexing_event_processing s) = (r, s')"
  | e w' where "data \<noteq> []" "config_trigger_event E data (du_world s) = Some (Inl e, w')" "r = Inl e"
    "du_world s' = w'" "position E c s' = position E c s"
  | w' where "data \<noteq> []" "config_trigger_event E data (du_world s) = Some (Inr (), w')"
    "update_progress_and_last_synced_task E c b indexing_event_processed ((indexing_event_processing s)\<lparr>du_world := w'\<rparr>) = (r, s')"
proof (cases "data = []")
  case True
  moreover have "du_world (indexing_event_processing s) = du_world s" by (simp add: indexing_event_processing_def)
  ultimately show ?thesis using assms that(1,2) by (auto simp: trigger_event_def Let_def split: if_splits)
next
  case False
  then obtain r1 w1 where config: "config_trigger_event E data (du_world s) = Some (r1, w1)"
    using assms by (auto simp: trigger_event_def Let_def indexing_event_processing_def Option.bind_eq_Some_conv)
  show ?thesis
  proof (cases r1)
    case (Inl e)
    with False config assms that(3) show ?thesis
      by (cases e) (auto simp: trigger_event_def Let_def indexing_event_processing_def indexing_event_processed_def)
  next
    case (Inr u)
    with False config assms that(4) show ?thesis
      by (auto simp: trigger_event_def Let_def indexing_event_processing_def)
  qed
qed

text \<open>What a task does to the cursor and to what has been accepted\<close>

lemma trigger_event_effect:
  assumes env: "remembers accepted E" "reads_decimals E"
    and run: "trigger_event E c data b s = Some (r, s')"
  shows "accepted (du_world s) \<subseteq> accepted (du_world s')"
    and "position E c s' = position E c s \<or>
      position E c s' = max (position E c s) b \<and> er_log ` set data \<subseteq> accepted (du_world s')"
    and "r = Inr () \<Longrightarrow> er_log ` set data \<subseteq> accepted (du_world s')"
    and "r \<noteq> Inr () \<Longrightarrow> never_panics E \<Longrightarrow> stops_for_good E \<Longrightarrow> pe_store_children E = None \<Longrightarrow> pe_registered E \<Longrightarrow>
      er_log ` set data \<subseteq> accepted (du_world s') \<or> \<not> pe_running E (du_world s')"
    and "stops_for_good E \<Longrightarrow> pe_registered E \<Longrightarrow> \<not> pe_running E (du_world s) \<Longrightarrow>
      \<not> pe_running E (du_world s') \<and> position E c s' = position E c s"
proof -
  let ?s = "indexing_event_processing s"
  have keeps: "env_keeps (\<lambda>w. l \<in> accepted w) E" for l using env(1) by (simp add: remembers_def)
  have s: "position E c ?s = position E c s" "du_world ?s = du_world s"
    by (simp_all add: indexing_event_processing_def)
  have processed: "position E c (indexing_event_processed t) = position E c t"
    "du_world (indexing_event_processed t) = du_world t" for t
    by (simp_all add: indexing_event_processed_def)
  have accepts: "accepted w \<subseteq> accepted w'" if "config_trigger_event E data w = Some (r1, w')" for w r1 w'
    using config_trigger_event_keeps [OF keeps _ that] by blast
  note update = update_progress_effect [OF env(2) keeps]
  note config = config_trigger_event_effect [OF env(1)]
  from run show "accepted (du_world s) \<subseteq> accepted (du_world s')"
  proof (cases rule: trigger_event_cases)
    case empty
    then show ?thesis using update(1) [OF _ empty(3)] s by auto
  next
    case (accepted w')
    then show ?thesis using update(1) [OF _ accepted(3)] accepts [OF accepted(2)] by auto
  qed (use accepts in \<open>auto simp: s processed\<close>)
  from run show "position E c s' = position E c s \<or>
      position E c s' = max (position E c s) b \<and> er_log ` set data \<subseteq> accepted (du_world s')"
  proof (cases rule: trigger_event_cases)
    case empty
    then show ?thesis using update_progress_effect(2) [OF env(2) _ _ empty(3), of "\<lambda>_. True"] s by (auto simp: env_keeps_def split: option.splits)
  next
    case (accepted w')
    then have "position E c s' = position E c s \<or> position E c s' = max (position E c s) b"
      using update_progress_effect(2) [OF env(2) _ _ accepted(3), of "\<lambda>_. True"] s by (auto simp: env_keeps_def split: option.splits)
    moreover have "er_log ` set data \<subseteq> accepted (du_world s')"
      using config(1) [OF accepted(2)] update(1) [OF _ accepted(3)] by auto
    ultimately show ?thesis by blast
  qed (auto simp: s processed)
  show "r = Inr () \<Longrightarrow> er_log ` set data \<subseteq> accepted (du_world s')" using run
  proof (cases rule: trigger_event_cases)
    case (accepted w')
    then show ?thesis using config(1) [OF accepted(2)] update(1) [OF _ accepted(3)] by auto
  qed auto
  show "er_log ` set data \<subseteq> accepted (du_world s') \<or> \<not> pe_running E (du_world s')"
    if "r \<noteq> Inr ()" "never_panics E" "stops_for_good E" "pe_store_children E = None" "pe_registered E" using run
  proof (cases rule: trigger_event_cases)
    case (refused e w')
    then show ?thesis using config(2) [OF refused(2) refl that(2-5)] by simp
  next
    case (accepted w')
    then show ?thesis using config(1) [OF accepted(2)] update(1) [OF _ accepted(3)] by auto
  qed (use that in auto)
  show "\<not> pe_running E (du_world s') \<and> position E c s' = position E c s"
    if "stops_for_good E" "pe_registered E" "\<not> pe_running E (du_world s)" using run
  proof (cases rule: trigger_event_cases)
    case (refused e w')
    with config(3) [OF refused(2) that(2,3)] that(3) show ?thesis by simp
  next
    case (accepted w')
    with config(3) [OF accepted(2) that(2,3)] show ?thesis by simp
  qed (use that(3) in \<open>auto simp: s processed\<close>)
qed

section \<open>Batches and their order\<close>

definition block_above :: "u64 \<Rightarrow> rpc_log \<Rightarrow> bool" where
  "block_above p l = (\<forall>n. lg_block_number l = Some n \<longrightarrow> p < n)"

lemma block_above_max [simp]: "block_above (max p q) l \<longleftrightarrow> block_above p l \<and> block_above q l"
  by (auto simp: block_above_def)

definition batch_logs :: "fetch_logs_result list \<Rightarrow> rpc_log set" where
  "batch_logs rs = (\<Union>r\<in>set rs. set (fr_logs r))"

lemma batch_logs_simps [simp]: "batch_logs [] = {}" "batch_logs (r # rs) = set (fr_logs r) \<union> batch_logs rs"
  by (simp_all add: batch_logs_def)

text \<open>Every batch lies above the ranges of the batches before it.\<close>

definition spaced :: "fetch_logs_result list \<Rightarrow> bool" where
  "spaced rs = sorted_wrt (\<lambda>a b. \<forall>l\<in>set (fr_logs b). block_above (fr_to_block a) l) rs"

lemma spaced_Cons: "spaced (r # rs) \<longleftrightarrow> (\<forall>l\<in>batch_logs rs. block_above (fr_to_block r) l) \<and> spaced rs"
  by (auto simp: spaced_def batch_logs_def)

definition stream_results :: "stream_item list \<Rightarrow> fetch_logs_result list" where
  "stream_results items = concat (map (\<lambda>i. case si_result i of Inr r \<Rightarrow> [r] | Inl _ \<Rightarrow> []) items)"

lemma stream_results_simps [simp]: "stream_results [] = []"
  "si_result i = Inl e \<Longrightarrow> stream_results (i # is) = stream_results is"
  "si_result i = Inr r \<Longrightarrow> stream_results (i # is) = r # stream_results is"
  by (simp_all add: stream_results_def)

definition no_reorgs :: "fetch_logs_result list \<Rightarrow> bool" where
  "no_reorgs rs = (\<forall>r\<in>set rs. fr_reorg r = None)"

lemma no_reorgs_Cons [simp]: "no_reorgs (r # rs) \<longleftrightarrow> fr_reorg r = None \<and> no_reorgs rs"
  by (auto simp: no_reorgs_def)

lemma coalesce_spaced:
  "coalesce r is = (b, stop, rest) \<Longrightarrow> spaced (r # stream_results is) \<Longrightarrow> no_reorgs (r # stream_results is) \<Longrightarrow>
    spaced (b # stream_results rest) \<and> no_reorgs (b # stream_results rest) \<and> (\<forall>x. stop \<noteq> Reorg_Follows x) \<and>
    batch_logs (b # stream_results rest) = batch_logs (r # stream_results is)"
proof (induction r "is" arbitrary: b stop rest rule: coalesce.induct)
  case (2 r i "is")
  show ?case
  proof (cases "\<not> length (fr_logs r) < max_coalesce_logs \<or> \<not> si_ready i")
    case True
    then have "b = r" "stop = Nothing_Ready" "rest = i # is" using 2(2) by auto
    then show ?thesis using 2(3,4) by simp
  next
    case ready: False
    show ?thesis
    proof (cases "si_result i")
      case (Inl e)
      then have "b = r" "stop = Error_Follows e" "rest = is" using 2(2) ready by auto
      then show ?thesis using 2(3,4) Inl by simp
    next
      case (Inr x)
      let ?r = "r\<lparr>fr_logs := fr_logs r @ fr_logs x, fr_from_block := min (fr_from_block r) (fr_from_block x),
          fr_to_block := max (fr_to_block r) (fr_to_block x)\<rparr>"
      have x: "fr_reorg x = None" using 2(4) Inr by simp
      then have rest: "coalesce ?r is = (b, stop, rest)" using 2(2) ready Inr by simp
      have "spaced (?r # stream_results is)" "no_reorgs (?r # stream_results is)"
        "batch_logs (?r # stream_results is) = batch_logs (r # stream_results (i # is))"
        using 2(3,4) Inr by (auto simp: spaced_Cons)
      with 2(1) [OF ready Inr _ rest] x show ?thesis by simp
    qed
  qed
qed auto

section \<open>The loop\<close>

text \<open>Every log up to the cursor has been accepted.\<close>

definition safe :: "('w \<Rightarrow> rpc_log set) \<Rightarrow> ('w, 'z) process_env_scheme \<Rightarrow> 'y cursor_config_scheme \<Rightarrow> 'w durable \<Rightarrow> rpc_log set \<Rightarrow> bool" where
  "safe accepted E c s L = (\<forall>l\<in>L. block_above (position E c s) l \<or> l \<in> accepted (du_world s))"

text \<open>All of \<open>D\<close> has been accepted, and the cursor has not reached \<open>R\<close>.\<close>

definition ahead ::
  "('w \<Rightarrow> rpc_log set) \<Rightarrow> ('w, 'z) process_env_scheme \<Rightarrow> 'y cursor_config_scheme \<Rightarrow> 'w durable \<Rightarrow> rpc_log set \<Rightarrow> rpc_log set \<Rightarrow> bool" where
  "ahead accepted E c s D R = (D \<subseteq> accepted (du_world s) \<and> (\<forall>l\<in>R. block_above (position E c s) l))"

lemma ahead_safe: "ahead accepted E c s D R \<Longrightarrow> safe accepted E c s (D \<union> R)"
  by (auto simp: ahead_def safe_def)

definition steady :: "('w, 'z) process_env_scheme \<Rightarrow> bool" where
  "steady E = (never_panics E \<and> stops_for_good E \<and> pe_store_children E = None \<and> pe_registered E)"

definition stopped_safe ::
  "('w \<Rightarrow> rpc_log set) \<Rightarrow> ('w, 'z) process_env_scheme \<Rightarrow> 'y cursor_config_scheme \<Rightarrow> 'w durable \<Rightarrow> rpc_log set \<Rightarrow> bool" where
  "stopped_safe accepted E c s L = (\<not> pe_running E (du_world s) \<and> safe accepted E c s L)"

lemma event_results_logs: "event_results k r = Some data \<Longrightarrow> er_log ` set data = set (fr_logs r)"
  by (auto simp: event_results_def image_image split: if_splits)

lemma task_step:
  assumes env: "remembers accepted E" "reads_decimals E"
    and batch: "handle_logs_result c b = Some t" "fr_reorg b = None"
    and above: "\<forall>l\<in>R. block_above (fr_to_block b) l"
    and before: "ahead accepted E c s D (set (fr_logs b) \<union> R)"
    and run: "run_task E c t s = Some (r, s')"
  shows "safe accepted E c s' (D \<union> set (fr_logs b) \<union> R)"
    and "r = Inr () \<Longrightarrow> ahead accepted E c s' (D \<union> set (fr_logs b)) R"
    and "steady E \<Longrightarrow> ahead accepted E c s' (D \<union> set (fr_logs b)) R \<or> stopped_safe accepted E c s' (D \<union> set (fr_logs b) \<union> R)"
proof -
  obtain data where data: "event_results (cc_detail_key c) b = Some data" "t = Run_Batch data (fr_to_block b)"
    using batch by (auto simp: handle_logs_result_def)
  have logs: "er_log ` set data = set (fr_logs b)" using event_results_logs [OF data(1)] .
  have run: "trigger_event E c data (fr_to_block b) s = Some (r, s')" using run by (simp add: data(2))
  note effect = trigger_event_effect [OF env run, unfolded logs]
  have D: "D \<subseteq> accepted (du_world s')" using before effect(1) by (auto simp: ahead_def)
  have R: "\<forall>l\<in>R. block_above (position E c s') l"
    using before above effect(2) by (auto simp: ahead_def)
  have b: "\<forall>l\<in>set (fr_logs b). block_above (position E c s') l \<or> l \<in> accepted (du_world s')"
    using before effect(2) by (auto simp: ahead_def)
  show safe: "safe accepted E c s' (D \<union> set (fr_logs b) \<union> R)" using D R b by (auto simp: safe_def)
  show ok: "r = Inr () \<Longrightarrow> ahead accepted E c s' (D \<union> set (fr_logs b)) R" using D R effect(3) by (auto simp: ahead_def)
  show "steady E \<Longrightarrow> ahead accepted E c s' (D \<union> set (fr_logs b)) R \<or> stopped_safe accepted E c s' (D \<union> set (fr_logs b) \<union> R)"
    using D R safe ok effect(4) by (auto simp: steady_def stopped_safe_def ahead_def)
qed

lemma stopped_step:
  assumes env: "remembers accepted E" "reads_decimals E" "steady E"
    and "stopped_safe accepted E c s L" "handle_logs_result c b = Some t" "run_task E c t s = Some (r, s')"
  shows "stopped_safe accepted E c s' L"
proof (cases t)
  case Nothing_To_Do
  then show ?thesis using assms by simp
next
  case (Run_Batch data n)
  then have run: "trigger_event E c data n s = Some (r, s')" using assms(6) by simp
  show ?thesis
    using trigger_event_effect(1,5) [OF env(1,2) run] env(3) assms(4) by (auto simp: steady_def stopped_safe_def safe_def)
qed

text \<open>
  The invariant between two dispatches: \<open>L\<close> has been dispatched and \<open>R\<close> is still to come. A task may hold the permit.
\<close>

definition tasks_good ::
  "('w \<Rightarrow> rpc_log set) \<Rightarrow> ('w, 'z) process_env_scheme \<Rightarrow> 'y cursor_config_scheme \<Rightarrow> in_flight \<Rightarrow> 'w durable \<Rightarrow>
     rpc_log set \<Rightarrow> rpc_log set \<Rightarrow> bool" where
  "tasks_good accepted E c f s L R =
     (case if_holding f of
        None \<Rightarrow> ahead accepted E c s L R \<or> stopped_safe accepted E c s (L \<union> R)
      | Some t \<Rightarrow>
          (\<exists>b D. handle_logs_result c b = Some t \<and> fr_reorg b = None \<and> L = D \<union> set (fr_logs b) \<and>
             (\<forall>l\<in>R. block_above (fr_to_block b) l) \<and>
             (ahead accepted E c s D (set (fr_logs b) \<union> R) \<or> stopped_safe accepted E c s (L \<union> R))))"

lemma finish_holding_good:
  assumes env: "remembers accepted E" "reads_decimals E" "steady E"
    and good: "tasks_good accepted E c f s L R"
    and finish: "finish_holding E c (f, s) = Some (f', s')"
  shows "if_holding f' = None \<and> tasks_good accepted E c f' s' L R"
proof (cases "if_holding f")
  case None
  then show ?thesis using good finish by (simp add: finish_holding_def)
next
  case (Some t)
  then obtain r where run: "run_task E c t s = Some (r, s')" and f': "if_holding f' = None"
    using finish by (auto simp: finish_holding_def Option.bind_eq_Some_conv)
  obtain b D where batch: "handle_logs_result c b = Some t" "fr_reorg b = None" "L = D \<union> set (fr_logs b)"
      "\<forall>l\<in>R. block_above (fr_to_block b) l"
      "ahead accepted E c s D (set (fr_logs b) \<union> R) \<or> stopped_safe accepted E c s (L \<union> R)"
    using good Some by (auto simp: tasks_good_def)
  then show ?thesis
    using task_step(3) [OF env(1,2) batch(1,2,4) _ run env(3)] stopped_step [OF env _ batch(1) run] f'
    by (auto simp: tasks_good_def)
qed

lemma tasks_good_safe:
  assumes env: "remembers accepted E" "reads_decimals E" "steady E"
    and "tasks_good accepted E c f s L R" "finish_holding E c (f, s) = Some (f', s')"
  shows "safe accepted E c s' (L \<union> R)"
  using finish_holding_good [OF assms] ahead_safe by (auto simp: tasks_good_def stopped_safe_def)

lemma tasks_good_hold:
  assumes "tasks_good accepted E c f s L (set (fr_logs b) \<union> R)" "if_holding f = None"
    and "handle_logs_result c b = Some t" "fr_reorg b = None" "\<forall>l\<in>R. block_above (fr_to_block b) l"
  shows "tasks_good accepted E c (f\<lparr>if_holding := Some t\<rparr>) s (L \<union> set (fr_logs b)) R"
  unfolding tasks_good_def using assms
  by (auto simp: tasks_good_def Un_assoc intro!: exI [of _ b] exI [of _ L])

text \<open>A dispatch in either mode\<close>

definition dispatchable ::
  "('w \<Rightarrow> rpc_log set) \<Rightarrow> ('w, 'z) process_env_scheme \<Rightarrow> 'y process_config_scheme \<Rightarrow> in_flight \<times> 'w durable \<Rightarrow>
     rpc_log set \<Rightarrow> rpc_log set \<Rightarrow> bool" where
  "dispatchable accepted E c = (\<lambda>(f, s) L R.
     if pc_block_until_indexed c then if_holding f = None \<and> ahead accepted E c s L R
     else tasks_good accepted E c f s L R)"

text \<open>Letting the task in flight run to its end leaves nothing up to the cursor unaccepted.\<close>

definition settles ::
  "('w \<Rightarrow> rpc_log set) \<Rightarrow> ('w, 'z) process_env_scheme \<Rightarrow> 'y cursor_config_scheme \<Rightarrow> in_flight \<times> 'w durable \<Rightarrow> rpc_log set \<Rightarrow> bool" where
  "settles accepted E c st L = (\<forall>f s. finish_holding E c st = Some (f, s) \<longrightarrow> safe accepted E c s L)"

lemma dispatchable_settles:
  assumes env: "remembers accepted E" "reads_decimals E" "pc_block_until_indexed c \<or> steady E"
    and "dispatchable accepted E c st L R"
  shows "settles accepted E c st (L \<union> R)"
proof (cases "pc_block_until_indexed c")
  case True
  with assms(4) show ?thesis
    by (cases st) (auto simp: settles_def dispatchable_def finish_holding_def intro: ahead_safe)
next
  case False
  with assms show ?thesis
    by (cases st) (auto simp: settles_def dispatchable_def intro: tasks_good_safe)
qed

lemma dispatch_batch_effect:
  assumes env: "remembers accepted E" "reads_decimals E" "pc_block_until_indexed c \<or> steady E"
    and ready: "dispatchable accepted E c st L (set (fr_logs b) \<union> R)" and above: "\<forall>l\<in>R. block_above (fr_to_block b) l"
    and "fr_reorg b = None"
    and dispatch: "dispatch_batch E c (pc_block_until_indexed c) polled b st = Some (e, st')"
  shows "e = Inr () \<Longrightarrow> dispatchable accepted E c st' (L \<union> set (fr_logs b)) R"
    and "settles accepted E c st' (L \<union> set (fr_logs b) \<union> R)"
proof -
  obtain f s where st: "st = (f, s)" by fastforce
  have both: "(e = Inr () \<longrightarrow> dispatchable accepted E c st' (L \<union> set (fr_logs b)) R) \<and>
      settles accepted E c st' (L \<union> set (fr_logs b) \<union> R)"
  proof (cases "handle_logs_result c b")
    case None
    then have "st' = st" "e \<noteq> Inr ()" using dispatch by (auto simp: dispatch_batch_def st)
    then show ?thesis using dispatchable_settles [OF env ready] by (simp add: Un_assoc)
  next
    case (Some t)
    then have t: "t \<noteq> Nothing_To_Do" using assms(6) by (auto simp: handle_logs_result_def)
    show ?thesis
    proof (cases "pc_block_until_indexed c")
      case True
      obtain s' where run: "run_task E c t s = Some (e, s')" and st': "st' = (f, s')"
        using dispatch Some True by (auto simp: dispatch_batch_def st Option.bind_eq_Some_conv)
      have f: "if_holding f = None" and "ahead accepted E c s L (set (fr_logs b) \<union> R)"
        using ready True by (simp_all add: dispatchable_def st)
      note step = task_step [OF env(1,2) Some assms(6) above this(2) run]
      show ?thesis using step(1,2) True f by (auto simp: dispatchable_def settles_def st' finish_holding_def)
    next
      case False
      then have steady: "steady E" using env(3) by simp
      obtain f1 s1 f3 s3 where finish: "finish_holding E c (f, s) = Some (f1, s1)"
        and f3: "(if po_ran polled then finish_holding E c (f1\<lparr>if_holding := Some t\<rparr>, s1)
                 else Some (f1\<lparr>if_holding := Some t\<rparr>, s1)) = Some (f3, s3)"
        and st': "st' = (f3\<lparr>if_ended := drop (po_seen polled) (if_ended f3)\<rparr>, s3)"
        using dispatch Some False t
        by (auto simp: dispatch_batch_def st Option.bind_eq_Some_conv Let_def split: option.splits)
      have "tasks_good accepted E c f s L (set (fr_logs b) \<union> R)" using ready False by (simp add: dispatchable_def st)
      from finish_holding_good [OF env(1,2) steady this finish]
      have held: "tasks_good accepted E c (f1\<lparr>if_holding := Some t\<rparr>) s1 (L \<union> set (fr_logs b)) R"
        by (intro tasks_good_hold Some assms(6) above) auto
      then have "tasks_good accepted E c f3 s3 (L \<union> set (fr_logs b)) R"
        using f3 finish_holding_good [OF env(1,2) steady held] by (auto split: if_splits)
      then have "dispatchable accepted E c st' (L \<union> set (fr_logs b)) R"
        using False by (simp add: dispatchable_def st' tasks_good_def)
      then show ?thesis using dispatchable_settles [OF env] by blast
    qed
  qed
  then show "e = Inr () \<Longrightarrow> dispatchable accepted E c st' (L \<union> set (fr_logs b)) R"
    and "settles accepted E c st' (L \<union> set (fr_logs b) \<union> R)" by auto
qed

lemma settles_mono: "settles accepted E c st L \<Longrightarrow> L' \<subseteq> L \<Longrightarrow> settles accepted E c st L'"
  by (auto simp: settles_def safe_def)

lemma finish_stream_settles:
  "settles accepted E c st L \<Longrightarrow> finish_stream E c st = Some (e, st') \<Longrightarrow> settles accepted E c st' L"
  by (cases st) (auto simp: finish_stream_def settles_def finish_holding_def no_tasks_def Option.bind_eq_Some_conv
      split: option.splits)

lemma process_stream_settles:
  assumes env: "remembers accepted E" "reads_decimals E" "pc_block_until_indexed c \<or> steady E"
  shows "process_stream E c polls k pending items st = Some (e, st') \<Longrightarrow>
    spaced (stream_results items) \<Longrightarrow> no_reorgs (stream_results items) \<Longrightarrow>
    dispatchable accepted E c st L (batch_logs (stream_results items)) \<Longrightarrow>
    settles accepted E c st' (L \<union> batch_logs (stream_results items))"
proof (induction items arbitrary: k pending st L e st' rule: length_induct)
  case (1 items)
  note run = 1(2) and spaced = 1(3) and no_reorgs = 1(4) and ready = 1(5)
  note IH = 1(1) [rule_format]
  note settled = dispatchable_settles [OF env ready]
  show ?case
  proof (cases pending)
    case (Some x)
    then show ?thesis using run settled by simp
  next
    case pending: None
    show ?thesis
    proof (cases items)
      case Nil
      then show ?thesis using run settled finish_stream_settles [of accepted E c st] by (simp add: pending)
    next
      case (Cons i "is")
      show ?thesis
      proof (cases "si_result i")
        case (Inl x)
        then show ?thesis using run settled by (simp add: pending Cons)
      next
        case (Inr r)
        then have r: "fr_reorg r = None" using no_reorgs by (simp add: Cons)
        obtain b stop rest where co: "coalesce r is = (b, stop, rest)" by (metis prod_cases3)
        have batch: "spaced (b # stream_results rest)" "no_reorgs (b # stream_results rest)" "\<forall>x. stop \<noteq> Reorg_Follows x"
          "batch_logs (b # stream_results rest) = batch_logs (stream_results items)"
          using coalesce_spaced [OF co] spaced no_reorgs Inr by (auto simp: Cons)
        have shorter: "length rest < length items" using length_coalesce_eq [OF co [symmetric]] by (simp add: Cons)
        obtain e1 st1 where dispatch: "dispatch_batch E c (pc_block_until_indexed c) (polls k) b st = Some (e1, st1)"
          using run Inr r co by (auto simp: pending Cons Option.bind_eq_Some_conv)
        have logs: "batch_logs (stream_results items) = set (fr_logs b) \<union> batch_logs (stream_results rest)"
          using batch(4) by simp
        note effect = dispatch_batch_effect [OF env, of st L b "batch_logs (stream_results rest)", folded logs, OF ready _ _ dispatch]
        have effect: "e1 = Inr () \<Longrightarrow> dispatchable accepted E c st1 (L \<union> set (fr_logs b)) (batch_logs (stream_results rest))"
          "settles accepted E c st1 (L \<union> set (fr_logs b) \<union> batch_logs (stream_results rest))"
          using effect batch(1,2) by (auto simp: spaced_Cons)
        show ?thesis
        proof (cases e1)
          case (Inl x)
          then have "st' = st1" using run \<open>si_result i = Inr r\<close> r co dispatch by (auto simp: pending Cons)
          then show ?thesis using effect(2) by (simp add: logs Un_assoc)
        next
          case Inr1: (Inr u)
          have "process_stream E c polls (k + 1) (case stop of Error_Follows x \<Rightarrow> Some x | _ \<Rightarrow> None) rest st1 = Some (e, st')"
            using run \<open>si_result i = Inr r\<close> r co dispatch Inr1 batch(3)
            by (cases stop) (auto simp: pending Cons)
          from IH [OF shorter this _ _ effect(1)] batch(1,2) show ?thesis
            using Inr1 by (simp add: logs Un_assoc spaced_Cons)
        qed
      qed
    qed
  qed
qed


section \<open>A failure that the cursor passes\<close>

text \<open>C13: Outside the awaiting mode a task that fails does not keep the next one from running: the loop reports the
  failure only after it has started the next task, which then moves the cursor past the failed batch. The event
  that announces the children of a factory fails this way when their addresses cannot be stored, and a restart
  does not come back to them.
\<close>

theorem failed_task_is_passed:
  assumes "\<not> pc_block_until_indexed c" "reads_decimals E" "has_store c"
    and "fr_reorg a = None" "handle_logs_result c a = Some ta" "fr_reorg b = None" "handle_logs_result c b = Some (Run_Batch data last_block)"
    and fails: "run_task E c ta s = Some (Inl e, s1)"
    and succeeds: "run_task E c (Run_Batch data last_block) s1 = Some (Inr (), s2)" "data \<noteq> []"
    and polls: "\<not> po_ran (polls 0)" "po_seen (polls 0) = 0" "\<not> po_ran (polls 1)" "0 < po_seen (polls 1)"
    and items: "items = [\<lparr>si_result = Inr a, si_ready = True\<rparr>, \<lparr>si_result = Inr b, si_ready = False\<rparr>]"
  shows "\<exists>f f'. process_event_logs E c polls items s = Some (Inl e, f, s1) \<and>
    finish_holding E c (f, s1) = Some (f', s2) \<and> position E c s2 = max (position E c s1) last_block"
proof -
  have ta: "ta \<noteq> Nothing_To_Do" "if_holding no_tasks = None" "if_ended no_tasks = []"
    using assms(4,5) by (auto simp: handle_logs_result_def no_tasks_def)
  have first: "dispatch_batch E c False (polls 0) a (no_tasks, s) = Some (Inr (), \<lparr>if_ended = [], if_holding = Some ta\<rparr>, s)"
    using ta polls assms(5) by (simp add: dispatch_batch_def finish_holding_def no_tasks_def)
  have second: "dispatch_batch E c False (polls 1) b (\<lparr>if_ended = [], if_holding = Some ta\<rparr>, s) =
      Some (Inl e, \<lparr>if_ended = [], if_holding = Some (Run_Batch data last_block)\<rparr>, s1)"
    using polls(3,4) assms(7) fails by (cases "po_seen (polls 1)") (simp_all add: dispatch_batch_def finish_holding_def)
  have "process_event_logs E c polls items s =
      Some (Inl e, \<lparr>if_ended = [], if_holding = Some (Run_Batch data last_block)\<rparr>, s1)"
    using assms(1,4,6) first second by (simp add: process_event_logs_def items Let_def)
  moreover have "finish_holding E c (\<lparr>if_ended = [], if_holding = Some (Run_Batch data last_block)\<rparr>, s1) =
      Some (\<lparr>if_ended = [Inr ()], if_holding = None\<rparr>, s2)"
    using succeeds by (simp add: finish_holding_def)
  moreover have "position E c s2 = max (position E c s1) last_block"
  proof -
    have "trigger_event E c data last_block s1 = Some (Inr (), s2)" using succeeds by simp
    then obtain w where update: "update_progress_and_last_synced_task E c last_block indexing_event_processed
        ((indexing_event_processing s1)\<lparr>du_world := w\<rparr>) = (Inr (), s2)"
      using succeeds(2) by (cases rule: trigger_event_cases) auto
    then obtain s3 where persist: "persist_cursor E c last_block ((indexing_event_processing s1)\<lparr>du_world := w\<rparr>) = (Inr (), s3)"
      and s2: "position E c s2 = position E c s3"
      by (auto simp: update_progress_and_last_synced_task_def indexing_event_processed_def
          split: prod.splits sum.splits task_failure.splits)
    have "position E c s3 = max (position E c ((indexing_event_processing s1)\<lparr>du_world := w\<rparr>)) last_block"
      using io_tripleD [OF persist_cursor_triple [OF assms(2)] refl persist] assms(3) by simp
    then show ?thesis by (simp add: s2 indexing_event_processing_def)
  qed
  ultimately show ?thesis by blast
qed

section \<open>Example\<close>

text \<open>The world: the accepted logs and the stored children\<close>

definition factory_env :: "(rpc_log list \<times> rpc_log list) process_env" where
  "factory_env =
     \<lparr>ce_pg_call = (\<lambda>w. (None, w)), ce_pg_commit = (\<lambda>w. (Committed, w)), ce_ch_call = (\<lambda>w. (None, w)),
      ce_ch_insert = (\<lambda>w. (Committed, w)), ce_fs_call = (\<lambda>w. (None, w)), ce_publish = (\<lambda>_ w. w),
      ce_canonicalize = Some, ce_lowercase = (\<lambda>s. s), ce_keccak_hex = (\<lambda>s. s),
      ce_u64_from_str = (\<lambda>s. Some (of_nat (read_nat s))),
      pe_callback = (\<lambda>d (accepted, children). (Callback_Ok, accepted @ map er_log d, children)), pe_registered = True,
      pe_store_children = Some (\<lambda>d (accepted, children).
        if length accepted = 1 then (Some ''connection lost'', accepted, children)
        else (None, accepted, children @ map er_log d)),
      pe_running = (\<lambda>_. True), pe_cancelled = (\<lambda>_. False), pe_sleep = (\<lambda>_ w. w)\<rparr>"

definition pg_config :: "bool \<Rightarrow> process_config" where
  "pg_config awaiting =
     \<lparr>cc_pg_table = ''t'', cc_ch_table = ''t'', cc_contract_name = ''Token'', cc_network = ''main'',
      cc_event_name = ''Created'', cc_detail_key = legacy_detail_key, cc_project_path = ''/app'',
      cc_postgres = True, cc_clickhouse = False, cc_csv_path = None, cc_contract_csv_enabled = False,
      cc_stream_path = None, pc_live_indexing = False, pc_force_no_live_indexing = True,
      pc_block_until_indexed = awaiting\<rparr>"

definition log_at :: "u64 \<Rightarrow> rpc_log" where
  "log_at n =
     \<lparr>lg_address = 1, lg_topics = [], lg_data = [], lg_block_hash = Some 1, lg_block_number = Some n,
      lg_block_timestamp = None, lg_transaction_hash = Some 1, lg_transaction_index = Some 0, lg_log_index = Some 0,
      lg_removed = False\<rparr>"

definition batch_of :: "u64 \<Rightarrow> u64 \<Rightarrow> u64 \<Rightarrow> fetch_logs_result" where
  "batch_of a n b = \<lparr>fr_logs = [log_at n], fr_from_block = a, fr_to_block = b, fr_reorg = None\<rparr>"

definition seeded :: "u64 \<Rightarrow> 'w \<Rightarrow> 'w durable" where
  "seeded p w = (empty_durable w)\<lparr>du_pg := [((''t'', ''main'', legacy_detail_key), p)]\<rparr>"

lemma factory_reads_decimals: "reads_decimals factory_env"
  by (simp add: reads_decimals_def factory_env_def show_word_def)

lemma factory_remembers: "remembers (\<lambda>w. set (fst w)) factory_env"
  by (auto simp: remembers_def env_keeps_def factory_env_def)

definition result_at :: "u64 \<Rightarrow> u64 \<Rightarrow> u64 \<Rightarrow> event_result" where
  "result_at a n b = \<lparr>er_log = log_at n, er_from_block = a, er_to_block = b, er_detail_key = legacy_detail_key\<rparr>"

lemma sample_batch: "handle_logs_result (pg_config awaiting) (batch_of a n b) = Some (Run_Batch [result_at a n b] b)"
  by (simp add: handle_logs_result_def batch_of_def event_results_def complete_log_def log_at_def result_at_def pg_config_def)

lemma factory_trigger: "trigger_until_ok factory_env data d (accepted, children) = Some (Inr (), accepted @ map er_log data, children)"
  by (subst trigger_until_ok.simps) (simp add: factory_env_def)

lemma factory_fields:
  "ce_pg_call factory_env w = (None, w)" "ce_pg_commit factory_env w = (Committed, w)" "ce_publish factory_env b w = w"
  "pe_registered factory_env" "pe_running factory_env w" "\<not> pe_cancelled factory_env w"
  "pe_store_children factory_env = Some (\<lambda>d (accepted, children).
     if length accepted = 1 then (Some ''connection lost'', accepted, children)
     else (None, accepted, children @ map er_log d))"
  by (simp_all add: factory_env_def)

lemma factory_advance:
  "p < b \<Longrightarrow> update_progress_and_last_synced_task factory_env (pg_config awaiting) b g (seeded p w) = (Inr (), g (seeded b w))"
  by (simp add: update_progress_and_last_synced_task_def persist_cursor_def pg_config_def advance_detail_cursor_def
      store_call_def store_commit_def store_read_def pg_put_def io_then_def io_bind_def Let_def seeded_def empty_durable_def
      factory_fields)

lemma factory_advance_active:
  "p < b \<Longrightarrow> update_progress_and_last_synced_task factory_env (pg_config awaiting) b indexing_event_processed
      ((indexing_event_processing (seeded p v))\<lparr>du_world := w\<rparr>) = (Inr (), seeded b w)"
  by (simp add: update_progress_and_last_synced_task_def persist_cursor_def pg_config_def advance_detail_cursor_def
      store_call_def store_commit_def store_read_def pg_put_def io_then_def io_bind_def Let_def seeded_def empty_durable_def
      factory_fields indexing_event_processing_def indexing_event_processed_def)

lemma factory_first: "run_task factory_env (pg_config awaiting) (Run_Batch [result_at a n b] b) (seeded p ([], [])) =
    Some (Inl (Task_Error ''connection lost''), seeded p ([log_at n], []))"
  by (simp add: trigger_event_def config_trigger_event_def registry_trigger_event_def factory_trigger Let_def result_at_def
      factory_fields seeded_def empty_durable_def indexing_event_processing_def indexing_event_processed_def)

lemma factory_second: "p < b \<Longrightarrow>
    run_task factory_env (pg_config awaiting) (Run_Batch [result_at a n b] b) (seeded p ([l], [])) =
      Some (Inr (), seeded b ([l, log_at n], [log_at n]))"
  using factory_advance_active [where v = "([l], [])" and w = "([l, log_at n], [log_at n])"]
  by (simp add: trigger_event_def config_trigger_event_def registry_trigger_event_def factory_trigger Let_def result_at_def
      factory_fields)
    (simp add: seeded_def empty_durable_def indexing_event_processing_def factory_trigger)

theorem failed_task_is_passed_witness:
  "\<exists>f f' s2. process_event_logs factory_env (pg_config False) (\<lambda>k. \<lparr>po_ran = False, po_seen = k\<rparr>)
      [\<lparr>si_result = Inr (batch_of 1 5 10), si_ready = True\<rparr>, \<lparr>si_result = Inr (batch_of 11 15 20), si_ready = False\<rparr>]
      (seeded 0 ([], [])) = Some (Inl (Task_Error ''connection lost''), f, seeded 0 ([log_at 5], [])) \<and>
    finish_holding factory_env (pg_config False) (f, seeded 0 ([log_at 5], [])) = Some (f', s2) \<and>
    position factory_env (pg_config False) s2 = 20 \<and> log_at 5 \<notin> set (snd (du_world s2))"
proof -
  have start: "position factory_env (pg_config False) (seeded 0 w) = 0" for w
    by (simp add: position_def cursor_value_def pg_config_def seeded_def)
  have "\<exists>f f'. process_event_logs factory_env (pg_config False) (\<lambda>k. \<lparr>po_ran = False, po_seen = k\<rparr>)
      [\<lparr>si_result = Inr (batch_of 1 5 10), si_ready = True\<rparr>, \<lparr>si_result = Inr (batch_of 11 15 20), si_ready = False\<rparr>]
      (seeded 0 ([], [])) = Some (Inl (Task_Error ''connection lost''), f, seeded 0 ([log_at 5], [])) \<and>
    finish_holding factory_env (pg_config False) (f, seeded 0 ([log_at 5], [])) =
      Some (f', seeded 20 ([log_at 5, log_at 15], [log_at 15])) \<and>
    position factory_env (pg_config False) (seeded 20 ([log_at 5, log_at 15], [log_at 15])) =
      max (position factory_env (pg_config False) (seeded 0 ([log_at 5], []))) 20"
    by (rule failed_task_is_passed [OF _ factory_reads_decimals _ _ sample_batch _ sample_batch factory_first factory_second
          _ _ _ _ _ refl]) (simp_all add: pg_config_def has_store_def batch_of_def)
  moreover have "log_at 5 \<notin> set (snd (du_world (seeded 20 ([log_at 5, log_at 15], [log_at 15]))))"
    by (simp add: seeded_def empty_durable_def log_at_def)
  ultimately show ?thesis unfolding start by fastforce
qed

lemma awaiting_run:
  "process_event_logs factory_env (pg_config True) polls [\<lparr>si_result = Inr (batch_of 11 15 20), si_ready = True\<rparr>]
     (seeded 0 ([log_at 3], [])) = Some (Inr (), no_tasks, seeded 20 ([log_at 3, log_at 15], [log_at 15]))"
proof -
  have c: "pc_block_until_indexed (pg_config True)" "\<not> pc_live_indexing (pg_config True)" "fr_reorg (batch_of a n b) = None" for a n b
    by (simp_all add: pg_config_def batch_of_def)
  have "dispatch_batch factory_env (pg_config True) True (polls 0) (batch_of 11 15 20) (no_tasks, seeded 0 ([log_at 3], [])) =
      Some (Inr (), no_tasks, seeded 20 ([log_at 3, log_at 15], [log_at 15]))"
    using factory_second [of 0 20 True 11 15 "log_at 3"] by (simp add: dispatch_batch_def sample_batch)
  then show ?thesis
    using c by (simp add: process_event_logs_def finish_stream_def finish_holding_def no_tasks_def
        ensure_logs_stream_end_is_expected_def)
qed


end
