(* ===== verification/Detail_Key.thy ===== *)
theory Detail_Key
  imports Event_Filter Checkpoints_Correct
begin

text \<open>
  The identity under which the cursor of one manifest detail is stored (\<open>derive_detail_key\<close> of
  \<open>core/src/event/config.rs\<close>). The text of an address comes from a library and is an argument.
\<close>

record factory_details =
  fy_contract_name :: string
  fy_address :: "address value_or_array"
  fy_input_name :: "string value_or_array"
  fy_indexed_filters :: "event_input_indexed_filters list option"

datatype indexing_contract_setup =
  Setup_Address address_details
| Setup_Filter filter_details
| Setup_Factory factory_details

definition indexed_positions :: "event_input_indexed_filters \<Rightarrow> string list" where
  "indexed_positions f =
     concat (map (\<lambda>(position, vs). case vs of
         Some values \<Rightarrow> if values = [] then [] else [''i'' @ show_nat position @ '':'' @ join '','' values]
       | None \<Rightarrow> [])
       [(1, ix_indexed_1 f), (2, ix_indexed_2 f), (3, ix_indexed_3 f)])"

definition address_prefix :: "(address \<Rightarrow> string) \<Rightarrow> address value_or_array \<Rightarrow> string option" where
  "address_prefix show_address a =
     (case a of
        Value_Of x \<Rightarrow> Some (show_address x)
      | Array_Of xs \<Rightarrow> if xs = [] then None else Some (join '','' (map show_address xs)))"

text \<open>The filters of the event, an absent list being empty (\<open>alternatives\<close> of \<open>Event_Filter\<close>)\<close>

definition key_parts ::
  "(address \<Rightarrow> string) \<Rightarrow> indexing_contract_setup \<Rightarrow> string \<Rightarrow> (string \<times> event_input_indexed_filters list) option" where
  "key_parts show_address setup event_name =
     (case setup of
        Setup_Address d \<Rightarrow>
          map_option (\<lambda>p. (p, alternatives event_name (ad_indexed_filters d))) (address_prefix show_address (ad_address d))
      | Setup_Factory d \<Rightarrow>
          map_option (\<lambda>p. (p, alternatives event_name (fy_indexed_filters d))) (address_prefix show_address (fy_address d))
      | Setup_Filter d \<Rightarrow> Some (''filter:'' @ event_name, alternatives event_name (fd_indexed_filters d)))"

definition derive_detail_key :: "(address \<Rightarrow> string) \<Rightarrow> indexing_contract_setup \<Rightarrow> string \<Rightarrow> string" where
  "derive_detail_key show_address setup event_name =
     (case key_parts show_address setup event_name of
        None \<Rightarrow> legacy_detail_key
      | Some (prefix, indexed_filters) \<Rightarrow>
          if indexed_filters = [] \<or> (\<exists>f\<in>set indexed_filters. indexed_positions f = []) then legacy_detail_key
          else map to_ascii_lowercase
                 (prefix @ '':'' @ join ''|'' (map (\<lambda>f. join '':'' (indexed_positions f)) indexed_filters)))"

section \<open>A key determines what is queried\<close>

lemma split_at_first: "p @ c # r = p' @ c # r' \<Longrightarrow> c \<notin> set p \<Longrightarrow> c \<notin> set p' \<Longrightarrow> p = p' \<and> r = r'"
  by (induction p arbitrary: p') (auto simp: Cons_eq_append_conv append_eq_Cons_conv)

lemma join_Cons: "xs \<noteq> [] \<Longrightarrow> join sep (x # xs) = x @ sep @ join sep xs"
  by (cases xs) simp_all

lemma join_inject:
  "join [c] xs = join [c] ys \<Longrightarrow> (\<And>x. x \<in> set xs \<Longrightarrow> c \<notin> set x) \<Longrightarrow> (\<And>y. y \<in> set ys \<Longrightarrow> c \<notin> set y) \<Longrightarrow>
    xs \<noteq> [] \<Longrightarrow> ys \<noteq> [] \<Longrightarrow> xs = ys"
proof (induction xs arbitrary: ys)
  case (Cons x xs)
  obtain y ys' where ys: "ys = y # ys'" using Cons.prems(5) by (cases ys) auto
  have x: "c \<notin> set x" "c \<notin> set y" using Cons.prems(2,3) by (auto simp: ys)
  consider "xs = []" "ys' = []" | "xs = []" "ys' \<noteq> []" | "xs \<noteq> []" "ys' = []" | "xs \<noteq> []" "ys' \<noteq> []" by blast
  then show ?case
  proof cases
    case 2
    then have "c \<in> set x" using Cons.prems(1) by (simp add: ys join_Cons)
    then show ?thesis using x by simp
  next
    case 3
    then have "c \<in> set y" using Cons.prems(1) by (simp add: ys join_Cons) (metis in_set_conv_decomp)
    then show ?thesis using x by simp
  next
    case 4
    then have "x = y \<and> join [c] xs = join [c] ys'"
      using Cons.prems(1) x by (intro split_at_first) (simp_all add: ys join_Cons)
    then show ?thesis using Cons.IH [of ys'] Cons.prems(2,3) 4 by (auto simp: ys)
  qed (use Cons.prems(1) ys in simp)
qed simp

lemma set_join: "set (join sep xs) \<subseteq> set sep \<union> \<Union> (set ` set xs)"
  by (induction sep xs rule: join.induct) auto

text \<open>Values that no separator occurs in, written in lower case\<close>

definition plain :: "string \<Rightarrow> bool" where
  "plain v = (map to_ascii_lowercase v = v \<and> CHR '','' \<notin> set v \<and> CHR '':'' \<notin> set v \<and> CHR ''|'' \<notin> set v)"

definition plain_filter :: "event_input_indexed_filters \<Rightarrow> bool" where
  "plain_filter f =
     (\<forall>vs\<in>{ix_indexed_1 f, ix_indexed_2 f, ix_indexed_3 f}. case vs of Some values \<Rightarrow> \<forall>v\<in>set values. plain v | None \<Rightarrow> True)"

definition plain_addresses :: "(address \<Rightarrow> string) \<Rightarrow> bool" where
  "plain_addresses show_address =
     (inj (\<lambda>a. map to_ascii_lowercase (show_address a)) \<and>
      (\<forall>a. \<forall>c\<in>{CHR '','', CHR '':'', CHR ''|''}. c \<notin> set (map to_ascii_lowercase (show_address a))))"

definition position_values :: "event_input_indexed_filters \<Rightarrow> string list \<times> string list \<times> string list" where
  "position_values f = (let vs = (\<lambda>x. case x of Some values \<Rightarrow> values | None \<Rightarrow> [])
     in (vs (ix_indexed_1 f), vs (ix_indexed_2 f), vs (ix_indexed_3 f)))"

lemma topics_of_position_values: "position_values f = position_values g \<Longrightarrow> topics_of p f = topics_of p g"
  by (auto simp: position_values_def topics_of_def Let_def split: option.splits)

definition position_tokens :: "event_input_indexed_filters \<Rightarrow> string list" where
  "position_tokens f =
     (let tokens = (\<lambda>n values. if values = [] then [] else [''i'' @ show_nat n, join '','' values]);
          (v1, v2, v3) = position_values f
      in tokens 1 v1 @ tokens 2 v2 @ tokens 3 v3)"

lemma join_positions: "join '':'' (indexed_positions f) = join '':'' (position_tokens f)"
  by (auto simp: indexed_positions_def position_tokens_def position_values_def Let_def split: option.splits)

lemma positions_Nil: "indexed_positions f = [] \<longleftrightarrow> position_tokens f = []"
  by (auto simp: indexed_positions_def position_tokens_def position_values_def Let_def split: option.splits)

lemma plain_joined:
  "\<forall>v\<in>set vs. plain v \<Longrightarrow> c \<in> {CHR '':'', CHR ''|''} \<Longrightarrow> c \<notin> set (join '','' vs)"
  using set_join [of "'',''" vs] by (auto simp: plain_def)

lemma lower_join: "map to_ascii_lowercase (join sep xs) = join (map to_ascii_lowercase sep) (map (map to_ascii_lowercase) xs)"
  by (induction sep xs rule: join.induct) auto

lemma lower_plain: "\<forall>v\<in>set vs. plain v \<Longrightarrow> map to_ascii_lowercase (join '','' vs) = join '','' vs"
proof -
  assume "\<forall>v\<in>set vs. plain v"
  then have "map (map to_ascii_lowercase) vs = vs" by (auto simp: plain_def intro: map_idI)
  then show ?thesis by (simp add: lower_join to_ascii_lowercase_def char_in_def)
qed

lemma position_digits: "show_nat 1 = ''1''" "show_nat (Suc 0) = ''1''" "show_nat 2 = ''2''" "show_nat 3 = ''3''"
  by code_simp+

lemma plain_values:
  assumes "plain_filter f" "position_values f = (v1, v2, v3)"
  shows "\<forall>v\<in>set v1 \<union> set v2 \<union> set v3. plain v"
  using assms by (cases "ix_indexed_1 f"; cases "ix_indexed_2 f"; cases "ix_indexed_3 f")
    (auto simp: plain_filter_def position_values_def)

lemma plain_tokens:
  assumes "plain_filter f" "t \<in> set (position_tokens f)"
  shows "map to_ascii_lowercase t = t \<and> CHR '':'' \<notin> set t \<and> CHR ''|'' \<notin> set t"
proof -
  obtain v1 v2 v3 where v: "position_values f = (v1, v2, v3)" by (metis prod_cases3)
  have joined: "map to_ascii_lowercase (join '','' vs) = join '','' vs \<and> CHR '':'' \<notin> set (join '','' vs) \<and>
      CHR ''|'' \<notin> set (join '','' vs)" if "vs \<in> {v1, v2, v3}" for vs
  proof -
    have "\<forall>v\<in>set vs. plain v" using plain_values [OF assms(1) v] that by blast
    from lower_plain [OF this] plain_joined [OF this] show ?thesis by blast
  qed
  have "t \<in> {''i1'', ''i2'', ''i3''} \<or> t \<in> join '','' ` {v1, v2, v3}"
    using assms(2) by (auto simp: position_tokens_def v position_digits split: if_splits)
  then show ?thesis
  proof
    assume "t \<in> {''i1'', ''i2'', ''i3''}"
    then show ?thesis by (auto simp: to_ascii_lowercase_def char_in_def)
  next
    assume "t \<in> join '','' ` {v1, v2, v3}"
    then show ?thesis using joined by blast
  qed
qed

lemma plain_commas: "plain_filter f \<Longrightarrow> position_values f = (v1, v2, v3) \<Longrightarrow> v \<in> set v1 \<union> set v2 \<union> set v3 \<Longrightarrow> CHR '','' \<notin> set v"
  using plain_values [of f v1 v2 v3] by (auto simp: plain_def)

lemma tokens_inject:
  assumes plain: "plain_filter f" "plain_filter g" and eq: "position_tokens f = position_tokens g"
  shows "position_values f = position_values g"
proof -
  obtain v1 v2 v3 where v: "position_values f = (v1, v2, v3)" by (metis prod_cases3)
  obtain w1 w2 w3 where w: "position_values g = (w1, w2, w3)" by (metis prod_cases3)
  have "vs = ws" if "join '','' vs = join '','' ws" "vs \<noteq> []" "ws \<noteq> []"
      "set vs \<subseteq> set v1 \<union> set v2 \<union> set v3" "set ws \<subseteq> set w1 \<union> set w2 \<union> set w3" for vs ws
    by (rule join_inject [OF that(1) _ _ that(2,3)]) (use plain_commas [OF plain(1) v] plain_commas [OF plain(2) w] that(4,5) in blast)+
  then have "v1 = w1 \<and> v2 = w2 \<and> v3 = w3"
    using eq by (auto simp: position_tokens_def v w position_digits split: if_splits)
  then show ?thesis by (simp add: v w)
qed

lemma alternative_inject:
  assumes plain: "plain_filter f" "plain_filter g" and "indexed_positions f \<noteq> []" "indexed_positions g \<noteq> []"
    and "join '':'' (indexed_positions f) = join '':'' (indexed_positions g)"
  shows "position_values f = position_values g"
proof (rule tokens_inject [OF plain])
  show "position_tokens f = position_tokens g"
    by (rule join_inject [of "CHR '':''"])
      (use assms plain_tokens [OF plain(1)] plain_tokens [OF plain(2)] in \<open>auto simp: join_positions positions_Nil\<close>)
qed

lemma plain_alternative:
  assumes "plain_filter f"
  shows "map to_ascii_lowercase (join '':'' (indexed_positions f)) = join '':'' (indexed_positions f)"
    and "CHR ''|'' \<notin> set (join '':'' (indexed_positions f))"
proof -
  have "map (map to_ascii_lowercase) (position_tokens f) = position_tokens f"
    using plain_tokens [OF assms] by (auto intro: map_idI)
  then show "map to_ascii_lowercase (join '':'' (indexed_positions f)) = join '':'' (indexed_positions f)"
    by (simp add: join_positions lower_join to_ascii_lowercase_def char_in_def)
  show "CHR ''|'' \<notin> set (join '':'' (indexed_positions f))"
    using set_join [of "'':''" "position_tokens f"] plain_tokens [OF assms] by (auto simp: join_positions)
qed

lemma alternatives_inject:
  assumes plain: "\<forall>f\<in>set fs \<union> set gs. plain_filter f \<and> indexed_positions f \<noteq> []" and "fs \<noteq> []" "gs \<noteq> []"
    and "join ''|'' (map (\<lambda>f. join '':'' (indexed_positions f)) fs) = join ''|'' (map (\<lambda>f. join '':'' (indexed_positions f)) gs)"
  shows "map position_values fs = map position_values gs"
proof -
  have "map (\<lambda>f. join '':'' (indexed_positions f)) fs = map (\<lambda>f. join '':'' (indexed_positions f)) gs"
    by (rule join_inject [OF assms(4)]) (use assms(1-3) plain_alternative(2) in auto)
  then show ?thesis using plain
  proof (induction fs arbitrary: gs)
    case (Cons f fs)
    then obtain g gs' where "gs = g # gs'" by (cases gs) auto
    with Cons show ?case using alternative_inject [of f g] by auto
  qed simp
qed


lemma show_word_plain: "plain_addresses show_word"
proof -
  have digit: "to_ascii_lowercase c = c \<and> c \<noteq> CHR '','' \<and> c \<noteq> CHR '':'' \<and> c \<noteq> CHR ''|''" if "is_ascii_digit c" for c
    using that by (auto simp: is_ascii_digit_def char_in_def to_ascii_lowercase_def)
  have digits: "is_ascii_digit c" if "c \<in> set (show_word a)" for c and a :: address
    using that show_nat_digits by (simp add: show_word_def)
  have "map to_ascii_lowercase (show_word a) = show_word a" for a :: address
    using digits digit by (auto intro: map_idI)
  then show ?thesis using digits digit by (auto simp: plain_addresses_def inj_def)
qed

definition sample_filters :: "string list option \<Rightarrow> event_input_indexed_filters list" where
  "sample_filters first =
     [\<lparr>ix_event_name = ''Transfer'', ix_indexed_1 = first, ix_indexed_2 = Some [''0xcd'', ''0xef''], ix_indexed_3 = None\<rparr>]"


section \<open>Streams that share a cursor\<close>

lemma unfiltered_key: "alternatives event (ad_indexed_filters d) = [] \<Longrightarrow>
    derive_detail_key show_address (Setup_Address d) event = legacy_detail_key"
  by (auto simp: derive_detail_key_def key_parts_def split: option.splits)

text \<open>C14: Two details of an event on one network without filters for it, for instance two contracts with their own
  addresses, share one cursor: once the first has recorded block \<open>b\<close>, the second resumes behind \<open>b\<close> after a restart,
  also when it has not handed over a single log below \<open>b\<close>.
\<close>

theorem unfiltered_details_share_cursor:
  assumes "reads_decimals E" "same_place c" "has_store c" "b \<noteq> 0"
    and "alternatives event (ad_indexed_filters d) = []" "alternatives event (ad_indexed_filters d') = []"
    and written: "update_progress_and_last_synced_task E
        (c\<lparr>cc_detail_key := derive_detail_key show_address (Setup_Address d) event\<rparr>) b indexing_event_processed s = (Inr (), s1)"
    and restart: "get_start_end_block E chain latest (Some first) manifest_end
        (c\<lparr>cc_detail_key := derive_detail_key show_address (Setup_Address d') event\<rparr>) distance s1 = (Inr (start_block, rest), s2)"
  shows "start_block = max (position E (c\<lparr>cc_detail_key := legacy_detail_key\<rparr>) s) b + 1"
proof -
  let ?c = "c\<lparr>cc_detail_key := legacy_detail_key\<rparr>"
  have c: "same_place ?c" "has_store ?c" using assms(2,3) by (simp_all add: same_place_def has_store_def)
  have processed: "position E ?c (indexing_event_processed s) = position E ?c s" for s
    by (simp add: indexing_event_processed_def)
  show ?thesis
    by (rule resume_position [where c = ?c and ?done = indexing_event_processed and ?s1.0 = s1])
      (use assms(1,4) c processed written restart in \<open>simp_all only: unfiltered_key [OF assms(5)] unfiltered_key [OF assms(6)] not_False_eq_True\<close>)
qed

theorem unfiltered_details_share_cursor_witness:
  "derive_detail_key show_word (Setup_Address \<lparr>ad_address = Value_Of 5, ad_indexed_filters = None\<rparr>) ''Transfer'' =
     derive_detail_key show_word (Setup_Address \<lparr>ad_address = Value_Of 6, ad_indexed_filters = None\<rparr>) ''Transfer'' \<and>
   get_start_end_block calm_cursors 1 100 (Some 3) None enabled_config None (written_to token_file) =
     (Inr (max (position calm_cursors enabled_config (empty_durable ())) 7 + 1, 100, 0), written_to token_file)"
proof -
  let ?d = "\<lambda>a. \<lparr>ad_address = Value_Of a, ad_indexed_filters = None\<rparr>"
  have alternatives: "alternatives ''Transfer'' (ad_indexed_filters (?d a)) = []" for a by (simp add: alternatives_def)
  have same: "enabled_config\<lparr>cc_detail_key := derive_detail_key show_address (Setup_Address (?d a)) ''Transfer''\<rparr> = enabled_config"
      "enabled_config\<lparr>cc_detail_key := legacy_detail_key\<rparr> = enabled_config" for show_address a
    unfolding unfiltered_key [OF alternatives] by (simp_all add: file_config_def)
  let ?c = "\<lambda>a. enabled_config\<lparr>cc_detail_key := derive_detail_key show_word (Setup_Address (?d a)) ''Transfer''\<rparr>"
  have place: "same_place enabled_config" "has_store enabled_config" "(7 :: u64) \<noteq> 0"
    by (simp_all add: same_place_def has_store_def file_config_def)
  have written: "update_progress_and_last_synced_task calm_cursors (?c 5) 7 indexing_event_processed (empty_durable ()) =
      (Inr (), written_to token_file)"
    unfolding same by (rule sample_update(2))
  have restart: "get_start_end_block calm_cursors 1 100 (Some 3) None (?c 6) None (written_to token_file) =
      (Inr (8, 100, 0), written_to token_file)"
    unfolding same by (rule sample_restart(2))
  note position = unfiltered_details_share_cursor [OF calm_reads_decimals place alternatives alternatives written restart]
  show ?thesis using position by (simp add: unfiltered_key [OF alternatives] sample_restart same)
qed

text \<open>Values that differ only in case are different topics, but the key does not tell them apart.\<close>

lemma key_ignores_case:
  "derive_detail_key show_address (Setup_Address \<lparr>ad_address = a, ad_indexed_filters =
     Some [\<lparr>ix_event_name = e, ix_indexed_1 = Some [''USDC''], ix_indexed_2 = None, ix_indexed_3 = None\<rparr>]\<rparr>) e =
   derive_detail_key show_address (Setup_Address \<lparr>ad_address = a, ad_indexed_filters =
     Some [\<lparr>ix_event_name = e, ix_indexed_1 = Some [''usdc''], ix_indexed_2 = None, ix_indexed_3 = None\<rparr>]\<rparr>) e"
proof -
  have "indexed_positions \<lparr>ix_event_name = e, ix_indexed_1 = Some [v], ix_indexed_2 = None, ix_indexed_3 = None\<rparr> = [''i1:'' @ v]" for v
    by (simp add: indexed_positions_def position_digits)
  moreover have "map to_ascii_lowercase ''USDC'' = map to_ascii_lowercase ''usdc''" by code_simp
  ultimately show ?thesis
    by (simp add: derive_detail_key_def key_parts_def alternatives_def split: option.splits)
qed

end
