(* ===== verification/Spec2Isabelle.thy ===== *)
theory Spec2Isabelle
  imports Reorg_Handling Filter_Correct Filter_Parser_Total Streams_Correct Filter_Legacy
    Provider_Correct Provider_Backfill Parallel_Backfill Live_Indexing_Correct
    Event_Processing_Correct Detail_Key
begin

text \<open>A verification development for rindexer.\<close>

end
